(* ===== verification/Prelude.thy ===== *)
theory Prelude
  imports Main "HOL-Library.Word"
begin

text \<open>
  Shared by every component: the machine integers of the C code, the result of an
  operation that may terminate the process, a small state-and-failure monad in which the
  C statements are sequenced, the proof rules for it, and lemmas on words and lists.

  An operation of the program is an \<open>act\<close>: it takes the state it works on and gives
  either a value or the way the process ended, together with the state reached.
  \<^item> \<open>Exit n msg\<close>: the code called \<open>exit (n)\<close> or \<open>_exit (n)\<close> (\<open>msg\<close> names the place);
  \<^item> \<open>Assert_fail\<close>: a false \<open>assert\<close>, which aborts the process;
  \<^item> \<open>Bad_access\<close>: a read or write outside the C object (undefined behaviour);
  \<^item> \<open>Blocked\<close>: the code waits for input that the environment has not delivered;
  \<^item> \<open>Out_of_fuel\<close>: a loop without a bound of its own used up the given number of rounds.
\<close>

unbundle bit_operations_syntax

section \<open>Machine integers\<close>

type_synonym u8 = "8 word"
type_synonym u16 = "16 word"
type_synonym u32 = "32 word"
type_synonym u64 = "64 word"

named_theorems act_simps "how the combinators of the monad compute"
named_theorems keeps_intros "rules that push an invariant through an operation"
named_theorems frame_intros "rules that show that an operation leaves an observation unchanged"
named_theorems triple_intros "rules that push a postcondition through an operation"

section \<open>Operations that may end the process\<close>

datatype fault = Exit int string | Assert_fail | Bad_access | Blocked | Out_of_fuel

type_synonym ('s, 'a) act = "'s \<Rightarrow> (fault + 'a) \<times> 's"

definition retM :: "'a \<Rightarrow> ('s, 'a) act" where
  "retM x = (\<lambda>s. (Inr x, s))"

definition failM :: "fault \<Rightarrow> ('s, 'a) act" where
  "failM e = (\<lambda>s. (Inl e, s))"

definition bindM :: "('s, 'a) act \<Rightarrow> ('a \<Rightarrow> ('s, 'b) act) \<Rightarrow> ('s, 'b) act" where
  "bindM m f = (\<lambda>s. case m s of (Inl e, s') \<Rightarrow> (Inl e, s') | (Inr x, s') \<Rightarrow> f x s')"

definition seqM :: "('s, 'a) act \<Rightarrow> ('s, 'b) act \<Rightarrow> ('s, 'b) act" where
  "seqM m n = bindM m (\<lambda>_. n)"

primrec seqsM :: "('s, unit) act list \<Rightarrow> ('s, unit) act" where
  "seqsM [] = retM ()"
| "seqsM (m # ms) = seqM m (seqsM ms)"

definition getM :: "('s \<Rightarrow> 'a) \<Rightarrow> ('s, 'a) act" where
  "getM f = (\<lambda>s. (Inr (f s), s))"

definition modM :: "('s \<Rightarrow> 's) \<Rightarrow> ('s, unit) act" where
  "modM f = (\<lambda>s. (Inr (), f s))"

definition whenM :: "bool \<Rightarrow> ('s, unit) act \<Rightarrow> ('s, unit) act" where
  "whenM b m = (if b then m else retM ())"

definition assertM :: "bool \<Rightarrow> ('s, unit) act" where
  "assertM b = (if b then retM () else failM Assert_fail)"

text \<open>The result of a computation that is not a state change, as an operation.\<close>

definition liftM :: "fault + 'a \<Rightarrow> ('s, 'a) act" where
  "liftM r = (\<lambda>s. (r, s))"

text \<open>Running an operation on a part of the state (a field of a struct).\<close>

definition zoomM :: "('s \<Rightarrow> 't) \<Rightarrow> ('t \<Rightarrow> 's \<Rightarrow> 's) \<Rightarrow> ('t, 'a) act \<Rightarrow> ('s, 'a) act" where
  "zoomM get put m = (\<lambda>s. case m (get s) of (r, t) \<Rightarrow> (r, put t s))"

lemma retM_apply [act_simps]: "retM x s = (Inr x, s)"
  by (simp add: retM_def)

lemma failM_apply [act_simps]: "failM e s = (Inl e, s)"
  by (simp add: failM_def)

lemma bindM_apply [act_simps]:
  "bindM m f s = (case m s of (Inl e, s') \<Rightarrow> (Inl e, s') | (Inr x, s') \<Rightarrow> f x s')"
  by (simp add: bindM_def)

lemma seqM_apply [act_simps]:
  "seqM m n s = (case m s of (Inl e, s') \<Rightarrow> (Inl e, s') | (Inr x, s') \<Rightarrow> n s')"
  by (simp add: seqM_def bindM_def)

lemma getM_apply [act_simps, simp]: "getM f s = (Inr (f s), s)"
  by (simp add: getM_def)

lemma modM_apply [act_simps, simp]: "modM f s = (Inr (), f s)"
  by (simp add: modM_def)

lemma whenM_apply [act_simps]: "whenM b m s = (if b then m s else (Inr (), s))"
  by (simp add: whenM_def retM_apply)

lemma assertM_apply [act_simps]:
  "assertM b s = (if b then (Inr (), s) else (Inl Assert_fail, s))"
  by (simp add: assertM_def retM_apply failM_apply)

lemma liftM_apply [act_simps]: "liftM r s = (r, s)"
  by (simp add: liftM_def)

lemma zoomM_apply [act_simps]:
  "zoomM get put m s = (case m (get s) of (r, t) \<Rightarrow> (r, put t s))"
  by (simp add: zoomM_def)

lemma bind_retM [simp]: "bindM (retM x) f = f x"
  by (simp add: bindM_def retM_def)

lemma bindM_retM [simp]: "bindM m retM = m"
  by (rule ext) (auto simp: bindM_def retM_apply split: prod.splits sum.splits)

lemma bindM_assoc: "bindM (bindM m f) g = bindM m (\<lambda>x. bindM (f x) g)"
  by (rule ext) (auto simp: bindM_def split: prod.splits sum.splits)

lemma seqM_assoc: "seqM (seqM m n) k = seqM m (seqM n k)"
  by (simp add: seqM_def bindM_assoc)

lemma seqM_skip [simp]: "seqM (retM ()) m = m"
  by (simp add: seqM_def)

lemma seqM_skip_right [simp]: "seqM m (retM ()) = m"
  by (rule ext) (auto simp: seqM_apply retM_apply split: prod.splits sum.splits)

lemma seqsM_append: "seqsM (ms @ ns) = seqM (seqsM ms) (seqsM ns)"
  by (induction ms) (simp_all add: seqM_assoc)

section \<open>Invariants and frames\<close>

text \<open>
  \<open>keeps P m\<close>: whatever way \<open>m\<close> ends, a state with \<open>P\<close> leads to one with \<open>P\<close>.
  \<open>frame f m\<close>: \<open>m\<close> never changes the observation \<open>f\<close>.
  \<open>triple P m Q E\<close>: from \<open>P\<close>, a returned value satisfies \<open>Q\<close> and a fault satisfies \<open>E\<close>.
\<close>

definition keeps :: "('s \<Rightarrow> bool) \<Rightarrow> ('s, 'a) act \<Rightarrow> bool" where
  "keeps P m \<longleftrightarrow> (\<forall>s. P s \<longrightarrow> P (snd (m s)))"

definition frame :: "('s \<Rightarrow> 'b) \<Rightarrow> ('s, 'a) act \<Rightarrow> bool" where
  "frame f m \<longleftrightarrow> (\<forall>s. f (snd (m s)) = f s)"

definition triple ::
  "('s \<Rightarrow> bool) \<Rightarrow> ('s, 'a) act \<Rightarrow> ('a \<Rightarrow> 's \<Rightarrow> bool) \<Rightarrow> (fault \<Rightarrow> 's \<Rightarrow> bool) \<Rightarrow> bool" where
  "triple P m Q E \<longleftrightarrow>
     (\<forall>s. P s \<longrightarrow> (case m s of (Inl e, s') \<Rightarrow> E e s' | (Inr x, s') \<Rightarrow> Q x s'))"

lemma keepsD: "keeps P m \<Longrightarrow> P s \<Longrightarrow> m s = (r, s') \<Longrightarrow> P s'"
  by (metis keeps_def snd_conv)

lemma keeps_snd: "keeps P m \<Longrightarrow> P s \<Longrightarrow> P (snd (m s))"
  by (simp add: keeps_def)

lemma frameD: "frame f m \<Longrightarrow> m s = (r, s') \<Longrightarrow> f s' = f s"
  by (metis frame_def snd_conv)

lemma frame_snd: "frame f m \<Longrightarrow> f (snd (m s)) = f s"
  by (simp add: frame_def)

lemma keeps_retM [keeps_intros]: "keeps P (retM x)"
  by (simp add: keeps_def retM_apply)

lemma keeps_failM [keeps_intros]: "keeps P (failM e)"
  by (simp add: keeps_def failM_apply)

lemma keeps_getM [keeps_intros]: "keeps P (getM f)"
  by (simp add: keeps_def)

lemma keeps_liftM [keeps_intros]: "keeps P (liftM r)"
  by (simp add: keeps_def liftM_apply)

lemma keeps_assertM [keeps_intros]: "keeps P (assertM b)"
  by (simp add: keeps_def assertM_apply)

lemma keeps_modM [keeps_intros]: "(\<And>s. P s \<Longrightarrow> P (f s)) \<Longrightarrow> keeps P (modM f)"
  by (simp add: keeps_def)

lemma keeps_bindM [keeps_intros]:
  "keeps P m \<Longrightarrow> (\<And>x. keeps P (f x)) \<Longrightarrow> keeps P (bindM m f)"
  by (force simp: keeps_def bindM_apply split: prod.splits sum.splits)

lemma keeps_seqM [keeps_intros]: "keeps P m \<Longrightarrow> keeps P n \<Longrightarrow> keeps P (seqM m n)"
  by (simp add: seqM_def keeps_bindM)

lemma keeps_seqsM [keeps_intros]: "(\<And>m. m \<in> set ms \<Longrightarrow> keeps P m) \<Longrightarrow> keeps P (seqsM ms)"
  by (induction ms) (simp_all add: keeps_retM keeps_seqM)

lemma keeps_whenM [keeps_intros]: "(b \<Longrightarrow> keeps P m) \<Longrightarrow> keeps P (whenM b m)"
  by (simp add: whenM_def keeps_retM)

lemma keeps_if [keeps_intros]:
  "(b \<Longrightarrow> keeps P m) \<Longrightarrow> (\<not> b \<Longrightarrow> keeps P n) \<Longrightarrow> keeps P (if b then m else n)"
  by simp

lemma keeps_case_option [keeps_intros]:
  "(x = None \<Longrightarrow> keeps P m) \<Longrightarrow> (\<And>y. x = Some y \<Longrightarrow> keeps P (f y)) \<Longrightarrow>
   keeps P (case x of None \<Rightarrow> m | Some y \<Rightarrow> f y)"
  by (cases x) simp_all

lemma keeps_case_prod [keeps_intros]:
  "(\<And>a b. x = (a, b) \<Longrightarrow> keeps P (f a b)) \<Longrightarrow> keeps P (case x of (a, b) \<Rightarrow> f a b)"
  by (cases x) simp

lemma keeps_zoomM:
  "(\<And>s r t. P s \<Longrightarrow> m (get s) = (r, t) \<Longrightarrow> P (put t s)) \<Longrightarrow> keeps P (zoomM get put m)"
  by (simp add: keeps_def zoomM_apply split: prod.splits)

lemma frame_keeps: "frame f m \<longleftrightarrow> (\<forall>c. keeps (\<lambda>s. f s = c) m)"
  by (auto simp: frame_def keeps_def)

lemma frame_retM [frame_intros]: "frame f (retM x)"
  by (simp add: frame_def retM_apply)

lemma frame_failM [frame_intros]: "frame f (failM e)"
  by (simp add: frame_def failM_apply)

lemma frame_getM [frame_intros]: "frame f (getM g)"
  by (simp add: frame_def)

lemma frame_liftM [frame_intros]: "frame f (liftM r)"
  by (simp add: frame_def liftM_apply)

lemma frame_assertM [frame_intros]: "frame f (assertM b)"
  by (simp add: frame_def assertM_apply)

lemma frame_modM [frame_intros]: "(\<And>s. f (g s) = f s) \<Longrightarrow> frame f (modM g)"
  by (simp add: frame_def)

lemma frame_bindM [frame_intros]:
  "frame f m \<Longrightarrow> (\<And>x. frame f (g x)) \<Longrightarrow> frame f (bindM m g)"
  by (simp add: frame_keeps keeps_bindM)

lemma frame_seqM [frame_intros]: "frame f m \<Longrightarrow> frame f n \<Longrightarrow> frame f (seqM m n)"
  by (simp add: frame_keeps keeps_seqM)

lemma frame_seqsM [frame_intros]: "(\<And>m. m \<in> set ms \<Longrightarrow> frame f m) \<Longrightarrow> frame f (seqsM ms)"
  by (simp add: frame_keeps keeps_seqsM)

lemma frame_whenM [frame_intros]: "(b \<Longrightarrow> frame f m) \<Longrightarrow> frame f (whenM b m)"
  by (simp add: frame_keeps keeps_whenM)

lemma frame_if [frame_intros]:
  "(b \<Longrightarrow> frame f m) \<Longrightarrow> (\<not> b \<Longrightarrow> frame f n) \<Longrightarrow> frame f (if b then m else n)"
  by simp

lemma frame_case_option [frame_intros]:
  "(x = None \<Longrightarrow> frame f m) \<Longrightarrow> (\<And>y. x = Some y \<Longrightarrow> frame f (g y)) \<Longrightarrow>
   frame f (case x of None \<Rightarrow> m | Some y \<Rightarrow> g y)"
  by (cases x) simp_all

lemma frame_case_prod [frame_intros]:
  "(\<And>a b. x = (a, b) \<Longrightarrow> frame f (g a b)) \<Longrightarrow> frame f (case x of (a, b) \<Rightarrow> g a b)"
  by (cases x) simp

lemma frame_zoomM: "(\<And>t s. f (put t s) = f s) \<Longrightarrow> frame f (zoomM get put m)"
  by (simp add: frame_def zoomM_apply split: prod.splits)

section \<open>Total-result rules\<close>

lemma tripleD:
  "triple P m Q E \<Longrightarrow> P s \<Longrightarrow> m s = (Inr x, s') \<Longrightarrow> Q x s'"
  by (force simp: triple_def)

lemma triple_faultD:
  "triple P m Q E \<Longrightarrow> P s \<Longrightarrow> m s = (Inl e, s') \<Longrightarrow> E e s'"
  by (force simp: triple_def)

lemma triple_weaken:
  "triple P m Q E \<Longrightarrow> (\<And>s. P' s \<Longrightarrow> P s) \<Longrightarrow> (\<And>x s. Q x s \<Longrightarrow> Q' x s) \<Longrightarrow>
   (\<And>e s. E e s \<Longrightarrow> E' e s) \<Longrightarrow> triple P' m Q' E'"
  by (fastforce simp: triple_def split: prod.splits sum.splits)

lemma triple_bindM:
  "triple P m R E \<Longrightarrow> (\<And>x. triple (R x) (f x) Q E) \<Longrightarrow> triple P (bindM m f) Q E"
  by (fastforce simp: triple_def bindM_apply split: prod.splits sum.splits)

lemma triple_seqM:
  "triple P m (\<lambda>_. R) E \<Longrightarrow> triple R n Q E \<Longrightarrow> triple P (seqM m n) Q E"
  unfolding seqM_def by (rule triple_bindM)

lemma triple_retM: "(\<And>s. P s \<Longrightarrow> Q x s) \<Longrightarrow> triple P (retM x) Q E"
  by (simp add: triple_def retM_apply)

lemma triple_failM: "(\<And>s. P s \<Longrightarrow> E e s) \<Longrightarrow> triple P (failM e) Q E"
  by (simp add: triple_def failM_apply)

lemma triple_getM: "(\<And>s. P s \<Longrightarrow> Q (f s) s) \<Longrightarrow> triple P (getM f) Q E"
  by (simp add: triple_def)

lemma triple_modM: "(\<And>s. P s \<Longrightarrow> Q () (f s)) \<Longrightarrow> triple P (modM f) Q E"
  by (simp add: triple_def)

section \<open>Lists\<close>

text \<open>
  A C array that is read through a pointer: the bytes from the pointer to the end of the
  object. Reading past the end is \<open>Bad_access\<close>.
\<close>

definition nth_act :: "'a list \<Rightarrow> nat \<Rightarrow> ('s, 'a) act" where
  "nth_act xs i = (if i < length xs then retM (xs ! i) else failM Bad_access)"

lemma nth_act_apply [act_simps]:
  "nth_act xs i s = (if i < length xs then (Inr (xs ! i), s) else (Inl Bad_access, s))"
  by (simp add: nth_act_def retM_apply failM_apply)

lemma keeps_nth_act [keeps_intros]: "keeps P (nth_act xs i)"
  by (simp add: nth_act_def keeps_intros)

lemma frame_nth_act [frame_intros]: "frame f (nth_act xs i)"
  by (simp add: nth_act_def frame_intros)

section \<open>Words\<close>

lemma unat_less_256: "unat (b :: u8) < 256"
proof -
  have "unat b < 2 ^ LENGTH(8)"
    by (rule unsigned_less)
  then show ?thesis
    by simp
qed

lemma word_and_15_less: "unat ((w :: 'a :: len word) AND 15) < 16"
proof -
  have "w AND 15 = take_bit 4 w"
    by (simp add: take_bit_eq_mask mask_eq_exp_minus_1 numeral_eq_Suc)
  then have "unat (w AND 15) = take_bit 4 (unat w)"
    by (simp add: unsigned_take_bit_eq)
  also have "\<dots> < 16"
    using take_bit_nat_less_exp [of 4 "unat w"] by simp
  finally show ?thesis .
qed

lemma word_of_nat_unat: "(word_of_nat (unat (w :: 'a :: len word)) :: 'b :: len word) = ucast w"
  by (rule bit_word_eqI) (simp add: bit_simps bit_of_nat_iff_bit)

lemma ucast_u8_u32 [simp]: "(ucast (ucast (b :: u8) :: u32) :: u8) = b"
  by (rule bit_word_eqI) (simp add: bit_simps)

lemma nibble_ucast [simp]:
  "(ucast (ucast ((w :: 'a :: len word) AND 15) :: u32) :: 'a word) = w AND 15"
proof -
  have m: "(15 :: 'a word) = mask 4"
    by (simp add: mask_eq_exp_minus_1)
  show ?thesis
    unfolding m by (rule bit_word_eqI) (auto simp: bit_simps dest: bit_imp_le_length)
qed

lemma take_bit_add_nibble:
  "push_bit k (drop_bit k (w :: 'a :: len word) AND 15) + take_bit k w = take_bit (k + 4) w"
proof -
  have m: "(15 :: 'a word) = mask 4"
    by (simp add: mask_eq_exp_minus_1)
  have "push_bit k (drop_bit k w AND mask 4) + take_bit k w =
      push_bit k (drop_bit k w AND mask 4) OR take_bit k w"
    by (rule disjunctive_add) (auto simp: bit_simps)
  also have "\<dots> = take_bit (k + 4) w"
    by (rule bit_word_eqI) (auto simp: bit_simps)
  finally show ?thesis
    unfolding m .
qed

lemma byte_nibbles_ucast:
  "push_bit 4 (ucast (drop_bit 4 (b :: u8) AND 15)) + ucast (b AND 15) = (ucast b :: u32)"
proof -
  have m: "(15 :: u8) = mask 4"
    by (simp add: mask_eq_exp_minus_1)
  have "push_bit 4 (ucast (drop_bit 4 b AND mask 4)) + ucast (b AND mask 4) =
      push_bit 4 (ucast (drop_bit 4 b AND mask 4)) OR (ucast (b AND mask 4) :: u32)"
    by (rule disjunctive_add) (auto simp: bit_simps)
  also have "\<dots> = ucast b"
  proof (rule bit_word_eqI)
    fix n
    assume "n < LENGTH(32)"
    have "bit b n \<Longrightarrow> n < 8"
      using bit_imp_le_length [of b n] by simp
    then show "bit (push_bit 4 (ucast (drop_bit 4 b AND mask 4)) OR (ucast (b AND mask 4) :: u32)) n =
        bit (ucast b :: u32) n"
      using \<open>n < LENGTH(32)\<close> by (cases "n < 4"; cases "n < 8") (auto simp: bit_simps)
  qed
  finally show ?thesis
    unfolding m .
qed

lemma byte_nibbles_or: "push_bit 4 (drop_bit 4 (b :: u8) AND 15) OR (b AND 15) = b"
proof -
  have m: "(15 :: u8) = mask 4"
    by (simp add: mask_eq_exp_minus_1)
  show ?thesis
    unfolding m by (rule bit_word_eqI) (auto simp: bit_simps)
qed

lemma byte_nibbles_or' [simp]: "push_bit 4 (drop_bit 4 (b :: u8)) AND 240 OR b AND 15 = b"
  using byte_nibbles_or [of b] by simp

lemma xor_eq_0_word [simp]: "(a :: 'a :: len word) XOR b = 0 \<longleftrightarrow> a = b"
proof
  assume h: "a XOR b = 0"
  have "a = (a XOR b) XOR b"
    by (simp add: xor.assoc)
  then show "a = b"
    using h by simp
qed simp

section \<open>Words in memory\<close>

text \<open>The bytes of an \<open>unsigned\<close> in memory, and the \<open>unsigned\<close> at four bytes.\<close>

definition le_bytes :: "u32 \<Rightarrow> u8 list" where
  "le_bytes w = map (\<lambda>i. ucast (drop_bit (8 * i) w)) [0, 1, 2, 3]"

definition le_word :: "u8 list \<Rightarrow> u32" where
  "le_word bs = ucast (bs ! 0) OR push_bit 8 (ucast (bs ! 1)) OR push_bit 16 (ucast (bs ! 2)) OR
     push_bit 24 (ucast (bs ! 3))"

fun le_words :: "u8 list \<Rightarrow> u32 list" where
  "le_words (a # b # c # d # bs) = le_word [a, b, c, d] # le_words bs"
| "le_words _ = []"

lemma length_le_bytes [simp]: "length (le_bytes w) = 4"
  by (simp add: le_bytes_def)

lemma le_word_bytes: "le_word (le_bytes w) = w"
proof (rule bit_word_eqI)
  fix n
  assume n: "n < LENGTH(32)"
  consider "n < 8" | "8 \<le> n" "n < 16" | "16 \<le> n" "n < 24" | "24 \<le> n"
    by linarith
  then show "bit (le_word (le_bytes w)) n \<longleftrightarrow> bit w n"
    using n by cases (auto simp: le_word_def le_bytes_def bit_simps)
qed

lemma le_bytes_four: "\<exists>a b c d. le_bytes w = [a, b, c, d]"
  by (simp add: le_bytes_def)

lemma le_words_concat: "le_words (concat (map le_bytes ws)) = ws"
proof (induction ws)
  case (Cons w ws)
  obtain a b c d where w: "le_bytes w = [a, b, c, d]"
    using le_bytes_four by blast
  then show ?case
    using Cons le_word_bytes [of w] by simp
qed simp

end
