(* ===== verification/Safety.thy ===== *)
theory Safety
  imports Prelude
begin

text \<open>
  Operations that never run into a false assertion or an access outside an object: the
  judgement \<open>safe P m R\<close> and its rules. It is used for the proxy with a target behind it, for
  the target layer over an adapter, and for the parser of the configuration file.
\<close>

section \<open>Safe operations\<close>

definition calm_fault :: "fault \<Rightarrow> bool" where
  "calm_fault e \<longleftrightarrow> e \<noteq> Assert_fail \<and> e \<noteq> Bad_access"

lemma calm_faults [simp]:
  "calm_fault (Exit n s)" "calm_fault Blocked" "calm_fault Out_of_fuel"
  "\<not> calm_fault Assert_fail" "\<not> calm_fault Bad_access"
  by (simp_all add: calm_fault_def)

definition safe :: "('s \<Rightarrow> bool) \<Rightarrow> ('s, 'a) act \<Rightarrow> ('a \<Rightarrow> bool) \<Rightarrow> bool" where
  "safe P m R \<longleftrightarrow> (\<forall>s. P s \<longrightarrow> P (snd (m s)) \<and>
     (case fst (m s) of Inl e \<Rightarrow> calm_fault e | Inr x \<Rightarrow> R x))"

named_theorems safe_intros "rules that show that an operation is safe"

lemma safeI:
  assumes "\<And>s r s'. P s \<Longrightarrow> m s = (r, s') \<Longrightarrow> P s' \<and> (case r of Inl e \<Rightarrow> calm_fault e | Inr x \<Rightarrow> R x)"
  shows "safe P m R"
  using assms unfolding safe_def by (metis prod.collapse)

lemma safeD:
  assumes "safe P m R" and "P s" and "m s = (r, s')"
  shows "P s'" and "r = Inr x \<Longrightarrow> R x" and "r = Inl e \<Longrightarrow> calm_fault e"
  using assms unfolding safe_def by (fastforce split: sum.splits)+

lemma safe_mono: "safe P m R \<Longrightarrow> (\<And>x. R x \<Longrightarrow> R' x) \<Longrightarrow> safe P m R'"
  unfolding safe_def by (auto split: sum.splits)

lemma safe_any: "safe P m R \<Longrightarrow> safe P m (\<lambda>_. True)"
  by (erule safe_mono) simp

lemma safe_retM [safe_intros]: "R x \<Longrightarrow> safe P (retM x) R"
  by (simp add: safe_def retM_apply)

lemma safe_failM [safe_intros]: "calm_fault e \<Longrightarrow> safe P (failM e) R"
  by (simp add: safe_def failM_apply)

lemma safe_getM: "(\<And>s. P s \<Longrightarrow> R (f s)) \<Longrightarrow> safe P (getM f) R"
  by (simp add: safe_def)

lemma safe_modM [safe_intros]: "(\<And>s. P s \<Longrightarrow> P (g s)) \<Longrightarrow> R () \<Longrightarrow> safe P (modM g) R"
  by (simp add: safe_def)

lemma safe_assertM [safe_intros]: "b \<Longrightarrow> R () \<Longrightarrow> safe P (assertM b) R"
  by (simp add: safe_def assertM_apply)

lemma safe_liftM: "(\<And>e. r = Inl e \<Longrightarrow> calm_fault e) \<Longrightarrow> (\<And>x. r = Inr x \<Longrightarrow> R x) \<Longrightarrow> safe P (liftM r) R"
  by (simp add: safe_def liftM_apply split: sum.splits)

lemma safe_bindM:
  assumes m: "safe P m R" and f: "\<And>x. R x \<Longrightarrow> safe P (f x) Q"
  shows "safe P (bindM m f) Q"
proof (rule safeI)
  fix s r s'
  assume s: "P s" and r: "bindM m f s = (r, s')"
  obtain r1 s1 where 1: "m s = (r1, s1)"
    by fastforce
  show "P s' \<and> (case r of Inl e \<Rightarrow> calm_fault e | Inr x \<Rightarrow> Q x)"
  proof (cases r1)
    case (Inl e)
    then show ?thesis
      using r 1 safeD [OF m s 1] by (auto simp: bindM_apply)
  next
    case (Inr x)
    have x: "safe P (f x) Q" "P s1"
      using safeD [OF m s 1] Inr f by auto
    have "f x s1 = (r, s')"
      using r 1 Inr by (simp add: bindM_apply)
    then show ?thesis
      using safeD [OF x] by (auto split: sum.splits)
  qed
qed

lemma safe_seqM [safe_intros]: "safe P m (\<lambda>_. True) \<Longrightarrow> safe P n Q \<Longrightarrow> safe P (seqM m n) Q"
  unfolding seqM_def by (rule safe_bindM)

lemma safe_seqsM: "(\<And>m. m \<in> set ms \<Longrightarrow> safe P m (\<lambda>_. True)) \<Longrightarrow> safe P (seqsM ms) (\<lambda>_. True)"
  by (induction ms) (simp_all add: safe_intros)

lemma safe_bind_any [safe_intros]:
  "safe P m (\<lambda>_. True) \<Longrightarrow> (\<And>x. safe P (f x) Q) \<Longrightarrow> safe P (bindM m f) Q"
  by (rule safe_bindM)

lemma safe_bind_get [safe_intros]:
  "(\<And>s. P s \<Longrightarrow> safe P (f (g s)) Q) \<Longrightarrow> safe P (bindM (getM g) f) Q"
  unfolding safe_def by (simp add: bindM_apply)

lemma safe_get_any [safe_intros]: "safe P (getM f) (\<lambda>_. True)"
  by (rule safe_getM) simp

lemma safe_whenM [safe_intros]: "(b \<Longrightarrow> safe P m R) \<Longrightarrow> R () \<Longrightarrow> safe P (whenM b m) R"
  by (simp add: whenM_def safe_retM)

lemma safe_if [safe_intros]:
  "(b \<Longrightarrow> safe P m R) \<Longrightarrow> (\<not> b \<Longrightarrow> safe P n R) \<Longrightarrow> safe P (if b then m else n) R"
  by simp

lemma safe_case_option [safe_intros]:
  "(x = None \<Longrightarrow> safe P m R) \<Longrightarrow> (\<And>y. x = Some y \<Longrightarrow> safe P (f y) R) \<Longrightarrow>
   safe P (case x of None \<Rightarrow> m | Some y \<Rightarrow> f y) R"
  by (cases x) simp_all

lemma safe_case_prod [safe_intros]:
  "(\<And>a b. x = (a, b) \<Longrightarrow> safe P (f a b) R) \<Longrightarrow> safe P (case x of (a, b) \<Rightarrow> f a b) R"
  by (cases x) simp

lemma safe_zoomM:
  assumes "safe Q m R" and "\<And>s. P s \<Longrightarrow> Q (get s)" and "\<And>s u. P s \<Longrightarrow> Q u \<Longrightarrow> P (put u s)"
  shows "safe P (zoomM get put m) R"
  using assms unfolding safe_def zoomM_def by (auto split: prod.splits sum.splits) (metis fst_conv snd_conv)+

lemma safe_inv:
  assumes "\<And>s. P s \<Longrightarrow> safe P m R" shows "safe P m R"
  using assms by (simp add: safe_def)

section \<open>Results\<close>

text \<open>The same for the result of a function that has no state.\<close>

definition returns :: "('a \<Rightarrow> bool) \<Rightarrow> (fault \<Rightarrow> bool) \<Rightarrow> fault + 'a \<Rightarrow> bool" where
  "returns Q E r \<longleftrightarrow> (case r of Inl f \<Rightarrow> E f | Inr x \<Rightarrow> Q x)"

named_theorems returns_intros "rules for the results of functions without state"

lemma returns_simps [simp]: "returns Q E (Inl f) = E f" "returns Q E (Inr x) = Q x"
  by (simp_all add: returns_def)

lemma returnsD: "returns Q E r \<Longrightarrow> r = Inr x \<Longrightarrow> Q x" "returns Q E r \<Longrightarrow> r = Inl f \<Longrightarrow> E f"
  by simp_all

lemma returns_mono: "returns Q E r \<Longrightarrow> (\<And>x. Q x \<Longrightarrow> Q' x) \<Longrightarrow> returns Q' E r"
  by (cases r) auto

lemma returns_any [returns_intros]: "returns (\<lambda>_. True) (\<lambda>_. True) r"
  by (cases r) auto

lemma returns_Inr [returns_intros]: "Q x \<Longrightarrow> returns Q E (Inr x)"
  by simp

lemma returns_Inl [returns_intros]: "E f \<Longrightarrow> returns Q E (Inl f)"
  by simp

lemma returns_bind:
  assumes "returns R E r" and "\<And>x. r = Inr x \<Longrightarrow> R x \<Longrightarrow> returns Q E (g x)"
  shows "returns Q E (case r of Inl f \<Rightarrow> Inl f | Inr x \<Rightarrow> g x)"
  using assms by (cases r) auto

lemma returns_if [returns_intros]:
  "(b \<Longrightarrow> returns Q E m) \<Longrightarrow> (\<not> b \<Longrightarrow> returns Q E n) \<Longrightarrow> returns Q E (if b then m else n)"
  by simp

lemma returns_option [returns_intros]:
  "(x = None \<Longrightarrow> returns Q E m) \<Longrightarrow> (\<And>y. x = Some y \<Longrightarrow> returns Q E (f y)) \<Longrightarrow>
   returns Q E (case x of None \<Rightarrow> m | Some y \<Rightarrow> f y)"
  by (cases x) simp_all

lemma returns_prod [returns_intros]:
  "(\<And>a b. x = (a, b) \<Longrightarrow> returns Q E (f a b)) \<Longrightarrow> returns Q E (case x of (a, b) \<Rightarrow> f a b)"
  by (cases x) simp

lemma returns_Let [returns_intros]: "returns Q E (f x) \<Longrightarrow> returns Q E (let y = x in f y)"
  by simp

end
