(* ===== verification/Clib.thy ===== *)
theory Clib
  imports Prelude
begin

text \<open>
  What mcprog.c and conf.c use of the C library: character classes in the C locale, comparison
  without case, the conversions of \<open>strtoul\<close> and \<open>sscanf\<close> that occur, and reads of a file with
  \<open>getc\<close> and \<open>fgets\<close>. Also arrays of characters in which a cell may not have been written yet;
  an access outside or a read of such a cell is \<open>Bad_access\<close>.
\<close>

section \<open>Characters\<close>

definition isspace :: "char \<Rightarrow> bool" where
  "isspace c \<longleftrightarrow> c \<in> {CHR '' '', CHR 0x09, CHR 0x0A, CHR 0x0B, CHR 0x0C, CHR 0x0D}"

definition newline :: char where
  "newline = CHR 0x0A"

lemma newline_simps [simp]:
  "isspace newline" "newline \<noteq> CHR 0x00" "newline \<noteq> CHR '' ''" "newline \<noteq> CHR 0x0D"
  "newline \<noteq> CHR '']''" "newline \<noteq> CHR ''=''" "newline \<noteq> CHR ''[''" "newline \<noteq> CHR 0x5C"
  "newline \<noteq> CHR '';''" "newline \<noteq> CHR ''#''" "newline \<noteq> CHR ''S''" "newline \<noteq> CHR ''3''"
  "newline \<noteq> CHR '':''" "newline \<noteq> CHR ''0''" "newline \<noteq> CHR ''4''" "newline \<noteq> CHR ''1''"
  by (simp_all add: newline_def isspace_def)

lemmas newline_sym [simp] = newline_simps(2-) [symmetric]

lemma isspace_simps [simp]:
  "isspace CHR '' ''" "\<not> isspace CHR 0x00" "\<not> isspace CHR 0x5C" "\<not> isspace CHR ''=''"
  "\<not> isspace CHR ''[''" "\<not> isspace CHR '']''"
  by (simp_all add: isspace_def)

definition code :: "char \<Rightarrow> nat" where
  "code c = of_char c"

definition isdigit :: "char \<Rightarrow> bool" where
  "isdigit c \<longleftrightarrow> 48 \<le> code c \<and> code c \<le> 57"

definition isxdigit :: "char \<Rightarrow> bool" where
  "isxdigit c \<longleftrightarrow> isdigit c \<or> (65 \<le> code c \<and> code c \<le> 70) \<or> (97 \<le> code c \<and> code c \<le> 102)"

definition tolower :: "char \<Rightarrow> nat" where
  "tolower c = (if 65 \<le> code c \<and> code c \<le> 90 then code c + 32 else code c)"

text \<open>\<open>strcasecmp (a, b) == 0\<close>, and \<open>strncasecmp (a, b, n) == 0\<close>.\<close>

definition strcaseeq :: "string \<Rightarrow> string \<Rightarrow> bool" where
  "strcaseeq a b \<longleftrightarrow> map tolower a = map tolower b"

definition strncaseeq :: "string \<Rightarrow> string \<Rightarrow> nat \<Rightarrow> bool" where
  "strncaseeq a b n \<longleftrightarrow> map tolower (take n a) = map tolower (take n b)"

section \<open>Numbers\<close>

text \<open>The value of a digit in the bases up to 36, as \<open>strtoul\<close> reads it.\<close>

definition digit_value :: "char \<Rightarrow> nat" where
  "digit_value c = (if isdigit c then code c - 48
     else if 97 \<le> tolower c \<and> tolower c \<le> 122 then tolower c - 87 else 36)"

fun digits :: "nat \<Rightarrow> nat \<Rightarrow> string \<Rightarrow> nat \<times> string" where
  "digits base acc [] = (acc, [])"
| "digits base acc (c # cs) =
     (if digit_value c < base then digits base (acc * base + digit_value c) cs else (acc, c # cs))"

text \<open>
  The sign, the prefix that selects the base (0 stands for the choice by the prefix) and the
  digits; \<open>None\<close> without any digit.
\<close>

definition hex_prefix :: "string \<Rightarrow> bool" where
  "hex_prefix s \<longleftrightarrow> (case s of z # x # d # _ \<Rightarrow> z = CHR ''0'' \<and> tolower x = 120 \<and> isxdigit d | _ \<Rightarrow> False)"

definition unsigned_number :: "nat \<Rightarrow> string \<Rightarrow> (nat \<times> string) option" where
  "unsigned_number base s =
     (if (base = 0 \<or> base = 16) \<and> hex_prefix s then Some (digits 16 0 (drop 2 s))
      else let b = (if base \<noteq> 0 then base else if take 1 s = ''0'' then 8 else 10) in
        if s \<noteq> [] \<and> digit_value (hd s) < b then Some (digits b 0 s) else None)"

definition number :: "nat \<Rightarrow> string \<Rightarrow> (bool \<times> nat \<times> string) option" where
  "number base s = (let t = dropWhile isspace s;
       neg = (take 1 t = ''-'');
       u = (if neg \<or> take 1 t = ''+'' then tl t else t) in
     map_option (\<lambda>(v, rest). (neg, v, rest)) (unsigned_number base u))"

text \<open>
  \<open>strtoul (s, 0, 0)\<close>, an \<open>unsigned long\<close> of 64 bits that the code assigns to an
  \<open>unsigned\<close>; a value out of range gives \<open>ULONG_MAX\<close>.
\<close>

definition strtoul :: "string \<Rightarrow> u32" where
  "strtoul s = (case number 0 s of
     None \<Rightarrow> 0
   | Some (neg, v, _) \<Rightarrow>
       if v \<ge> 2 ^ 64 then ucast (- 1 :: u64)
       else ucast (if neg then - (of_nat v :: u64) else of_nat v))"

text \<open>
  \<open>sscanf\<close> with \<open>%x\<close> and with \<open>%i-%i\<close>, on numbers that the type can hold. A prefix \<open>0x\<close>
  with no digit behind it is no number for \<open>sscanf\<close>.
\<close>

definition bare_prefix :: "string \<Rightarrow> bool" where
  "bare_prefix s \<longleftrightarrow> (case s of z # x # _ \<Rightarrow> z = CHR ''0'' \<and> tolower x = 120 | _ \<Rightarrow> False) \<and> \<not> hex_prefix s"

definition scan_number :: "nat \<Rightarrow> string \<Rightarrow> (u32 \<times> string) option" where
  "scan_number base s = (let t = dropWhile isspace s in
     if bare_prefix (if take 1 t = ''-'' \<or> take 1 t = ''+'' then tl t else t) then None
     else map_option (\<lambda>(neg, v, rest). (if neg then - of_nat v else of_nat v, rest)) (number base s))"

definition scan_x :: "string \<Rightarrow> u32 option" where
  "scan_x s = map_option fst (scan_number 16 s)"

definition scan_range :: "string \<Rightarrow> (u32 \<times> u32) option" where
  "scan_range s = (case scan_number 0 s of
     Some (v1, CHR ''-'' # rest) \<Rightarrow> map_option (\<lambda>(v2, _). (v1, v2)) (scan_number 0 rest)
   | _ \<Rightarrow> None)"

section \<open>Files\<close>

text \<open>\<open>getc\<close>: \<open>None\<close> is \<open>EOF\<close>.\<close>

fun getc :: "string \<Rightarrow> char option \<times> string" where
  "getc [] = (None, [])"
| "getc (c # cs) = (Some c, cs)"

text \<open>What \<open>fgets (buf, n + 1, fd)\<close> takes from the file: at most \<open>n\<close> characters, to the end of a line.\<close>

fun fgets :: "nat \<Rightarrow> string \<Rightarrow> string \<times> string" where
  "fgets (Suc n) (c # cs) = (if c = newline then ([c], cs)
     else (case fgets n cs of (line, rest) \<Rightarrow> (c # line, rest)))"
| "fgets n cs = ([], cs)"

lemma fgets_append: "fst (fgets n s) @ snd (fgets n s) = s"
  by (induction n s rule: fgets.induct) (auto split: prod.splits)

lemma fgets_length: "length (fst (fgets n s)) \<le> n"
  by (induction n s rule: fgets.induct) (auto split: prod.splits)

lemma fgets_empty: "fst (fgets n s) = [] \<longleftrightarrow> n = 0 \<or> s = []"
  by (cases "(n, s)" rule: fgets.cases) (auto split: prod.splits)

lemma fgets_shorter: "fgets n s = (line, rest) \<Longrightarrow> line \<noteq> [] \<Longrightarrow> length rest < length s"
  using arg_cong [OF fgets_append, of length n s] by (cases line) auto

lemma fgets_line:
  "newline \<notin> set l \<Longrightarrow> length l < n \<Longrightarrow> fgets n (l @ newline # rest) = (l @ [newline], rest)"
proof (induction l arbitrary: n)
  case Nil
  then show ?case
    by (cases n) auto
next
  case (Cons c l)
  then show ?case
    by (cases n) auto
qed

section \<open>Arrays of characters\<close>

type_synonym chars = "char option list"

definition put_char :: "chars \<Rightarrow> nat \<Rightarrow> char \<Rightarrow> fault + chars" where
  "put_char b i c = (if i < length b then Inr (b[i := Some c]) else Inl Bad_access)"

definition get_char :: "chars \<Rightarrow> nat \<Rightarrow> fault + char" where
  "get_char b i = (if i < length b then (case b ! i of None \<Rightarrow> Inl Bad_access | Some c \<Rightarrow> Inr c)
     else Inl Bad_access)"

text \<open>The string that starts at a place of the array.\<close>

fun string_in :: "chars \<Rightarrow> fault + string" where
  "string_in (Some c # b) = (if c = CHR 0x00 then Inr []
     else (case string_in b of Inl e \<Rightarrow> Inl e | Inr s \<Rightarrow> Inr (c # s)))"
| "string_in _ = Inl Bad_access"

definition string_at :: "chars \<Rightarrow> nat \<Rightarrow> fault + string" where
  "string_at b i = string_in (drop i b)"

text \<open>The cells from a place on hold a text.\<close>

definition holds :: "chars \<Rightarrow> nat \<Rightarrow> string \<Rightarrow> bool" where
  "holds b i s \<longleftrightarrow> take (length s) (drop i b) = map Some s"

lemma string_in_text:
  "CHR 0x00 \<notin> set s \<Longrightarrow> string_in (map Some s @ Some (CHR 0x00) # rest) = Inr s"
  by (induction s) auto

lemma holds_split: "holds b i s \<Longrightarrow> \<exists>rest. drop i b = map Some s @ rest"
  unfolding holds_def by (metis append_take_drop_id)

lemma string_at_holds:
  assumes "holds b i (s @ [CHR 0x00])" and "CHR 0x00 \<notin> set s"
  shows "string_at b i = Inr s"
  using holds_split [OF assms(1)] string_in_text [OF assms(2)] by (auto simp: string_at_def)

lemma holds_get: "holds b i s \<Longrightarrow> j < length s \<Longrightarrow> get_char b (i + j) = Inr (s ! j)"
proof -
  assume h: "holds b i s" and j: "j < length s"
  obtain rest where r: "drop i b = map Some s @ rest"
    using holds_split [OF h] by auto
  have "i + j < length b"
    using arg_cong [OF r, of length] j by simp
  moreover have "b ! (i + j) = Some (s ! j)"
    using arg_cong [OF r, of "\<lambda>l. l ! j"] j calculation by (simp add: nth_append)
  ultimately show ?thesis
    by (simp add: get_char_def)
qed

lemma holds_put:
  assumes "holds b i s" and "i + length s < length b"
  shows "put_char b (i + length s) c = Inr (b[i + length s := Some c])"
    and "holds (b[i + length s := Some c]) i (s @ [c])"
proof -
  show "put_char b (i + length s) c = Inr (b[i + length s := Some c])"
    using assms(2) by (simp add: put_char_def)
  show "holds (b[i + length s := Some c]) i (s @ [c])"
    using assms unfolding holds_def
    by (auto simp: list_eq_iff_nth_eq nth_append less_Suc_eq)
qed

end
