(* ===== verification/Conf.thy ===== *)
theory Conf
  imports Clib Safety
begin

text \<open>
  conf.c, the parser of the configuration file. The static buffer \<open>bufr\<close> is an array of
  characters of \<open>bsize\<close> cells that grows by 1024; its old contents stay when a new line is
  parsed. The rest of the file is the list of its characters. Error messages are left out,
  apart from the reason of an \<open>exit\<close>.
\<close>

section \<open>Comments, white space, continuation lines\<close>

fun eat_comment :: "string \<Rightarrow> char option \<times> string" where
  "eat_comment [] = (None, [])"
| "eat_comment (c # cs) = (if c = CHR 0x00 \<or> c = newline then (Some c, cs) else eat_comment cs)"

fun eat_whitespace :: "string \<Rightarrow> char option \<times> string" where
  "eat_whitespace [] = (None, [])"
| "eat_whitespace (c # cs) = (if isspace c \<and> c \<noteq> newline then eat_whitespace cs else (Some c, cs))"

fun find_continuation :: "chars \<Rightarrow> nat \<Rightarrow> fault + nat option" where
  "find_continuation b 0 = Inr None"
| "find_continuation b (Suc p) = (case get_char b p of
     Inl e \<Rightarrow> Inl e
   | Inr c \<Rightarrow> if isspace c then find_continuation b p
              else Inr (if c = CHR 0x5C then Some p else None))"

definition grow :: "chars \<Rightarrow> nat \<Rightarrow> chars" where
  "grow b i = (if int i > int (length b) - 2 then b @ replicate 1024 None else b)"

text \<open>\<open>end = ((i > 0) && (bufr[i-1] == ' ')) ? (i-1) : (i)\<close>.\<close>

definition trim_space :: "chars \<Rightarrow> nat \<Rightarrow> fault + nat" where
  "trim_space b i = (if i = 0 then Inr i
     else case get_char b (i - 1) of Inl e \<Rightarrow> Inl e | Inr c \<Rightarrow> Inr (if c = CHR '' '' then i - 1 else i))"

lemma getc_length: "getc s = (c, s') \<Longrightarrow> length s' \<le> length s \<and> (c \<noteq> None \<longrightarrow> length s' < length s)"
  by (cases s) auto

lemma eat_comment_length:
  "eat_comment s = (c, s') \<Longrightarrow> length s' \<le> length s \<and> (c \<noteq> None \<longrightarrow> length s' < length s)"
  by (induction s arbitrary: c s') (auto split: if_splits simp: less_Suc_eq_le intro: le_SucI less_SucI)

lemma eat_whitespace_length:
  "eat_whitespace s = (c, s') \<Longrightarrow> length s' \<le> length s \<and> (c \<noteq> None \<longrightarrow> length s' < length s)"
  by (induction s arbitrary: c s') (auto split: if_splits simp: less_Suc_eq_le intro: le_SucI less_SucI)

lemmas reads_length = getc_length eat_comment_length eat_whitespace_length

text \<open>The characters a loop has before it: the current one and the rest of the file.\<close>

definition ahead :: "char option \<Rightarrow> string \<Rightarrow> nat" where
  "ahead c cs = 2 * length cs + (if c = None then 0 else 1)"

text \<open>After the end of a line, or of the comment at its end.\<close>

definition after_line :: "char \<Rightarrow> string \<Rightarrow> string" where
  "after_line ch cs = (if ch = newline then cs else snd (eat_comment cs))"

lemma after_line_length: "length (after_line ch cs) \<le> length cs"
  using eat_comment_length [of cs "fst (eat_comment cs)" "snd (eat_comment cs)"]
  by (simp add: after_line_def)

lemma ahead_getc: "length cs' \<le> length cs \<Longrightarrow> (case getc cs' of (x, y) \<Rightarrow> ahead x y) < ahead (Some c) cs"
  by (cases cs') (auto simp: ahead_def)

lemma ahead_white: "(case eat_whitespace cs of (x, y) \<Rightarrow> ahead x y) < ahead (Some c) cs"
  using eat_whitespace_length [of cs] by (force simp: ahead_def split: prod.splits)

lemmas ahead_less = ahead_getc [OF order_refl] ahead_getc [OF after_line_length] ahead_white

section \<open>A parameter line\<close>

text \<open>
  The name: the loop until the \<open>=\<close>. \<open>i\<close> is the place of the next character and \<open>e\<close> the end of
  the text without trailing space. A line without \<open>=\<close> is ignored.
\<close>

datatype name_end = Value_at chars nat string | Ignored chars string

function name_loop :: "chars \<Rightarrow> nat \<Rightarrow> nat \<Rightarrow> char option \<Rightarrow> string \<Rightarrow> fault + name_end" where
  "name_loop b0 i e c cs = (let b = grow b0 i in
     case c of
       None \<Rightarrow> Inl (Exit (- 1) ''unexpected end-of-file'')
     | Some ch \<Rightarrow>
       if ch = CHR ''='' then
         (if e = 0 then Inl (Exit (- 1) ''invalid parameter name'')
          else case put_char b e (CHR 0x00) of
            Inl f \<Rightarrow> Inl f
          | Inr b' \<Rightarrow> (case put_char b' (e + 1) (CHR 0x00) of
              Inl f \<Rightarrow> Inl f
            | Inr b'' \<Rightarrow> Inr (Value_at b'' (e + 1) cs)))
       else if ch \<in> {CHR '';'', CHR ''#'', newline} then
         (case find_continuation b i of
            Inl f \<Rightarrow> Inl f
          | Inr None \<Rightarrow> (case put_char b e (CHR 0x00) of
                Inl f \<Rightarrow> Inl f
              | Inr b' \<Rightarrow> Inr (Ignored b' (after_line ch cs)))
          | Inr (Some p) \<Rightarrow> (case trim_space b p of
                Inl f \<Rightarrow> Inl f
              | Inr e' \<Rightarrow> name_loop b p e' (fst (getc (after_line ch cs)))
                  (snd (getc (after_line ch cs)))))
       else if ch = CHR 0x00 then Inl (Exit (- 1) ''unexpected end-of-file'')
       else if isspace ch then
         (case put_char b e (CHR '' '') of
            Inl f \<Rightarrow> Inl f
          | Inr b' \<Rightarrow> name_loop b' (e + 1) e (fst (eat_whitespace cs)) (snd (eat_whitespace cs)))
       else
         (case put_char b i ch of
            Inl f \<Rightarrow> Inl f
          | Inr b' \<Rightarrow> name_loop b' (i + 1) (i + 1) (fst (getc cs)) (snd (getc cs))))"
  by pat_completeness auto
termination
  by (relation "measure (\<lambda>(b, i, e, c, cs). ahead c cs)")
    (simp_all add: ahead_less)

text \<open>The value: the loop over the rest of the line; it leaves the end of the value.\<close>

function value_loop :: "chars \<Rightarrow> nat \<Rightarrow> nat \<Rightarrow> char option \<Rightarrow> string \<Rightarrow> fault + (chars \<times> nat \<times> string)" where
  "value_loop b0 i e c cs = (case c of
     None \<Rightarrow> Inr (b0, e, cs)
   | Some ch \<Rightarrow> if ch = CHR 0x00 then Inr (b0, e, cs) else
     (let b = grow b0 i in
      if ch = CHR 0x0D then value_loop b i e (fst (getc cs)) (snd (getc cs))
      else if ch \<in> {CHR '';'', CHR ''#'', newline} then
        (case find_continuation b i of
           Inl f \<Rightarrow> Inl f
         | Inr None \<Rightarrow> Inr (b, e, after_line ch cs)
         | Inr (Some p) \<Rightarrow> value_loop b p p (fst (getc (after_line ch cs)))
             (snd (getc (after_line ch cs))))
      else
        (case put_char b i ch of
           Inl f \<Rightarrow> Inl f
         | Inr b' \<Rightarrow> value_loop b' (i + 1) (if isspace ch then e else i + 1) (fst (getc cs)) (snd (getc cs)))))"
  by pat_completeness auto
termination
  by (relation "measure (\<lambda>(b, i, e, c, cs). ahead c cs)")
    (simp_all add: ahead_less)

text \<open>After the \<open>=\<close>: the name, the value, the buffer and the rest of the file.\<close>

definition parse_value :: "chars \<Rightarrow> nat \<Rightarrow> string \<Rightarrow> fault + ((string \<times> string) option \<times> chars \<times> string)" where
  "parse_value b v cs = (case eat_whitespace cs of (c1, cs1) \<Rightarrow>
     case value_loop b v v c1 cs1 of
       Inl f \<Rightarrow> Inl f
     | Inr (b2, e, cs2) \<Rightarrow> (case put_char b2 e (CHR 0x00) of
         Inl f \<Rightarrow> Inl f
       | Inr b3 \<Rightarrow> (case string_at b3 0 of
           Inl f \<Rightarrow> Inl f
         | Inr name \<Rightarrow> (case string_at b3 v of
             Inl f \<Rightarrow> Inl f
           | Inr val \<Rightarrow> Inr (Some (name, val), b3, cs2)))))"

text \<open>A whole parameter, with nothing for an ignored line.\<close>

definition parse_parameter :: "chars \<Rightarrow> char \<Rightarrow> string \<Rightarrow> fault + ((string \<times> string) option \<times> chars \<times> string)" where
  "parse_parameter b c cs = (case name_loop b 0 0 (Some c) cs of
     Inl f \<Rightarrow> Inl f
   | Inr r \<Rightarrow> (case r of
       Ignored b' cs' \<Rightarrow> Inr (None, b', cs')
     | Value_at b' v cs' \<Rightarrow> parse_value b' v cs'))"

section \<open>A section header\<close>

function section_loop ::
  "chars \<Rightarrow> nat \<Rightarrow> nat \<Rightarrow> char option \<Rightarrow> string \<Rightarrow> fault + (string option \<times> chars \<times> string)" where
  "section_loop b0 i e c cs = (case c of
     None \<Rightarrow> Inr (None, b0, cs)
   | Some ch \<Rightarrow> if ch = CHR 0x00 then Inr (None, b0, cs) else
     (let b = grow b0 i in
      if ch = CHR '']'' then
        (case put_char b e (CHR 0x00) of
           Inl f \<Rightarrow> Inl f
         | Inr b' \<Rightarrow> if e = 0 then Inl (Exit (- 1) ''empty section name'')
             else (case string_at b' 0 of
               Inl f \<Rightarrow> Inl f
             | Inr s \<Rightarrow> Inr (Some s, b', snd (eat_comment cs))))
      else if ch = newline then
        (case find_continuation b i of
           Inl f \<Rightarrow> Inl f
         | Inr None \<Rightarrow> (case put_char b e (CHR 0x00) of
               Inl f \<Rightarrow> Inl f
             | Inr _ \<Rightarrow> Inl (Exit (- 1) ''invalid line''))
         | Inr (Some p) \<Rightarrow> (case trim_space b p of
               Inl f \<Rightarrow> Inl f
             | Inr e' \<Rightarrow> section_loop b p e' (fst (getc cs)) (snd (getc cs))))
      else if isspace ch then
        (case put_char b e (CHR '' '') of
           Inl f \<Rightarrow> Inl f
         | Inr b' \<Rightarrow> section_loop b' (e + 1) e (fst (eat_whitespace cs)) (snd (eat_whitespace cs)))
      else
        (case put_char b i ch of
           Inl f \<Rightarrow> Inl f
         | Inr b' \<Rightarrow> section_loop b' (i + 1) (i + 1) (fst (getc cs)) (snd (getc cs)))))"
  by pat_completeness auto
termination
  by (relation "measure (\<lambda>(b, i, e, c, cs). ahead c cs)")
    (simp_all add: ahead_less)

definition parse_section :: "chars \<Rightarrow> string \<Rightarrow> fault + (string option \<times> chars \<times> string)" where
  "parse_section b cs = (case eat_whitespace cs of (c, cs') \<Rightarrow> section_loop b 0 0 c cs')"

section \<open>The file\<close>

lemma read_shorter [simp]:
  "length (snd (getc cs)) \<le> length cs" "length (snd (eat_comment cs)) \<le> length cs"
  "length (snd (eat_whitespace cs)) \<le> length cs" "length (snd (getc (after_line ch cs))) \<le> length cs"
  using reads_length [OF prod.collapse [symmetric], of cs] after_line_length [of ch cs]
    getc_length [OF prod.collapse [symmetric], of "after_line ch cs"] by auto

lemmas [simp] = after_line_length

fun name_rest :: "name_end \<Rightarrow> string" where
  "name_rest (Value_at b v cs) = cs"
| "name_rest (Ignored b cs) = cs"

declare name_loop.simps [simp del] value_loop.simps [simp del] section_loop.simps [simp del]

lemma ahead_read [simp]:
  "ahead (fst (getc cs)) (snd (getc cs)) < ahead (Some ch) cs"
  "ahead (fst (eat_whitespace cs)) (snd (eat_whitespace cs)) < ahead (Some ch) cs"
  "ahead (fst (getc (after_line c cs))) (snd (getc (after_line c cs))) < ahead (Some ch) cs"
  using ahead_less by (simp_all add: case_prod_beta)

lemma loops_rest:
  "returns (\<lambda>r. length (name_rest r) \<le> length cs) (\<lambda>_. True) (name_loop b i e c cs)"
  "returns (\<lambda>(b', e', cs'). length cs' \<le> length cs) (\<lambda>_. True) (value_loop b i e c cs)"
  "returns (\<lambda>(s, b', cs'). length cs' \<le> length cs) (\<lambda>_. True) (section_loop b i e c cs)"
proof (induction "ahead c cs" arbitrary: b i e c cs rule: less_induct)
  case less
  {
    case 1
    have IH: "returns (\<lambda>r. length (name_rest r) \<le> length cs) (\<lambda>_. True) (name_loop b' i' e' c' cs')"
      if "ahead c' cs' < ahead c cs" and "length cs' \<le> length cs" for b' i' e' c' cs'
      using returns_mono [OF less(1) [OF that(1)]] that(2) by (meson order_trans)
    show ?case
      by (subst name_loop.simps) (intro returns_intros returns_bind [OF returns_any] IH; simp)
  next
    case 2
    have IH: "returns (\<lambda>(b', e', cs'). length cs' \<le> length cs) (\<lambda>_. True) (value_loop b' i' e' c' cs')"
      if "ahead c' cs' < ahead c cs" and "length cs' \<le> length cs" for b' i' e' c' cs'
      using returns_mono [OF less(2) [OF that(1)]] that(2) by (force dest: order_trans)
    show ?case
      by (subst value_loop.simps) (intro returns_intros returns_bind [OF returns_any] IH; simp)
  next
    case 3
    have IH: "returns (\<lambda>(s, b', cs'). length cs' \<le> length cs) (\<lambda>_. True) (section_loop b' i' e' c' cs')"
      if "ahead c' cs' < ahead c cs" and "length cs' \<le> length cs" for b' i' e' c' cs'
      using returns_mono [OF less(3) [OF that(1)]] that(2) by (force dest: order_trans)
    show ?case
      by (subst section_loop.simps) (intro returns_intros returns_bind [OF returns_any] IH; simp)
  }
qed

lemma parse_section_rest: "parse_section b cs = Inr (s, b', cs') \<Longrightarrow> length cs' \<le> length cs"
  using returnsD(1) [OF loops_rest(3)] read_shorter(3) [of cs]
  by (fastforce simp: parse_section_def case_prod_beta simp del: read_shorter)

lemma parse_value_rest: "returns (\<lambda>(p, b', cs'). length cs' \<le> length cs) (\<lambda>_. True) (parse_value b v cs)"
proof -
  have v: "returns (\<lambda>(b', e', cs2). length cs2 \<le> length cs) (\<lambda>_. True) (value_loop b v v c1 cs')"
    if "eat_whitespace cs = (c1, cs')" for c1 cs'
    using returns_mono [OF loops_rest(2)] eat_whitespace_length [OF that] by (force dest: order_trans)
  show ?thesis
    unfolding parse_value_def
    by (intro returns_intros returns_bind [OF v] returns_bind [OF returns_any]) auto
qed

lemma parse_parameter_rest: "parse_parameter b c cs = Inr (p, b', cs') \<Longrightarrow> length cs' \<le> length cs"
  using returnsD(1) [OF loops_rest(1), of b 0 0 "Some c" cs] returnsD(1) [OF parse_value_rest]
  by (fastforce simp: parse_parameter_def split: sum.splits name_end.splits dest: order_trans)

lemma ahead_parts:
  "length cs' \<le> length cs \<Longrightarrow> (case eat_whitespace cs' of (x, y) \<Rightarrow> ahead x y) < ahead (Some c) cs"
  "(case eat_comment cs of (x, y) \<Rightarrow> ahead x y) < ahead (Some c) cs"
  using eat_whitespace_length [of cs'] eat_comment_length [of cs] by (force simp: ahead_def split: prod.splits)+

function conf_loop ::
  "(string option \<Rightarrow> string \<Rightarrow> string \<Rightarrow> ('s, unit) act) \<Rightarrow> chars \<Rightarrow> string option \<Rightarrow> char option \<Rightarrow>
   string \<Rightarrow> ('s, unit) act" where
  "conf_loop pfunc b sec c cs = (case c of
     None \<Rightarrow> retM ()
   | Some ch \<Rightarrow>
     if ch = CHR 0x00 then retM ()
     else if ch = newline \<or> ch = CHR 0x5C then
       conf_loop pfunc b sec (fst (eat_whitespace cs)) (snd (eat_whitespace cs))
     else if ch = CHR '';'' \<or> ch = CHR ''#'' then
       conf_loop pfunc b sec (fst (eat_comment cs)) (snd (eat_comment cs))
     else if ch = CHR ''['' then
       (case parse_section b cs of
          Inl f \<Rightarrow> failM f
        | Inr (s, b', cs') \<Rightarrow> conf_loop pfunc b' (if s = None then sec else s)
            (fst (eat_whitespace cs')) (snd (eat_whitespace cs')))
     else
       (case parse_parameter b ch cs of
          Inl f \<Rightarrow> failM f
        | Inr (p, b', cs') \<Rightarrow>
            seqM (case p of None \<Rightarrow> retM () | Some (param, val) \<Rightarrow> pfunc sec param val)
              (conf_loop pfunc b' sec (fst (eat_whitespace cs')) (snd (eat_whitespace cs')))))"
  by pat_completeness auto
termination
  by (relation "measure (\<lambda>(p, b, s, c, cs). ahead c cs)")
    (auto intro: ahead_parts parse_section_rest parse_parameter_rest)

declare conf_loop.simps [simp del]

text \<open>The file is \<open>None\<close> when it cannot be opened.\<close>

definition conf_parse ::
  "string option \<Rightarrow> (string option \<Rightarrow> string \<Rightarrow> string \<Rightarrow> ('s, unit) act) \<Rightarrow> ('s, unit) act" where
  "conf_parse file pfunc = (case file of
     None \<Rightarrow> failM (Exit (- 1) ''unable to open config file'')
   | Some cs \<Rightarrow> conf_loop pfunc (replicate 1024 None) None (fst (eat_whitespace cs)) (snd (eat_whitespace cs)))"

section \<open>Safety\<close>

text \<open>
  \<open>room\<close> is what the buffer has at the head of each loop: the cells up to the place of the next
  character have been written, and this place exists.
\<close>

definition written :: "chars \<Rightarrow> nat \<Rightarrow> bool" where
  "written b n \<longleftrightarrow> n \<le> length b \<and> (\<forall>j < n. b ! j \<noteq> None)"

definition room :: "chars \<Rightarrow> nat \<Rightarrow> nat \<Rightarrow> bool" where
  "room b i e \<longleftrightarrow> 1024 \<le> length b \<and> i < length b \<and> e \<le> i \<and> written b i"

text \<open>A value starts behind the NUL that ends the name.\<close>

definition value_room :: "nat \<Rightarrow> chars \<Rightarrow> nat \<Rightarrow> nat \<Rightarrow> bool" where
  "value_room v b i e \<longleftrightarrow> room b i e \<and> 0 < v \<and> v \<le> e \<and> b ! (v - 1) = Some (CHR 0x00)"

lemma room_grow: "room b i e \<Longrightarrow> room (grow b i) i e \<and> Suc i < length (grow b i)"
  by (auto simp: room_def written_def grow_def nth_append)

lemma value_room_grow: "value_room v b i e \<Longrightarrow> value_room v (grow b i) i e \<and> Suc i < length (grow b i)"
  using room_grow [of b i e] by (auto simp: value_room_def room_def grow_def nth_append)

lemma get_written: "written b n \<Longrightarrow> j < n \<Longrightarrow> \<exists>c. get_char b j = Inr c \<and> b ! j = Some c"
  by (auto simp: written_def get_char_def split: option.split)

lemma continuation_written:
  "written b n \<Longrightarrow> returns (\<lambda>r. \<forall>p. r = Some p \<longrightarrow> p < n \<and> (\<forall>j < n. p \<le> j \<longrightarrow> b ! j \<noteq> Some (CHR 0x00)))
     calm_fault (find_continuation b n)"
proof (induction n)
  case (Suc n)
  obtain c where c: "get_char b n = Inr c" "b ! n = Some c"
    using get_written [OF Suc.prems, of n] by auto
  have w: "written b n"
    using Suc.prems by (auto simp: written_def)
  show ?case
  proof (cases "isspace c")
    case True
    then have "b ! n \<noteq> Some (CHR 0x00)"
      using c(2) by auto
    then show ?thesis
      using True c(1) by (auto intro: returns_mono [OF Suc.IH [OF w]] simp: less_Suc_eq)
  next
    case False
    have "b ! j \<noteq> Some (CHR 0x00)" if "c = CHR 0x5C" "j < Suc n" "n \<le> j" for j
    proof -
      have "j = n"
        using that(2,3) by simp
      then show ?thesis
        using c(2) that(1) by simp
    qed
    then show ?thesis
      using False c(1) by simp
  qed
qed simp

lemma trim_written: "written b n \<Longrightarrow> p < n \<Longrightarrow> returns (\<lambda>e. e \<le> p) calm_fault (trim_space b p)"
  using get_written [of b n "p - 1"] by (cases "p = 0") (auto simp: trim_space_def less_imp_diff_less)

lemma put_room:
  "room b i e \<Longrightarrow> Suc i < length b \<Longrightarrow> j \<le> i \<Longrightarrow>
   returns (\<lambda>b'. room b' (j + 1) (j + 1) \<and> room b' (j + 1) j \<and> 1024 \<le> length b' \<and> length b' = length b \<and>
     b' = b[j := Some c]) calm_fault (put_char b j c)"
  by (auto simp: put_char_def room_def written_def nth_list_update)

lemma put_value:
  "value_room v b i e \<Longrightarrow> Suc i < length b \<Longrightarrow>
   returns (\<lambda>b'. value_room v b' (i + 1) (i + 1) \<and> value_room v b' (i + 1) e) calm_fault (put_char b i c)"
  by (auto simp: value_room_def put_char_def room_def written_def nth_list_update)

lemma room_back: "room b i e \<Longrightarrow> p < i \<Longrightarrow> e' \<le> p \<Longrightarrow> room b p e'"
  by (auto simp: room_def written_def)

lemma value_room_back:
  "value_room v b i e \<Longrightarrow> p < i \<Longrightarrow> \<forall>j < i. p \<le> j \<longrightarrow> b ! j \<noteq> Some (CHR 0x00) \<Longrightarrow> value_room v b p p"
  unfolding value_room_def
  by (metis Suc_pred' less_imp_le_nat linorder_not_le not_less_eq_eq room_back room_def order_refl
      le_less_trans diff_less zero_less_one order_less_le_trans)

lemma written_less: "written b n \<Longrightarrow> p < n \<Longrightarrow> written b p"
  by (simp add: written_def)

lemma room_written: "room b i e \<Longrightarrow> written b i" "value_room v b i e \<Longrightarrow> written b i"
  by (simp_all add: room_def value_room_def)

lemma string_in_ends:
  "\<forall>j < k. b ! j \<noteq> None \<Longrightarrow> k < length b \<Longrightarrow> b ! k = Some (CHR 0x00) \<Longrightarrow> \<exists>s. string_in b = Inr s"
proof (induction k arbitrary: b)
  case 0
  then show ?case
    by (cases b) auto
next
  case (Suc k)
  obtain c b' where b: "b = Some c # b'"
    using Suc.prems by (cases b) auto
  have "\<exists>s. string_in b' = Inr s"
    using Suc.prems unfolding b by (intro Suc.IH) auto
  then show ?case
    by (auto simp: b)
qed

lemma string_at_ends:
  "written b k \<Longrightarrow> i \<le> k \<Longrightarrow> k < length b \<Longrightarrow> b ! k = Some (CHR 0x00) \<Longrightarrow> \<exists>s. string_at b i = Inr s"
  using string_in_ends [of "k - i" "drop i b"] by (auto simp: string_at_def written_def)

text \<open>The three loops.\<close>

fun name_good :: "name_end \<Rightarrow> bool" where
  "name_good (Value_at b v cs) = value_room v b v v"
| "name_good (Ignored b cs) = (1024 \<le> length b)"

lemma put_end: "room b i e \<Longrightarrow> returns (\<lambda>b'. length b' = length b \<and> b' = b[e := Some c]) calm_fault (put_char b e c)"
  by (auto simp: put_char_def room_def)

lemma name_loop_safe: "room b i e \<Longrightarrow> returns name_good calm_fault (name_loop b i e c cs)"
proof (induction "ahead c cs" arbitrary: b i e c cs rule: less_induct)
  case less
  have IH: "returns name_good calm_fault (name_loop b' i' e' c' cs')"
    if "room b' i' e'" and "ahead c' cs' < ahead c cs" for b' i' e' c' cs'
    using less(1) that by blast
  let ?b = "grow b i"
  have g: "room ?b i e" "Suc i < length ?b"
    using room_grow [OF less.prems] by auto
  have e: "e \<le> i"
    using g by (simp add: room_def)
  note w = room_written(1) [OF g(1)]
  have assigned: "returns name_good calm_fault (case put_char b' (e + 1) (CHR 0x00) of
      Inl f \<Rightarrow> Inl f | Inr b'' \<Rightarrow> Inr (Value_at b'' (e + 1) cs))"
    if "b' = ?b[e := Some (CHR 0x00)]" for b'
    using g e that by (auto simp: put_char_def value_room_def room_def written_def nth_list_update)
  show ?case
    by (subst name_loop.simps)
      (intro returns_Let returns_option returns_if returns_Inl calm_faults returns_Inr IH
        returns_bind [OF put_room [OF g e]] returns_bind [OF continuation_written [OF w]] assigned
        returns_bind [OF trim_written [OF w]] returns_bind [OF put_room [OF g order_refl]];
       (use g in \<open>auto intro: written_less simp: room_def\<close>)?)
qed

lemma value_loop_safe:
  "value_room v b i e \<Longrightarrow>
   returns (\<lambda>(b', e', cs'). \<exists>i'. value_room v b' i' e') calm_fault (value_loop b i e c cs)"
proof (induction "ahead c cs" arbitrary: b i e c cs rule: less_induct)
  case less
  have IH: "returns (\<lambda>(b', e', cs'). \<exists>i'. value_room v b' i' e') calm_fault (value_loop b' i' e' c' cs')"
    if "value_room v b' i' e'" and "ahead c' cs' < ahead c cs" for b' i' e' c' cs'
    using less(1) that by blast
  let ?b = "grow b i"
  have g: "value_room v ?b i e" "Suc i < length ?b"
    using value_room_grow [OF less.prems] by auto
  note w = room_written(2) [OF g(1)]
  have fin: "\<exists>i'. value_room v b i' e" "\<exists>i'. value_room v ?b i' e"
    using less.prems g by auto
  show ?case
    by (subst value_loop.simps)
      (intro returns_Let returns_option returns_if returns_Inl calm_faults returns_Inr IH
        returns_bind [OF put_value [OF g]] returns_bind [OF continuation_written [OF w]];
       (use g fin in \<open>auto intro: value_room_back\<close>)?)
qed

lemma section_loop_safe:
  "room b i e \<Longrightarrow> returns (\<lambda>(s, b', cs'). 1024 \<le> length b') calm_fault (section_loop b i e c cs)"
proof (induction "ahead c cs" arbitrary: b i e c cs rule: less_induct)
  case less
  have IH: "returns (\<lambda>(s, b', cs'). 1024 \<le> length b') calm_fault (section_loop b' i' e' c' cs')"
    if "room b' i' e'" and "ahead c' cs' < ahead c cs" for b' i' e' c' cs'
    using less(1) that by blast
  let ?b = "grow b i"
  have g: "room ?b i e" "Suc i < length ?b"
    using room_grow [OF less.prems] by auto
  have e: "e \<le> i"
    using g by (simp add: room_def)
  note w = room_written(1) [OF g(1)]
  have name: "returns (\<lambda>(s, b', cs'). 1024 \<le> length b') calm_fault (case string_at b' 0 of
      Inl f \<Rightarrow> Inl f | Inr s \<Rightarrow> Inr (Some s, b', cs'))" if "b' = ?b[e := Some (CHR 0x00)]" for b' cs'
  proof -
    have "\<exists>s. string_at b' 0 = Inr s"
      using g e that by (intro string_at_ends [of b' e]) (auto simp: room_def written_def)
    then show ?thesis
      using g that by (auto simp: room_def)
  qed
  show ?case
    by (subst section_loop.simps)
      (intro returns_Let returns_option returns_if returns_Inl calm_faults returns_Inr IH name
        returns_bind [OF put_room [OF g e]] returns_bind [OF continuation_written [OF w]]
        returns_bind [OF trim_written [OF w]] returns_bind [OF put_room [OF g order_refl]];
       (use g less.prems in \<open>auto intro: written_less simp: room_def\<close>)?)
qed

lemma parse_parameter_safe:
  assumes "1024 \<le> length b"
  shows "returns (\<lambda>(p, b', cs'). 1024 \<le> length b') calm_fault (parse_parameter b c cs)"
proof -
  have "room b 0 0"
    using assms by (auto simp: room_def written_def)
  note n = name_loop_safe [OF this]
  have v: "returns (\<lambda>(p, b', cs'). 1024 \<le> length b') calm_fault (parse_value b1 v cs1)"
    if "value_room v b1 v v" for b1 v cs1
  proof -
    have fin: "returns (\<lambda>(p, b', cs'). 1024 \<le> length b') calm_fault
        (case put_char b2 e (CHR 0x00) of
           Inl f \<Rightarrow> Inl f
         | Inr b3 \<Rightarrow> (case string_at b3 0 of
             Inl f \<Rightarrow> Inl f
           | Inr name \<Rightarrow> (case string_at b3 v of
               Inl f \<Rightarrow> Inl f
             | Inr val \<Rightarrow> Inr (Some (name, val), b3, cs2))))"
      if "value_room v b2 i' e" for b2 i' e cs2
    proof -
      let ?b3 = "b2[e := Some (CHR 0x00)]"
      have e: "e < length b2" "v \<le> e" "written ?b3 e" "1024 \<le> length b2"
        using that by (auto simp: value_room_def room_def written_def nth_list_update)
      then have "\<exists>s. string_at ?b3 0 = Inr s" "\<exists>s. string_at ?b3 v = Inr s"
        by (auto intro!: string_at_ends [of _ e])
      then show ?thesis
        using e by (auto simp: put_char_def)
    qed
    show ?thesis
      unfolding parse_value_def
      by (intro returns_prod returns_bind [OF value_loop_safe [OF that]]) (use fin in auto)
  qed
  show ?thesis
    unfolding parse_parameter_def
    by (intro returns_bind [OF n]) (auto split: name_end.split intro: v)
qed

lemma parse_section_safe:
  "1024 \<le> length b \<Longrightarrow> returns (\<lambda>(s, b', cs'). 1024 \<le> length b') calm_fault (parse_section b cs)"
  unfolding parse_section_def
  by (intro returns_prod section_loop_safe) (auto simp: room_def written_def)

lemma safe_lift_case:
  "returns R calm_fault r \<Longrightarrow> (\<And>x. r = Inr x \<Longrightarrow> R x \<Longrightarrow> safe P (f x) Q) \<Longrightarrow>
   safe P (case r of Inl e \<Rightarrow> failM e | Inr x \<Rightarrow> f x) Q"
  by (cases r) (auto intro: safe_failM)

lemma conf_loop_safe:
  assumes "\<And>s n v. safe P (pfunc s n v) (\<lambda>_. True)"
  shows "1024 \<le> length b \<Longrightarrow> safe P (conf_loop pfunc b sec c cs) (\<lambda>_. True)"
proof (induction "ahead c cs" arbitrary: b sec c cs rule: less_induct)
  case less
  have IH: "safe P (conf_loop pfunc b' sec' c' cs') (\<lambda>_. True)"
    if "1024 \<le> length b'" and "ahead c' cs' < ahead c cs" for b' sec' c' cs'
    using less(1) that by blast
  show ?case
    by (subst conf_loop.simps)
      (intro safe_case_option safe_if safe_retM TrueI safe_case_prod IH assms safe_seqM less.prems
        safe_lift_case [OF parse_section_safe [OF less.prems]]
        safe_lift_case [OF parse_parameter_safe [OF less.prems]];
       (use ahead_parts [unfolded case_prod_beta] less.prems in
         \<open>auto dest: parse_section_rest parse_parameter_rest\<close>)?)
qed

text \<open>
  C23: whatever the file contains, the parser stays inside its growing buffer and
  reads only cells that were written: it ends with all parameters passed on or by \<open>exit\<close>, if
  the function it passes them to does not fail itself.
\<close>

theorem conf_parse_safe:
  assumes "\<And>s n v. safe P (pfunc s n v) (\<lambda>_. True)"
  shows "safe P (conf_parse file pfunc) (\<lambda>_. True)"
  unfolding conf_parse_def
  by (intro safe_case_option safe_failM calm_faults conf_loop_safe assms) simp

section \<open>What a file in the usual form means\<close>

text \<open>
  Lines \<open>name = value\<close> and section headers \<open>[section]\<close>. A name consists of words that single
  spaces separate; a value is any text that neither begins nor ends with white space, does not
  end with a backslash and has none of the characters that end it.
\<close>

definition word_char :: "char \<Rightarrow> bool" where
  "word_char c \<longleftrightarrow> \<not> isspace c \<and> c \<notin> {CHR ''='', CHR '';'', CHR ''#'', CHR '']'', CHR 0x00}"

fun spaced :: "string \<Rightarrow> bool" where
  "spaced [] = True"
| "spaced (c # cs) = (if c = CHR '' '' then cs \<noteq> [] \<and> word_char (hd cs) \<and> spaced cs
     else word_char c \<and> spaced cs)"

definition good_name :: "string \<Rightarrow> bool" where
  "good_name n \<longleftrightarrow> n \<noteq> [] \<and> spaced n \<and> word_char (hd n) \<and> hd n \<notin> {CHR ''['', CHR 0x5C}"

definition good_value :: "string \<Rightarrow> bool" where
  "good_value v \<longleftrightarrow> v \<noteq> [] \<and> (\<forall>c \<in> set v. c \<notin> {CHR '';'', CHR ''#'', CHR 0x00, CHR 0x0D, newline}) \<and>
     \<not> isspace (hd v) \<and> \<not> isspace (last v) \<and> last v \<noteq> CHR 0x5C"

definition good_section :: "string \<Rightarrow> bool" where
  "good_section s \<longleftrightarrow> s \<noteq> [] \<and> (\<forall>c \<in> set s. word_char c)"

definition print_param :: "string \<times> string \<Rightarrow> string" where
  "print_param p = fst p @ '' = '' @ snd p @ [newline]"

definition print_section :: "string \<times> (string \<times> string) list \<Rightarrow> string" where
  "print_section s = ''['' @ fst s @ '']'' @ [newline] @ concat (map print_param (snd s))"

lemma holds_grow: "holds b 0 p \<Longrightarrow> length p \<le> length b \<Longrightarrow> holds (grow b i) 0 p"
  by (auto simp: holds_def grow_def)

lemma holds_length: "holds b 0 p \<Longrightarrow> length p \<le> length b"
  by (drule holds_split) auto

lemma holds_snoc: "holds b 0 p \<Longrightarrow> length p < length b \<Longrightarrow> holds (b[length p := Some c]) 0 (p @ [c])"
  using holds_put(2) [of b 0 p] by simp

lemma holds_take: "holds b 0 (p @ q) \<Longrightarrow> holds b 0 p"
  by (drule holds_split) (auto simp: holds_def)

lemma word_charD: "word_char c \<Longrightarrow> c \<noteq> newline \<and> c \<noteq> CHR '' '' \<and> \<not> isspace c"
  by (auto simp: word_char_def)

lemma room_step:
  assumes "room b (length p) e" and "holds b 0 p"
  shows "room ((grow b (length p))[length p := Some c]) (length (p @ [c])) (length (p @ [c]))"
    and "room ((grow b (length p))[length p := Some c]) (length (p @ [c])) e"
    and "holds ((grow b (length p))[length p := Some c]) 0 (p @ [c])"
    and "put_char (grow b (length p)) (length p) c = Inr ((grow b (length p))[length p := Some c])"
  using room_grow [OF assms(1)] assms holds_snoc [OF holds_grow [OF assms(2)], of "length p"]
    holds_length [OF assms(2)]
  by (auto simp: room_def written_def nth_list_update put_char_def)

lemma name_char:
  assumes "word_char c" and "room b (length p) e" and "holds b 0 p"
  shows "name_loop b (length p) e (Some c) cs =
    name_loop ((grow b (length p))[length p := Some c]) (length (p @ [c])) (length (p @ [c])) (fst (getc cs)) (snd (getc cs))"
  using word_charD [OF assms(1)] assms(1) room_step(4) [OF assms(2,3), of c]
  by (subst name_loop.simps) (simp add: word_char_def)

lemma name_space:
  assumes "room b (length p) (length p)" and "holds b 0 p"
  shows "name_loop b (length p) (length p) (Some CHR '' '') cs =
    name_loop ((grow b (length p))[length p := Some CHR '' '']) (length (p @ '' '')) (length p)
      (fst (eat_whitespace cs)) (snd (eat_whitespace cs))"
  using room_step(4) [OF assms]
  by (subst name_loop.simps) (auto simp: newline_def)

lemma name_run:
  "r \<noteq> [] \<Longrightarrow> spaced r \<Longrightarrow> holds b 0 p \<Longrightarrow> room b (length p) e \<Longrightarrow> (hd r = CHR '' '' \<Longrightarrow> e = length p) \<Longrightarrow>
   \<exists>b'. name_loop b (length p) e (Some (hd r)) (tl r @ CHR '' '' # cs) =
      name_loop b' (length (p @ r)) (length (p @ r)) (Some CHR '' '') cs \<and>
     holds b' 0 (p @ r) \<and> room b' (length (p @ r)) (length (p @ r))"
proof (induction r arbitrary: b p e)
  case (Cons c r)
  note step = room_step [OF Cons.prems(4,3), of c]
  show ?case
  proof (cases "c = CHR '' ''")
    case True
    then obtain d r' where r: "r = d # r'" and d: "word_char d"
      using Cons.prems(2) by (cases r) auto
    have e: "e = length p"
      using Cons.prems(5) True by simp
    have "room ((grow b (length p))[length p := Some c]) (length (p @ [c])) (length p)"
      using step(2) e by simp
    then show ?thesis
      using Cons.IH [OF _ _ step(3), of "length p"] Cons.prems(2) True word_charD [OF d] r e
        name_space [of b p "d # r' @ CHR '' '' # cs"] Cons.prems(3,4)
      by auto
  next
    case False
    then have c: "word_char c" "spaced r"
      using Cons.prems(2) by (auto split: if_splits)
    show ?thesis
    proof (cases "r = []")
      case True
      then show ?thesis
        using name_char [OF c(1) Cons.prems(4,3)] step by auto
    next
      case False
      then show ?thesis
        using name_char [OF c(1) Cons.prems(4,3), of "r @ CHR '' '' # cs"] step(1)
          Cons.IH [OF False c(2) step(3), of "length (p @ [c])"]
        by (cases r) auto
    qed
  qed
qed simp

text \<open>The end of a name at the equals sign.\<close>

lemma name_end:
  assumes "n \<noteq> []" and "room b (length n) (length n)" and "holds b 0 n"
  shows "\<exists>b'. name_loop b (length n) (length n) (Some CHR '' '') (''= '' @ cs) =
      Inr (Value_at b' (length n + 1) ('' '' @ cs)) \<and> holds b' 0 (n @ [CHR 0x00]) \<and>
     value_room (length n + 1) b' (length n + 1) (length n + 1)"
proof -
  let ?b = "(grow b (length n))[length n := Some CHR '' '']"
  have s: "room ?b (length n + 1) (length n)" "holds ?b 0 n"
    using room_step(2,3) [OF assms(2,3), of "CHR '' ''"] holds_take by auto
  let ?c = "grow ?b (length n + 1)"
  have g: "room ?c (length n + 1) (length n)" "Suc (length n + 1) < length ?c" "holds ?c 0 n"
    using room_grow [OF s(1)] holds_grow [OF s(2)] holds_length [OF s(2)] by auto
  have "name_loop b (length n) (length n) (Some CHR '' '') (''= '' @ cs) =
      name_loop ?b (length n + 1) (length n) (Some CHR ''='') ('' '' @ cs)"
    using name_space [OF assms(2,3), of "''= '' @ cs"] by simp
  also have "\<dots> = Inr (Value_at (?c[length n := Some (CHR 0x00), length n + 1 := Some (CHR 0x00)]) (length n + 1) ('' '' @ cs))"
    using assms(1) g(2) by (subst name_loop.simps) (simp add: put_char_def)
  finally show ?thesis
    using g holds_snoc [OF g(3), of "CHR 0x00"]
    by (auto simp: value_room_def room_def written_def nth_list_update holds_def)
qed

lemma value_char:
  assumes "c \<notin> {CHR '';'', CHR ''#'', CHR 0x00, CHR 0x0D, newline}" and "value_room v b (length p) e" and "holds b 0 p"
  shows "value_loop b (length p) e (Some c) cs =
      value_loop ((grow b (length p))[length p := Some c]) (length (p @ [c]))
        (if isspace c then e else length (p @ [c])) (fst (getc cs)) (snd (getc cs))"
    and "value_room v ((grow b (length p))[length p := Some c]) (length (p @ [c]))
        (if isspace c then e else length (p @ [c]))"
    and "holds ((grow b (length p))[length p := Some c]) 0 (p @ [c])"
proof -
  have r: "room b (length p) e"
    using assms(2) by (simp add: value_room_def)
  show "value_loop b (length p) e (Some c) cs =
      value_loop ((grow b (length p))[length p := Some c]) (length (p @ [c]))
        (if isspace c then e else length (p @ [c])) (fst (getc cs)) (snd (getc cs))"
    using assms(1) room_step(4) [OF r assms(3), of c] by (subst value_loop.simps) simp
  show "value_room v ((grow b (length p))[length p := Some c]) (length (p @ [c]))
        (if isspace c then e else length (p @ [c]))"
    using put_value [OF value_room_grow [OF assms(2), THEN conjunct1] value_room_grow [OF assms(2), THEN conjunct2], of c]
      room_step(4) [OF r assms(3), of c] by simp
  show "holds ((grow b (length p))[length p := Some c]) 0 (p @ [c])"
    by (rule room_step(3) [OF r assms(3)])
qed

lemma value_end:
  assumes "value_room v b (length p) (length p)" and "holds b 0 p" and "p \<noteq> []"
    and "\<not> isspace (last p)" and "last p \<noteq> CHR 0x5C"
  shows "value_loop b (length p) e (Some newline) cs = Inr (grow b (length p), e, cs)"
proof -
  have h: "holds (grow b (length p)) 0 p"
    by (rule holds_grow [OF assms(2) holds_length [OF assms(2)]])
  obtain k where k: "length p = Suc k"
    using assms(3) by (cases p) auto
  have "get_char (grow b (length p)) k = Inr (last p)"
    using holds_get [OF h, of k] k assms(3) by (simp add: last_conv_nth)
  then have "find_continuation (grow b (length p)) (length p) = Inr None"
    using k assms(4,5) by simp
  then show ?thesis
    by (subst value_loop.simps) (simp add: after_line_def)
qed

lemma value_run:
  "r \<noteq> [] \<Longrightarrow> \<forall>c \<in> set r. c \<notin> {CHR '';'', CHR ''#'', CHR 0x00, CHR 0x0D, newline} \<Longrightarrow>
   \<not> isspace (last r) \<Longrightarrow> last r \<noteq> CHR 0x5C \<Longrightarrow> holds b 0 p \<Longrightarrow> value_room v b (length p) e \<Longrightarrow>
   \<exists>b'. value_loop b (length p) e (Some (hd r)) (tl r @ newline # cs) = Inr (b', length (p @ r), cs) \<and>
     holds b' 0 (p @ r) \<and> value_room v b' (length (p @ r)) (length (p @ r))"
proof (induction r arbitrary: b p e)
  case (Cons c r)
  have c: "c \<notin> {CHR '';'', CHR ''#'', CHR 0x00, CHR 0x0D, newline}"
    using Cons.prems(2) by simp
  note step = value_char [OF c Cons.prems(6,5)]
  show ?case
  proof (cases "r = []")
    case True
    then have sp: "\<not> isspace c" "c \<noteq> CHR 0x5C"
      using Cons.prems(3,4) by simp_all
    let ?b = "(grow b (length p))[length p := Some c]"
    have e: "value_room v ?b (length (p @ [c])) (length (p @ [c]))"
      using step(2) sp by simp
    have "value_loop ?b (length (p @ [c])) (length (p @ [c])) (Some newline) cs =
        Inr (grow ?b (length (p @ [c])), length (p @ [c]), cs)"
      by (rule value_end [OF e step(3)]) (use sp in auto)
    then show ?thesis
      using True sp step(1) [of "newline # cs"] value_room_grow [OF e] holds_grow [OF step(3)]
        holds_length [OF step(3)] by auto
  next
    case False
    then show ?thesis
      using step(1) [of "r @ newline # cs"] Cons.IH [OF False _ _ _ step(3,2)] Cons.prems(2-4)
      by (cases r) auto
  qed
qed simp

text \<open>One line.\<close>

lemma spaced_no_NUL: "spaced n \<Longrightarrow> CHR 0x00 \<notin> set n"
  by (induction n) (auto simp: word_char_def split: if_splits)

definition starts :: "string \<Rightarrow> bool" where
  "starts t \<longleftrightarrow> t = [] \<or> \<not> isspace (hd t)"

lemma eat_whitespace_text: "starts t \<Longrightarrow> eat_whitespace t = getc t"
  by (cases t) (auto simp: starts_def)

lemma print_param_pair [simp]: "print_param (n, v) = n @ '' = '' @ v @ [newline]"
  by (simp add: print_param_def)

lemma print_section_pair [simp]:
  "print_section (n, ps) = CHR ''['' # n @ CHR '']'' # newline # concat (map print_param ps)"
  by (simp add: print_section_def)

lemma starts_params: "\<forall>p \<in> set ps. good_name (fst p) \<Longrightarrow> starts t \<Longrightarrow> starts (concat (map print_param ps) @ t)"
  by (cases ps) (auto simp: print_param_def good_name_def hd_append starts_def dest: word_charD)

lemma parse_param_line:
  assumes "good_name n" and "good_value v" and "1024 \<le> length b"
  shows "\<exists>b'. parse_parameter b (hd n) (tl n @ '' = '' @ v @ newline # cs) = Inr (Some (n, v), b', cs) \<and>
    1024 \<le> length b'"
proof -
  have n: "n \<noteq> []" "spaced n" "hd n \<noteq> CHR '' ''" "CHR 0x00 \<notin> set n"
    using assms(1) spaced_no_NUL by (auto simp: good_name_def dest: word_charD)
  have v: "v \<noteq> []" "\<not> isspace (hd v)" "CHR 0x00 \<notin> set v"
    using assms(2) by (auto simp: good_value_def)
  have "room b 0 0" "holds b 0 []"
    using assms(3) by (auto simp: room_def written_def holds_def)
  then obtain b1 where b1: "name_loop b 0 0 (Some (hd n)) (tl n @ '' = '' @ v @ newline # cs) =
      name_loop b1 (length n) (length n) (Some CHR '' '') (''= '' @ v @ newline # cs)"
      "holds b1 0 n" "room b1 (length n) (length n)"
    using name_run [of n b "[]" 0 "''= '' @ v @ newline # cs"] n by auto
  obtain b2 where b2: "name_loop b1 (length n) (length n) (Some CHR '' '') (''= '' @ v @ newline # cs) =
      Inr (Value_at b2 (length n + 1) ('' '' @ v @ newline # cs))"
      "holds b2 0 (n @ [CHR 0x00])" "value_room (length n + 1) b2 (length n + 1) (length n + 1)"
    using name_end [OF n(1) b1(3,2)] by blast
  obtain b3 where b3: "value_loop b2 (length n + 1) (length n + 1) (Some (hd v)) (tl v @ newline # cs) =
      Inr (b3, length n + 1 + length v, cs)" "holds b3 0 (n @ CHR 0x00 # v)"
      "value_room (length n + 1) b3 (length n + 1 + length v) (length n + 1 + length v)"
    using value_run [OF v(1), of b2 "n @ [CHR 0x00]" "length n + 1" "length n + 1" cs] assms(2) b2(2,3)
    by (auto simp: good_value_def)
  let ?e = "length n + 1 + length v"
  let ?b = "b3[?e := Some (CHR 0x00)]"
  have e: "?e < length b3" "1024 \<le> length b3"
    using b3(3) by (auto simp: value_room_def room_def)
  have h: "holds ?b 0 (n @ CHR 0x00 # v @ [CHR 0x00])"
    using holds_snoc [OF b3(2), of "CHR 0x00"] e by simp
  have "string_at ?b 0 = Inr n"
    by (rule string_at_holds [OF holds_take [of _ _ "v @ [CHR 0x00]"] n(4)]) (use h in simp)
  moreover have "holds ?b (length n + 1) (v @ [CHR 0x00])"
    using holds_split [OF h] by (auto simp: holds_def)
  then have "string_at ?b (length n + 1) = Inr v"
    by (rule string_at_holds) (rule v(3))
  moreover have "eat_whitespace ('' '' @ v @ newline # cs) = (Some (hd v), tl v @ newline # cs)"
    using v by (cases v) (auto simp: newline_def)
  ultimately have "parse_value b2 (length n + 1) ('' '' @ v @ newline # cs) = Inr (Some (n, v), ?b, cs)"
    using b3(1) e by (simp add: parse_value_def put_char_def)
  then show ?thesis
    using b1(1) b2(1) e by (simp add: parse_parameter_def)
qed

lemma section_run:
  "\<forall>c \<in> set r. word_char c \<Longrightarrow> holds b 0 p \<Longrightarrow> room b (length p) (length p) \<Longrightarrow> p @ r \<noteq> [] \<Longrightarrow> CHR 0x00 \<notin> set p \<Longrightarrow>
   \<exists>b'. section_loop b (length p) (length p) (fst (getc (r @ CHR '']'' # newline # cs))) (snd (getc (r @ CHR '']'' # newline # cs))) =
     Inr (Some (p @ r), b', cs) \<and> 1024 \<le> length b'"
proof (induction r arbitrary: b p)
  case Nil
  let ?b = "(grow b (length p))[length p := Some (CHR 0x00)]"
  have "holds ?b 0 (p @ [CHR 0x00])" "put_char (grow b (length p)) (length p) (CHR 0x00) = Inr ?b" "room ?b (length (p @ [CHR 0x00])) (length (p @ [CHR 0x00]))"
    using room_step [OF Nil.prems(3,2)] by blast+
  then show ?case
    using string_at_holds [of ?b 0 p] Nil.prems(4,5)
    by (subst section_loop.simps) (auto simp: room_def)
next
  case (Cons c r)
  have c: "word_char c"
    using Cons.prems(1) by simp
  note step = room_step [OF Cons.prems(3,2), of c]
  have "section_loop b (length p) (length p) (Some c) (r @ CHR '']'' # newline # cs) =
      section_loop ((grow b (length p))[length p := Some c]) (length (p @ [c])) (length (p @ [c]))
        (fst (getc (r @ CHR '']'' # newline # cs))) (snd (getc (r @ CHR '']'' # newline # cs)))"
    using word_charD [OF c] c step(4) by (subst section_loop.simps) (simp add: word_char_def)
  then show ?case
    using Cons.IH [OF _ step(3,1)] Cons.prems(1,5) c by (auto simp: word_char_def)
qed

lemma parse_section_line:
  assumes "good_section s" and "1024 \<le> length b"
  shows "\<exists>b'. parse_section b (s @ CHR '']'' # newline # cs) = Inr (Some s, b', cs) \<and> 1024 \<le> length b'"
proof -
  have "starts (s @ CHR '']'' # newline # cs)"
    using assms(1) by (cases s) (auto simp: good_section_def starts_def dest: word_charD)
  moreover have "room b 0 0" "holds b 0 []"
    using assms(2) by (auto simp: room_def written_def holds_def)
  ultimately show ?thesis
    using section_run [of s b "[]" cs] assms(1)
    by (auto simp: parse_section_def eat_whitespace_text good_section_def case_prod_beta)
qed

text \<open>The whole file.\<close>

lemma conf_params:
  assumes "\<forall>p \<in> set ps. good_name (fst p) \<and> good_value (snd p)" and "starts t" and "1024 \<le> length b"
  shows "\<exists>b'. conf_loop pfunc b sec (fst (getc (concat (map print_param ps) @ t))) (snd (getc (concat (map print_param ps) @ t))) =
      seqM (seqsM (map (\<lambda>(n, v). pfunc sec n v) ps)) (conf_loop pfunc b' sec (fst (getc t)) (snd (getc t))) \<and>
    1024 \<le> length b'"
  using assms(1,3)
proof (induction ps arbitrary: b)
  case (Cons p ps)
  obtain n v where p: "p = (n, v)"
    by fastforce
  let ?t = "concat (map print_param ps) @ t"
  have good: "good_name n" "good_value v"
    using Cons.prems p by auto
  have hd: "starts ?t"
    using Cons.prems(1) assms(2) by (intro starts_params) auto
  obtain c n' where n: "n = c # n'" and c: "word_char c" "c \<notin> {CHR ''['', CHR 0x5C}"
    using good(1) by (cases n) (auto simp: good_name_def)
  obtain b1 where b1: "parse_parameter b c (n' @ '' = '' @ v @ newline # ?t) = Inr (Some (n, v), b1, ?t)" "1024 \<le> length b1"
    using parse_param_line [OF good Cons.prems(2), of ?t] n by auto
  have "conf_loop pfunc b sec (Some c) (n' @ '' = '' @ v @ newline # ?t) =
      seqM (pfunc sec n v) (conf_loop pfunc b1 sec (fst (getc ?t)) (snd (getc ?t)))"
    using c word_charD [OF c(1)] b1(1) eat_whitespace_text [OF hd]
    by (subst conf_loop.simps) (simp add: word_char_def)
  moreover obtain b2 where "conf_loop pfunc b1 sec (fst (getc ?t)) (snd (getc ?t)) =
      seqM (seqsM (map (\<lambda>(n, v). pfunc sec n v) ps)) (conf_loop pfunc b2 sec (fst (getc t)) (snd (getc t)))"
      "1024 \<le> length b2"
    using Cons.IH [OF _ b1(2)] Cons.prems(1) by auto
  ultimately show ?case
    by (intro exI [of _ b2]) (simp add: p n seqM_assoc)
qed (auto intro: exI [of _ b])

definition calls ::
  "(string option \<Rightarrow> string \<Rightarrow> string \<Rightarrow> ('s, unit) act) \<Rightarrow> string option \<Rightarrow> (string \<times> string) list \<Rightarrow>
   ('s, unit) act" where
  "calls pfunc sec ps = seqsM (map (\<lambda>(n, v). pfunc sec n v) ps)"

lemma conf_sections:
  "\<forall>s \<in> set ss. good_section (fst s) \<and> (\<forall>p \<in> set (snd s). good_name (fst p) \<and> good_value (snd p)) \<Longrightarrow>
   1024 \<le> length b \<Longrightarrow>
   conf_loop pfunc b sec (fst (getc (concat (map print_section ss)))) (snd (getc (concat (map print_section ss)))) =
   seqsM (map (\<lambda>s. calls pfunc (Some (fst s)) (snd s)) ss)"
proof (induction ss arbitrary: b sec)
  case Nil
  then show ?case
    by (subst conf_loop.simps) simp
next
  case (Cons s ss)
  obtain n ps where s: "s = (n, ps)"
    by fastforce
  have n: "good_section n" and ps: "\<forall>p \<in> set ps. good_name (fst p) \<and> good_value (snd p)"
    using Cons.prems s by auto
  let ?t = "concat (map print_section ss)"
  let ?u = "concat (map print_param ps) @ ?t"
  have t: "starts ?t"
    by (cases ss) (auto simp: starts_def print_section_def)
  have u: "starts ?u"
    using ps t by (intro starts_params) auto
  obtain b1 where b1: "parse_section b (n @ CHR '']'' # newline # ?u) = Inr (Some n, b1, ?u)" "1024 \<le> length b1"
    using parse_section_line [OF n Cons.prems(2)] by blast
  have "conf_loop pfunc b sec (Some CHR ''['') (n @ CHR '']'' # newline # ?u) =
      conf_loop pfunc b1 (Some n) (fst (getc ?u)) (snd (getc ?u))"
    using b1(1) eat_whitespace_text [OF u] by (subst conf_loop.simps) (simp add: newline_def)
  moreover obtain b2 where b2: "conf_loop pfunc b1 (Some n) (fst (getc ?u)) (snd (getc ?u)) =
      seqM (calls pfunc (Some n) ps) (conf_loop pfunc b2 (Some n) (fst (getc ?t)) (snd (getc ?t)))"
      "1024 \<le> length b2"
    using conf_params [OF ps t b1(2)] unfolding calls_def by blast
  moreover have "conf_loop pfunc b2 (Some n) (fst (getc ?t)) (snd (getc ?t)) =
      seqsM (map (\<lambda>s. calls pfunc (Some (fst s)) (snd s)) ss)"
    using Cons.IH [OF _ b2(2)] Cons.prems(1) by simp
  ultimately show ?case
    by (simp add: s)
qed

text \<open>
  C22: a configuration file that consists of parameters and of sections with
  parameters, one a line, is read back exactly: every name with its value, in the order of the
  file, is passed on with the section it stands in, and nothing else is.
\<close>

theorem conf_parse_entries:
  assumes "\<forall>p \<in> set glob. good_name (fst p) \<and> good_value (snd p)"
    and "\<forall>s \<in> set ss. good_section (fst s) \<and> (\<forall>p \<in> set (snd s). good_name (fst p) \<and> good_value (snd p))"
  shows "conf_parse (Some (concat (map print_param glob) @ concat (map print_section ss))) pfunc =
    seqM (calls pfunc None glob) (seqsM (map (\<lambda>s. calls pfunc (Some (fst s)) (snd s)) ss))"
proof -
  let ?t = "concat (map print_section ss)"
  have t: "starts ?t"
    by (cases ss) (auto simp: starts_def print_section_def)
  have u: "starts (concat (map print_param glob) @ ?t)"
    using assms(1) t by (intro starts_params) auto
  obtain b where "conf_loop pfunc (replicate 1024 None) None (fst (getc (concat (map print_param glob) @ ?t)))
      (snd (getc (concat (map print_param glob) @ ?t))) =
      seqM (calls pfunc None glob) (conf_loop pfunc b None (fst (getc ?t)) (snd (getc ?t)))" "1024 \<le> length b"
    using conf_params [OF assms(1) t, of "replicate 1024 None" pfunc None] unfolding calls_def by auto
  then show ?thesis
    using eat_whitespace_text [OF u] by (simp add: conf_parse_def conf_sections [OF assms(2)])
qed

theorem conf_parse_safe_witness:
  "fst (conf_parse (Some ''a # no value'') (\<lambda>s n v. modM (Cons (n, v))) []) \<noteq> Inl Bad_access"
proof -
  have s: "safe (\<lambda>_. True) (conf_parse (Some ''a # no value'') (\<lambda>s n v. modM (Cons (n, v)))) (\<lambda>_. True)"
    by (rule conf_parse_safe) (simp add: safe_modM)
  obtain r l where r: "conf_parse (Some ''a # no value'') (\<lambda>s n v. modM (Cons (n, v))) [] = (r, l)"
    by fastforce
  show ?thesis
    using safeD(3) [OF s TrueI r, of Bad_access] by (auto simp: r)
qed

definition log_call :: "string option \<Rightarrow> string \<Rightarrow> string \<Rightarrow> ((string option \<times> string \<times> string) list, unit) act" where
  "log_call s n v = modM (\<lambda>l. l @ [(s, n, v)])"

theorem conf_parse_entries_witness:
  "conf_parse (Some (''default = mc24'' @ [newline] @ ''[mc24]'' @ [newline] @ ''flash 0 = 0x10-0x1f'' @ [newline])) log_call [] =
   (Inr (), [(None, ''default'', ''mc24''), (Some ''mc24'', ''flash 0'', ''0x10-0x1f'')])"
  using conf_parse_entries [of "[(''default'', ''mc24'')]" "[(''mc24'', [(''flash 0'', ''0x10-0x1f'')])]" log_call]
  by (simp add: print_param_def print_section_def calls_def log_call_def act_simps good_name_def good_value_def
      good_section_def word_char_def isspace_def newline_def)

end
