(* ===== verification/Loader.thy ===== *)
theory Loader
  imports Clib
begin

text \<open>
  The file readers of mcprog.c and the software information of swinfo.c: \<open>read_srec\<close>,
  \<open>read_hex\<close>, \<open>read_bin\<close>, \<open>compute_checksum\<close>, \<open>find_info\<close>.

  The line buffer \<open>buf\<close> keeps what earlier lines left behind the NUL of the current one, and
  starts uninitialised. \<open>memory_data\<close> is a list of bytes; a store outside of it is
  \<open>Bad_access\<close>. Arithmetic on \<open>address\<close> is that of a 32-bit word, on \<open>bytes\<close> that of \<open>int\<close>.
\<close>

section \<open>Hexadecimal text\<close>

definition NIBBLE :: "char \<Rightarrow> int" where
  "NIBBLE c = (if isdigit c then int (code c) - 48 else int (tolower c) + 10 - 97)"

definition HEX :: "chars \<Rightarrow> nat \<Rightarrow> fault + int" where
  "HEX buf i = (case get_char buf i of
     Inl f \<Rightarrow> Inl f
   | Inr c \<Rightarrow> (case get_char buf (i + 1) of Inl f \<Rightarrow> Inl f | Inr d \<Rightarrow> Inr (NIBBLE c * 16 + NIBBLE d)))"

text \<open>\<open>isxdigit\<close> on \<open>n\<close> characters from a place on, up to the first that is none.\<close>

primrec xdigits :: "nat \<Rightarrow> chars \<Rightarrow> nat \<Rightarrow> fault + bool" where
  "xdigits 0 buf i = Inr True"
| "xdigits (Suc n) buf i = (case get_char buf i of
     Inl f \<Rightarrow> Inl f
   | Inr c \<Rightarrow> if isxdigit c then xdigits n buf (i + 1) else Inr False)"

definition set_line :: "chars \<Rightarrow> string \<Rightarrow> chars" where
  "set_line buf line = map Some (line @ [CHR 0x00]) @ drop (length line + 1) buf"

section \<open>The image\<close>

text \<open>\<open>memory_data\<close>, \<open>memory_base\<close> and the length that the reader has found so far.\<close>

record image =
  memory_data :: "u8 list"
  memory_base :: u32
  output_len :: int

definition MEMORY_SIZE :: nat where
  "MEMORY_SIZE = 0x1000000"

fun store_bytes :: "u8 list \<Rightarrow> u32 \<Rightarrow> u8 list \<Rightarrow> fault + (u8 list \<times> u32)" where
  "store_bytes mem address [] = Inr (mem, address)"
| "store_bytes mem address (b # bs) =
     (if unat address < length mem then store_bytes (mem[unat address := b]) (address + 1) bs
      else Inl Bad_access)"

text \<open>The automatic base, and the two checks of the address of a record.\<close>

definition auto_base :: "u32 \<Rightarrow> image \<Rightarrow> image" where
  "auto_base address im = (if memory_base im = 0 then im\<lparr>memory_base := address\<rparr> else im)"

definition record_offset :: "u32 \<Rightarrow> int \<Rightarrow> u32 \<Rightarrow> fault + u32" where
  "record_offset base bytes address =
     (if address < base then Inl (Exit 1 ''incorrect address'')
      else if unat (address - base + of_int bytes) > MEMORY_SIZE then Inl (Exit 1 ''address too large'')
      else Inr (address - base))"

definition extend :: "u32 \<Rightarrow> image \<Rightarrow> image" where
  "extend address im =
     (if output_len im < sint address then im\<lparr>output_len := sint address\<rparr> else im)"

section \<open>S records\<close>

text \<open>The address: the number of bytes depends on the type, the cases fall through.\<close>

primrec srec_address :: "nat \<Rightarrow> chars \<Rightarrow> nat \<Rightarrow> u32 \<Rightarrow> fault + u32" where
  "srec_address 0 buf d address = Inr address"
| "srec_address (Suc n) buf d address = (case HEX buf d of
     Inl f \<Rightarrow> Inl f
   | Inr h \<Rightarrow> srec_address n buf (d + 2) (push_bit 8 address OR of_int h))"

text \<open>\<open>while (bytes-- > 0)\<close>: a byte is converted and stored before the next is read.\<close>

primrec srec_data :: "nat \<Rightarrow> chars \<Rightarrow> nat \<Rightarrow> u8 list \<Rightarrow> u32 \<Rightarrow> fault + (u8 list \<times> u32)" where
  "srec_data 0 buf d mem address = Inr (mem, address)"
| "srec_data (Suc n) buf d mem address = (case HEX buf d of
     Inl f \<Rightarrow> Inl f
   | Inr h \<Rightarrow> (case store_bytes mem address [of_int h] of
       Inl f \<Rightarrow> Inl f
     | Inr (mem', address') \<Rightarrow> srec_data n buf (d + 2) mem' address'))"

definition srec_store :: "nat \<Rightarrow> chars \<Rightarrow> int \<Rightarrow> image \<Rightarrow> fault + image" where
  "srec_store alen buf bytes im = (case srec_address alen buf 4 0 of
     Inl f \<Rightarrow> Inl f
   | Inr address \<Rightarrow> let im = auto_base address im; bytes = bytes - int alen in
       case record_offset (memory_base im) bytes address of
         Inl f \<Rightarrow> Inl f
       | Inr offset \<Rightarrow> (case srec_data (nat bytes) buf (4 + 2 * alen) (memory_data im) offset of
           Inl f \<Rightarrow> Inl f
         | Inr (mem, offset') \<Rightarrow> Inr (extend offset' (im\<lparr>memory_data := mem\<rparr>))))"

text \<open>One line; \<open>False\<close> is the \<open>break\<close>.\<close>

definition srec_line :: "chars \<Rightarrow> image \<Rightarrow> fault + (bool \<times> image)" where
  "srec_line buf im = (case get_char buf 0 of
     Inl f \<Rightarrow> Inl f
   | Inr c0 \<Rightarrow>
     if c0 = newline then Inr (True, im)
     else if c0 \<noteq> CHR ''S'' then
       (if output_len im = 0 then Inr (False, im) else Inl (Exit 1 ''bad file format''))
     else (case get_char buf 1 of
       Inl f \<Rightarrow> Inl f
     | Inr c1 \<Rightarrow>
       if c1 = CHR ''7'' \<or> c1 = CHR ''8'' \<or> c1 = CHR ''9'' then Inr (False, im)
       else (case xdigits 2 buf 2 of
         Inl f \<Rightarrow> Inl f
       | Inr False \<Rightarrow> Inl (Exit 1 ''bad record'')
       | Inr True \<Rightarrow> (case HEX buf 2 of
           Inl f \<Rightarrow> Inl f
         | Inr bytes \<Rightarrow>
           if c1 = CHR ''3'' \<or> c1 = CHR ''2'' \<or> c1 = CHR ''1'' then
             (case srec_store (if c1 = CHR ''3'' then 4 else if c1 = CHR ''2'' then 3 else 2)
                 buf (bytes - 1) im of
                Inl f \<Rightarrow> Inl f
              | Inr im' \<Rightarrow> Inr (True, im'))
           else Inr (True, im)))))"

function srec_lines :: "chars \<Rightarrow> image \<Rightarrow> string \<Rightarrow> fault + image" where
  "srec_lines buf im cs =
     (if fst (fgets 255 cs) = [] then Inr im
      else case srec_line (set_line buf (fst (fgets 255 cs))) im of
        Inl f \<Rightarrow> Inl f
      | Inr (go, im') \<Rightarrow>
          if go then srec_lines (set_line buf (fst (fgets 255 cs))) im' (snd (fgets 255 cs))
          else Inr im')"
  by pat_completeness auto
termination
  by (relation "measure (\<lambda>(buf, im, cs). length cs)")
    (auto intro: fgets_shorter [OF prod.collapse [symmetric]])

definition read_srec :: "string option \<Rightarrow> image \<Rightarrow> fault + image" where
  "read_srec file im = (case file of
     None \<Rightarrow> Inl (Exit 1 ''cannot open'')
   | Some cs \<Rightarrow> srec_lines (replicate 256 None) (im\<lparr>output_len := 0\<rparr>) cs)"

section \<open>HEX files\<close>

text \<open>The data bytes of a line go to the array \<open>data [16]\<close>.\<close>

primrec hex_data :: "nat \<Rightarrow> chars \<Rightarrow> nat \<Rightarrow> u8 list \<Rightarrow> fault + u8 list" where
  "hex_data 0 buf d bs = Inr bs"
| "hex_data (Suc n) buf d bs = (case HEX buf d of
     Inl f \<Rightarrow> Inl f
   | Inr h \<Rightarrow> if length bs < 16 then hex_data n buf (d + 2) (bs @ [of_int h]) else Inl Bad_access)"

definition hex_sum :: "u8 \<Rightarrow> int \<Rightarrow> u32 \<Rightarrow> u8 list \<Rightarrow> u8" where
  "hex_sum record_type bytes address bs =
     sum_list bs + (record_type + of_int bytes + ucast address + ucast (drop_bit 8 address))"

definition hex_store :: "u32 \<Rightarrow> u8 list \<Rightarrow> image \<Rightarrow> fault + image" where
  "hex_store address bs im = (let im = auto_base address im in
     case record_offset (memory_base im) (int (length bs)) address of
       Inl f \<Rightarrow> Inl f
     | Inr offset \<Rightarrow> (case store_bytes (memory_data im) offset bs of
         Inl f \<Rightarrow> Inl f
       | Inr (mem, offset') \<Rightarrow> Inr (extend offset' (im\<lparr>memory_data := mem\<rparr>))))"

text \<open>The part of a line after its first nine characters have been checked.\<close>

definition hex_record :: "chars \<Rightarrow> u8 \<Rightarrow> int \<Rightarrow> u32 \<Rightarrow> u32 \<Rightarrow> image \<Rightarrow> fault + (u32 \<times> image)" where
  "hex_record buf record_type bytes address high im =
     (if odd bytes then Inl (Exit 1 ''odd length'')
      else case string_at buf 0 of
        Inl f \<Rightarrow> Inl f
      | Inr text \<Rightarrow>
        if int (length text) < bytes * 2 + 11 then Inl (Exit 1 ''too short hex line'')
        else if address AND 3 \<noteq> 0 then Inl (Exit 1 ''odd address'')
        else case hex_data (nat bytes) buf 9 [] of
          Inl f \<Rightarrow> Inl f
        | Inr bs \<Rightarrow> (case HEX buf (9 + 2 * nat bytes) of
            Inl f \<Rightarrow> Inl f
          | Inr chk \<Rightarrow>
            if hex_sum record_type bytes address bs \<noteq> - of_int chk then Inl (Exit 1 ''bad hex checksum'')
            else if record_type = 4 then
              (if bytes \<noteq> 2 then Inl (Exit 1 ''invalid hex linear address record length'')
               else Inr (push_bit 8 (ucast (bs ! 0)) OR ucast (bs ! 1), im))
            else if record_type \<noteq> 0 then Inl (Exit 1 ''unknown hex record type'')
            else (case hex_store address bs im of Inl f \<Rightarrow> Inl f | Inr im' \<Rightarrow> Inr (high, im'))))"

definition hex_line :: "chars \<Rightarrow> u32 \<Rightarrow> image \<Rightarrow> fault + (bool \<times> u32 \<times> image)" where
  "hex_line buf high im = (case get_char buf 0 of
     Inl f \<Rightarrow> Inl f
   | Inr c0 \<Rightarrow>
     if c0 = newline then Inr (True, high, im)
     else if c0 \<noteq> CHR '':'' then
       (if output_len im = 0 then Inr (False, high, im) else Inl (Exit 1 ''bad HEX file format''))
     else (case xdigits 8 buf 1 of
       Inl f \<Rightarrow> Inl f
     | Inr False \<Rightarrow> Inl (Exit 1 ''bad record'')
     | Inr True \<Rightarrow> (case HEX buf 7 of
         Inl f \<Rightarrow> Inl f
       | Inr t \<Rightarrow>
         if (of_int t :: u8) = 1 then Inr (False, high, im)
         else if (of_int t :: u8) = 5 then Inr (True, high, im)
         else (case HEX buf 1 of
           Inl f \<Rightarrow> Inl f
         | Inr bytes \<Rightarrow> (case HEX buf 3 of
             Inl f \<Rightarrow> Inl f
           | Inr a1 \<Rightarrow> (case HEX buf 5 of
               Inl f \<Rightarrow> Inl f
             | Inr a0 \<Rightarrow> (case hex_record buf (of_int t) bytes
                   (push_bit 16 high OR push_bit 8 (of_int a1) OR of_int a0) high im of
                 Inl f \<Rightarrow> Inl f
               | Inr (high', im') \<Rightarrow> Inr (True, high', im'))))))))"

function hex_lines :: "chars \<Rightarrow> u32 \<Rightarrow> image \<Rightarrow> string \<Rightarrow> fault + image" where
  "hex_lines buf high im cs =
     (if fst (fgets 255 cs) = [] then Inr im
      else case hex_line (set_line buf (fst (fgets 255 cs))) high im of
        Inl f \<Rightarrow> Inl f
      | Inr (go, high', im') \<Rightarrow>
          if go then hex_lines (set_line buf (fst (fgets 255 cs))) high' im' (snd (fgets 255 cs))
          else Inr im')"
  by pat_completeness auto
termination
  by (relation "measure (\<lambda>(buf, high, im, cs). length cs)")
    (auto intro: fgets_shorter [OF prod.collapse [symmetric]])

definition read_hex :: "string option \<Rightarrow> image \<Rightarrow> fault + image" where
  "read_hex file im = (case file of
     None \<Rightarrow> Inl (Exit 1 ''cannot open'')
   | Some cs \<Rightarrow> hex_lines (replicate 256 None) 0 (im\<lparr>output_len := 0\<rparr>) cs)"

declare srec_lines.simps [simp del] hex_lines.simps [simp del]

section \<open>Binary files\<close>

definition read_bin :: "string option \<Rightarrow> image \<Rightarrow> fault + image" where
  "read_bin file im = (case file of
     None \<Rightarrow> Inl (Exit 1 ''cannot open'')
   | Some cs \<Rightarrow> let bs = take MEMORY_SIZE (map (of_nat \<circ> code) cs) in
       Inr (im\<lparr>memory_data := bs @ drop (length bs) (memory_data im), output_len := int (length bs)\<rparr>))"

section \<open>Checksum and software information\<close>

primrec compute_checksum :: "u32 \<Rightarrow> u8 list \<Rightarrow> u32" where
  "compute_checksum acc [] = acc"
| "compute_checksum acc (b # bs) = (let s = acc + ucast b in
     compute_checksum (s - (push_bit 13 s OR drop_bit 19 s)) bs)"

text \<open>The label with its NUL, and the place of the first label in an area.\<close>

definition INFO_LABEL :: "u8 list" where
  "INFO_LABEL = [0x5e, 0x53, 0x49, 0x4e, 0x46, 0x4f, 0x5e]"

text \<open>\<open>strcmp (p, label) == 0\<close>: all characters and the NUL agree.\<close>

definition is_label :: "u8 list \<Rightarrow> bool" where
  "is_label p \<longleftrightarrow> take 8 p = INFO_LABEL @ [0]"

text \<open>
  \<open>memchr\<close> looks at \<open>area_size - (found_label - area)\<close> bytes; \<open>strcmp\<close> may read past the
  area, into the rest of the object.
\<close>

primrec find_info_from :: "nat \<Rightarrow> u8 list \<Rightarrow> nat \<Rightarrow> nat option" where
  "find_info_from 0 p i = None"
| "find_info_from (Suc n) p i =
     (if take 1 p = take 1 INFO_LABEL \<and> is_label p then Some i else find_info_from n (tl p) (i + 1))"

definition find_info :: "u8 list \<Rightarrow> nat \<Rightarrow> nat option" where
  "find_info area area_size = find_info_from area_size area 0"

end
