(* ===== verification/Loader_Props.thy ===== *)
theory Loader_Props
  imports Loader
begin

text \<open>
  What the file readers load: S-record and HEX files that were written for an image give the
  image back; what a damaged or hostile file does.
\<close>

section \<open>Writing bytes in hexadecimal\<close>

definition hex_digit :: "nat \<Rightarrow> char" where
  "hex_digit i = ''0123456789ABCDEF'' ! i"

definition hex_byte :: "u8 \<Rightarrow> string" where
  "hex_byte b = [hex_digit (unat b div 16), hex_digit (unat b mod 16)]"

definition hex_bytes :: "u8 list \<Rightarrow> string" where
  "hex_bytes bs = concat (map hex_byte bs)"

lemma hex_bytes_simps [simp]:
  "hex_bytes [] = []" "hex_bytes (b # bs) = hex_byte b @ hex_bytes bs"
  "hex_bytes (bs @ cs) = hex_bytes bs @ hex_bytes cs"
  by (simp_all add: hex_bytes_def)

lemma length_hex_byte [simp]: "length (hex_byte b) = 2"
  by (simp add: hex_byte_def)

lemma length_hex_bytes [simp]: "length (hex_bytes bs) = 2 * length bs"
  by (induction bs) simp_all

lemma hex_digit_facts:
  assumes "i < 16"
  shows "NIBBLE (hex_digit i) = int i" and "isxdigit (hex_digit i)" and "hex_digit i \<noteq> CHR 0x00"
    and "hex_digit i \<noteq> newline"
proof -
  have "i \<in> set [0..<16]"
    using assms by simp
  moreover have "\<forall>i \<in> set [0..<16]. NIBBLE (hex_digit i) = int i \<and> isxdigit (hex_digit i) \<and>
      hex_digit i \<noteq> CHR 0x00 \<and> hex_digit i \<noteq> newline"
    by code_simp
  ultimately show "NIBBLE (hex_digit i) = int i" "isxdigit (hex_digit i)" "hex_digit i \<noteq> CHR 0x00"
    "hex_digit i \<noteq> newline" by auto
qed

lemma byte_parts: "unat (b :: u8) div 16 < 16" "unat b mod 16 < 16"
  using unat_less_256 [of b] by (auto simp: less_mult_imp_div_less)

lemma hex_bytes_chars: "c \<in> set (hex_bytes bs) \<Longrightarrow> c \<noteq> CHR 0x00 \<and> c \<noteq> newline"
  using hex_digit_facts byte_parts by (auto simp: hex_bytes_def hex_byte_def)

lemma hex_byte_chars: "CHR 0x00 \<notin> set (hex_byte b)" "newline \<notin> set (hex_byte b)"
  using hex_bytes_chars [of _ "[b]"] by auto

section \<open>Reading them from the buffer\<close>

lemma holds_append: "holds b i (s @ t) \<Longrightarrow> holds b i s \<and> holds b (i + length s) t"
  by (drule holds_split) (auto simp: holds_def add.commute [of i] simp flip: drop_drop)

lemma HEX_byte: "holds buf i (hex_byte b) \<Longrightarrow> HEX buf i = Inr (uint b)"
proof -
  assume h: "holds buf i (hex_byte b)"
  have "int (unat b div 16) * 16 + int (unat b mod 16) = uint b"
    using div_mult_mod_eq [of "unat b" 16] by (metis of_nat_add of_nat_mult of_nat_numeral uint_nat)
  then show ?thesis
    using holds_get [OF h, of 0] holds_get [OF h, of 1] hex_digit_facts(1) [OF byte_parts(1)]
      hex_digit_facts(1) [OF byte_parts(2)]
    by (simp add: HEX_def hex_byte_def)
qed

lemma xdigits_bytes: "holds buf i (hex_bytes bs) \<Longrightarrow> xdigits (2 * length bs) buf i = Inr True"
proof (induction bs arbitrary: i)
  case (Cons b bs)
  have h: "holds buf i (hex_byte b)" "holds buf (i + 2) (hex_bytes bs)"
    using holds_append [of buf i "hex_byte b" "hex_bytes bs"] Cons.prems by simp_all
  show ?case
    using Cons.IH [OF h(2)] holds_get [OF h(1), of 0] holds_get [OF h(1), of 1]
      hex_digit_facts(2) [OF byte_parts(1)] hex_digit_facts(2) [OF byte_parts(2)]
    by (simp add: hex_byte_def)
qed simp

lemma holds_line: "holds (set_line buf l) 0 (l @ [CHR 0x00])"
  by (simp add: set_line_def holds_def)

section \<open>Storing\<close>

definition patch :: "u8 list \<Rightarrow> nat \<Rightarrow> u8 list \<Rightarrow> u8 list" where
  "patch mem i bs = take i mem @ bs @ drop (i + length bs) mem"

lemma length_patch [simp]: "i + length bs \<le> length mem \<Longrightarrow> length (patch mem i bs) = length mem"
  by (simp add: patch_def)

lemma patch_Cons: "i < length mem \<Longrightarrow> patch (mem[i := b]) (Suc i) bs = patch mem i (b # bs)"
  by (simp add: patch_def take_Suc_conv_app_nth)

lemma store_bytes_patch:
  "unat a + length bs \<le> length mem \<Longrightarrow> length mem < 2 ^ 32 \<Longrightarrow>
   store_bytes mem a bs = Inr (patch mem (unat a) bs, a + of_nat (length bs))"
proof (induction bs arbitrary: a mem)
  case (Cons b bs)
  have a: "unat (a + 1) = Suc (unat a)"
    using Cons.prems by (simp add: unat_word_ariths)
  have "store_bytes (mem[unat a := b]) (a + 1) bs =
      Inr (patch (mem[unat a := b]) (Suc (unat a)) bs, a + 1 + of_nat (length bs))"
    using Cons.IH [of "a + 1" "mem[unat a := b]"] Cons.prems by (simp add: a)
  then show ?case
    using Cons.prems patch_Cons [of "unat a" mem b bs] by (simp add: add.assoc)
qed (simp add: patch_def)

lemma srec_data_store:
  "holds buf d (hex_bytes bs) \<Longrightarrow> srec_data (length bs) buf d mem a = store_bytes mem a bs"
proof (induction bs arbitrary: d mem a)
  case (Cons b bs)
  have h: "holds buf d (hex_byte b)" "holds buf (d + 2) (hex_bytes bs)"
    using holds_append [of buf d "hex_byte b" "hex_bytes bs"] Cons.prems by simp_all
  show ?case
    using Cons.IH [OF h(2)] HEX_byte [OF h(1)] by simp
qed simp

lemma hex_data_bytes:
  "holds buf d (hex_bytes bs) \<Longrightarrow> length acc + length bs \<le> 16 \<Longrightarrow> hex_data (length bs) buf d acc = Inr (acc @ bs)"
proof (induction bs arbitrary: d acc)
  case (Cons b bs)
  have h: "holds buf d (hex_byte b)" "holds buf (d + 2) (hex_bytes bs)"
    using holds_append [of buf d "hex_byte b" "hex_bytes bs"] Cons.prems by simp_all
  show ?case
    using Cons.IH [OF h(2), of "acc @ [b]"] HEX_byte [OF h(1)] Cons.prems(2) by simp
qed simp

text \<open>What a record does to the image, and when it does it.\<close>

definition base_of :: "u32 \<Rightarrow> image \<Rightarrow> u32" where
  "base_of a im = (if memory_base im = 0 then a else memory_base im)"

definition place :: "image \<Rightarrow> u32 \<times> u8 list \<Rightarrow> image" where
  "place im r = (case r of (a, bs) \<Rightarrow> let i = unat (a - base_of a im) in
     im\<lparr>memory_base := base_of a im, memory_data := patch (memory_data im) i bs,
       output_len := max (output_len im) (int (i + length bs))\<rparr>)"

definition fits :: "image \<Rightarrow> u32 \<times> u8 list \<Rightarrow> bool" where
  "fits im r = (case r of (a, bs) \<Rightarrow> base_of a im \<le> a \<and> unat (a - base_of a im) + length bs \<le> MEMORY_SIZE \<and>
     length (memory_data im) = MEMORY_SIZE)"

primrec all_fit :: "image \<Rightarrow> (u32 \<times> u8 list) list \<Rightarrow> bool" where
  "all_fit im [] = True"
| "all_fit im (r # rs) = (fits im r \<and> all_fit (place im r) rs)"

lemma sint_small:
  assumes "unat (a :: u32) \<le> MEMORY_SIZE" shows "sint a = int (unat a)"
proof -
  have "unat a < 2 ^ 31"
    using assms unfolding MEMORY_SIZE_def by simp
  then have "int (unat a) < int (2 ^ 31)"
    by (simp only: of_nat_less_iff)
  then have "uint a < 2 ^ 31"
    by (simp only: uint_nat) simp
  then have "signed_take_bit 31 (uint a) = uint a"
    by (intro signed_take_bit_int_eq_self) (simp_all add: order_trans [OF _ uint_ge_0])
  then show ?thesis
    by (simp only: sint_uint len_num1 uint_nat) simp
qed

lemma store_record:
  assumes "fits im (a, bs)"
  shows "record_offset (memory_base (auto_base a im)) (int (length bs)) a = Inr (a - base_of a im)"
    and "store_bytes (memory_data im) (a - base_of a im) bs =
      Inr (patch (memory_data im) (unat (a - base_of a im)) bs, a - base_of a im + of_nat (length bs))"
    and "extend (a - base_of a im + of_nat (length bs)) ((auto_base a im)\<lparr>memory_data :=
        patch (memory_data im) (unat (a - base_of a im)) bs\<rparr>) = place im (a, bs)"
proof -
  let ?o = "a - base_of a im"
  have f: "base_of a im \<le> a" "unat ?o + length bs \<le> MEMORY_SIZE" "length (memory_data im) = MEMORY_SIZE"
    using assms by (simp_all add: fits_def)
  have b: "memory_base (auto_base a im) = base_of a im"
    by (simp add: auto_base_def base_of_def)
  have u: "unat (?o + of_nat (length bs)) = unat ?o + length bs"
    using f(2) by (simp add: unat_word_ariths MEMORY_SIZE_def unsigned_of_nat take_bit_nat_eq_self)
  show "record_offset (memory_base (auto_base a im)) (int (length bs)) a = Inr ?o"
    using f u unfolding b record_offset_def by (auto simp: not_less)
  show "store_bytes (memory_data im) ?o bs = Inr (patch (memory_data im) (unat ?o) bs, ?o + of_nat (length bs))"
    using f by (intro store_bytes_patch) (simp_all add: MEMORY_SIZE_def)
  show "extend (?o + of_nat (length bs)) ((auto_base a im)\<lparr>memory_data := patch (memory_data im) (unat ?o) bs\<rparr>) =
      place im (a, bs)"
  proof -
    have s: "sint (?o + of_nat (length bs)) = int (unat ?o + length bs)"
      using sint_small [of "?o + of_nat (length bs)"] f(2) u by simp
    show ?thesis
      unfolding extend_def place_def s Let_def prod.case
      by (cases im) (auto simp: auto_base_def base_of_def max_def)
  qed
qed

section \<open>S records\<close>

definition address_bytes :: "u32 \<Rightarrow> u8 list" where
  "address_bytes a = map (\<lambda>i. ucast (drop_bit (8 * i) a)) [3, 2, 1, 0]"

text \<open>An S3 record; the checksum may be any byte, the reader ignores it.\<close>

definition srec_record :: "u8 \<Rightarrow> u32 \<times> u8 list \<Rightarrow> string" where
  "srec_record chk r = (case r of (a, bs) \<Rightarrow>
     ''S3'' @ hex_byte (of_nat (length bs + 5)) @ hex_bytes (address_bytes a @ bs @ [chk]))"

lemma length_address_bytes: "length (address_bytes a) = 4"
  by (simp add: address_bytes_def)

lemma address_of_bytes:
  "foldl (\<lambda>x b. push_bit 8 x OR ucast b) (0 :: u32) (address_bytes a) = a"
proof (rule bit_word_eqI)
  fix n
  assume n: "n < LENGTH(32)"
  consider "n < 8" | "8 \<le> n" "n < 16" | "16 \<le> n" "n < 24" | "24 \<le> n"
    by linarith
  then show "bit (foldl (\<lambda>x b. push_bit 8 x OR ucast b) (0 :: u32) (address_bytes a)) n \<longleftrightarrow> bit a n"
    using n by cases (auto simp: address_bytes_def bit_simps)
qed

lemma srec_address_bytes:
  "holds buf d (hex_bytes bs) \<Longrightarrow>
   srec_address (length bs) buf d x = Inr (foldl (\<lambda>x b. push_bit 8 x OR ucast b) x bs)"
proof (induction bs arbitrary: d x)
  case (Cons b bs)
  have h: "holds buf d (hex_byte b)" "holds buf (d + 2) (hex_bytes bs)"
    using holds_append [of buf d "hex_byte b" "hex_bytes bs"] Cons.prems by simp_all
  show ?case
    using Cons.IH [OF h(2)] HEX_byte [OF h(1)] by simp
qed simp

lemma uint_of_nat8: "n < 256 \<Longrightarrow> uint (of_nat n :: u8) = int n"
  by (simp add: uint_nat unsigned_of_nat take_bit_nat_eq_self)

lemma srec_record_store:
  assumes "length bs \<le> 120"
  shows "srec_line (set_line buf (srec_record chk (a, bs) @ [newline])) im =
    (case record_offset (memory_base (auto_base a im)) (int (length bs)) a of
       Inl f \<Rightarrow> Inl f
     | Inr offset \<Rightarrow> (case store_bytes (memory_data im) offset bs of
         Inl f \<Rightarrow> Inl f
       | Inr (mem, offset') \<Rightarrow> Inr (True, extend offset' ((auto_base a im)\<lparr>memory_data := mem\<rparr>))))"
    (is "_ = ?r")
proof -
  let ?buf = "set_line buf (srec_record chk (a, bs) @ [newline])"
  let ?len = "of_nat (length bs + 5) :: u8"
  have l: "uint ?len = int (length bs + 5)"
    using assms by (intro uint_of_nat8) simp
  have "holds ?buf 0 (''S3'' @ hex_byte ?len @ hex_bytes (address_bytes a) @ hex_bytes bs @ hex_bytes [chk] @ [newline, CHR 0x00])"
    using holds_line [of buf "srec_record chk (a, bs) @ [newline]"] by (simp add: srec_record_def)
  note h0 = holds_append [OF this]
  note h1 = holds_append [OF h0 [THEN conjunct2]]
  note h2 = holds_append [OF h1 [THEN conjunct2]]
  note h3 = holds_append [OF h2 [THEN conjunct2], THEN conjunct1]
  have h: "holds ?buf 0 ''S3''" and h1: "holds ?buf 2 (hex_byte ?len)"
    and h2: "holds ?buf 4 (hex_bytes (address_bytes a))" and h3: "holds ?buf 12 (hex_bytes bs)"
    using h0 h1 h2 h3 by (simp_all add: address_bytes_def numeral_eq_Suc del: hex_bytes_simps)
  have x: "xdigits 2 ?buf 2 = Inr True"
    using xdigits_bytes [of ?buf 2 "[?len]"] h1 by simp
  have "(case srec_store 4 ?buf (int (length bs + 5) - 1) im of Inl f \<Rightarrow> Inl f | Inr im' \<Rightarrow> Inr (True, im')) = ?r"
  proof -
    have a: "srec_address 4 ?buf 4 0 = Inr a"
      using srec_address_bytes [OF h2, of 0] by (simp only: length_address_bytes address_of_bytes)
    have n: "int (length bs + 5) - 1 - int 4 = int (length bs)" "4 + 2 * 4 = (12 :: nat)"
      by simp_all
    have m: "memory_data (auto_base a im) = memory_data im"
      by (simp add: auto_base_def)
    show ?thesis
      unfolding srec_store_def Let_def a n m nat_int srec_data_store [OF h3] sum.case
      by (simp split: sum.split)
  qed
  then show ?thesis
    using holds_get [OF h, of 0] holds_get [OF h, of 1] x HEX_byte [OF h1] l
    by (simp add: srec_line_def)
qed

lemma srec_record_line:
  assumes "fits im (a, bs)" and "length bs \<le> 120"
  shows "srec_line (set_line buf (srec_record chk (a, bs) @ [newline])) im = Inr (True, place im (a, bs))"
  by (simp only: srec_record_store [OF assms(2)] store_record [OF assms(1)] sum.case prod.case)

lemma srec_record_chars:
  "length bs \<le> 120 \<Longrightarrow> newline \<notin> set (srec_record chk (a, bs)) \<and> length (srec_record chk (a, bs)) < 255"
  by (auto simp: srec_record_def hex_byte_chars address_bytes_def dest: hex_bytes_chars)

lemma place_output [simp]: "all_fit (im\<lparr>output_len := n\<rparr>) rs = all_fit im rs"
proof (induction rs arbitrary: im n)
  case (Cons r rs)
  obtain a bs where r: "r = (a, bs)"
    by fastforce
  have "fits (im\<lparr>output_len := n\<rparr>) r = fits im r"
    by (simp add: r fits_def base_of_def)
  moreover have "place (im\<lparr>output_len := n\<rparr>) r =
      (place im r)\<lparr>output_len := output_len (place (im\<lparr>output_len := n\<rparr>) r)\<rparr>"
    by (simp add: r place_def base_of_def Let_def)
  ultimately show ?case
    using Cons.IH by (metis all_fit.simps(2))
qed simp

text \<open>
  C20: a file of S3 records of at most 120 data bytes, each on a line of its own and
  within the memory, loads exactly their data: byte for byte at the distance of the address from
  the base, which is the first address if none was set; the length is the end of the record that
  reaches farthest. What follows a termination record is ignored.
\<close>

theorem srec_roundtrip:
  assumes "all_fit im rs" and "\<forall>r \<in> set rs. length (snd r) \<le> 120"
  shows "read_srec (Some (concat (map (\<lambda>r. srec_record chk r @ [newline]) rs) @ ''S7'' @ rest)) im =
    Inr (foldl place (im\<lparr>output_len := 0\<rparr>) rs)"
proof -
  have "srec_lines buf im (concat (map (\<lambda>r. srec_record chk r @ [newline]) rs) @ ''S7'' @ rest) = Inr (foldl place im rs)"
    if "all_fit im rs" for buf im
    using that assms(2)
  proof (induction rs arbitrary: buf im)
    case Nil
    let ?l = "fst (fgets 255 (CHR ''S'' # CHR ''7'' # rest))"
    obtain t where t: "?l = CHR ''S'' # CHR ''7'' # t"
      by (cases "fgets 253 rest") (simp add: numeral_eq_Suc newline_def)
    have "holds (set_line buf ?l) 0 (''S7'' @ t @ [CHR 0x00])"
      using holds_line [of buf ?l] by (simp add: t)
    then have h: "holds (set_line buf ?l) 0 ''S7''"
      using holds_append by blast
    have "srec_line (set_line buf ?l) im = Inr (False, im)"
      using holds_get [OF h, of 0] holds_get [OF h, of 1] by (simp add: srec_line_def newline_def)
    then show ?case
      by (subst srec_lines.simps) (simp add: t)
  next
    case (Cons r rs)
    obtain a bs where r: "r = (a, bs)"
      by fastforce
    have f: "fits im (a, bs)" "length bs \<le> 120"
      using Cons.prems r by auto
    let ?l = "srec_record chk (a, bs)"
    let ?t = "concat (map (\<lambda>r. srec_record chk r @ [newline]) rs) @ ''S7'' @ rest"
    have g: "fgets 255 (?l @ newline # ?t) = (?l @ [newline], ?t)"
      using srec_record_chars [OF f(2)] by (intro fgets_line) simp_all
    show ?case
      using srec_record_line [OF f] Cons.IH [of "place im (a, bs)"] Cons.prems
      using g by (subst srec_lines.simps) (simp add: r)
  qed
  then show ?thesis
    using assms(1) by (simp add: read_srec_def)
qed

section \<open>HEX records\<close>

text \<open>Data at an address within the current 64 Kbytes, and the choice of these 64 Kbytes.\<close>

datatype hex_entry = Data u16 "u8 list" | Extend u16

definition hex_text :: "u8 \<Rightarrow> u16 \<Rightarrow> u8 list \<Rightarrow> string" where
  "hex_text t a bs = (let hdr = [of_nat (length bs), ucast (drop_bit 8 a), ucast a, t] in
     CHR '':'' # hex_bytes (hdr @ bs @ [- sum_list (hdr @ bs)]))"

primrec entry_text :: "hex_entry \<Rightarrow> string" where
  "entry_text (Data a bs) = hex_text 0 a bs"
| "entry_text (Extend h) = hex_text 4 0 [ucast (drop_bit 8 h), ucast h]"

definition data_address :: "u32 \<Rightarrow> u16 \<Rightarrow> u32" where
  "data_address high a = push_bit 16 high OR ucast a"

primrec entry_ok :: "u32 \<times> image \<Rightarrow> hex_entry \<Rightarrow> bool" where
  "entry_ok hi (Data a bs) = (even (length bs) \<and> length bs \<le> 16 \<and> a AND 3 = 0 \<and>
     fits (snd hi) (data_address (fst hi) a, bs))"
| "entry_ok hi (Extend h) = True"

primrec put_entry :: "u32 \<times> image \<Rightarrow> hex_entry \<Rightarrow> u32 \<times> image" where
  "put_entry hi (Data a bs) = (fst hi, place (snd hi) (data_address (fst hi) a, bs))"
| "put_entry hi (Extend h) = (ucast h, snd hi)"

primrec entries_ok :: "u32 \<times> image \<Rightarrow> hex_entry list \<Rightarrow> bool" where
  "entries_ok hi [] = True"
| "entries_ok hi (e # es) = (entry_ok hi e \<and> entries_ok (put_entry hi e) es)"

lemma hex_address:
  fixes a :: u16 and high :: u32
  defines "x \<equiv> push_bit 16 high OR push_bit 8 (ucast (ucast (drop_bit 8 a) :: u8)) OR ucast (ucast a :: u8)"
  shows "x = data_address high a" and "(ucast x :: u8) = ucast a" and "(ucast (drop_bit 8 x) :: u8) = ucast (drop_bit 8 a)"
    and "a AND 3 = 0 \<Longrightarrow> x AND 3 = 0"
proof -
  show x: "x = data_address high a"
  proof (rule bit_word_eqI)
    fix n
    assume n: "n < LENGTH(32)"
    consider "n < 8" | "8 \<le> n" "n < 16" | "16 \<le> n"
      by linarith
    then show "bit x n \<longleftrightarrow> bit (data_address high a) n"
      using n by cases (auto simp: x_def data_address_def bit_simps dest: bit_imp_le_length)
  qed
  show "(ucast x :: u8) = ucast a" "(ucast (drop_bit 8 x) :: u8) = ucast (drop_bit 8 a)"
    unfolding x data_address_def by (auto simp: bit_simps intro!: bit_word_eqI)
  assume "a AND 3 = 0"
  moreover have "data_address high a AND mask 2 = ucast (a AND mask 2)"
    by (rule bit_word_eqI) (auto simp: data_address_def bit_simps)
  then have "data_address high a AND 3 = ucast (a AND 3)"
    by (simp add: mask_eq_exp_minus_1)
  ultimately show "x AND 3 = 0"
    by (simp add: x)
qed

text \<open>The line of an entry, in the buffer.\<close>

lemma hex_text_line:
  fixes a :: u16 and buf t bs
  assumes "length bs < 256"
  defines "b \<equiv> set_line buf (hex_text t a bs @ [newline])"
  shows "get_char b 0 = Inr CHR '':''" and "xdigits 8 b 1 = Inr True" and "HEX b 7 = Inr (uint t)"
    and "HEX b 1 = Inr (int (length bs))" and "HEX b 3 = Inr (uint (ucast (drop_bit 8 a) :: u8))"
    and "HEX b 5 = Inr (uint (ucast a :: u8))" and "length bs \<le> 16 \<Longrightarrow> hex_data (length bs) b 9 [] = Inr bs"
    and "HEX b (9 + 2 * length bs) = Inr (uint (- (sum_list bs + (t + of_nat (length bs) + ucast a + ucast (drop_bit 8 a)))))"
    and "\<exists>text. string_at b 0 = Inr text \<and> length text = 12 + 2 * length bs"
    and "holds b 9 (hex_bytes bs)"
proof -
  let ?hdr = "[of_nat (length bs), ucast (drop_bit 8 a), ucast a, t] :: u8 list"
  obtain chk where chk: "chk = - sum_list (?hdr @ bs)"
    by simp
  have str: "hex_text t a bs = CHR '':'' # hex_bytes (?hdr @ bs @ [chk])"
    by (simp only: hex_text_def Let_def chk)
  have "holds b 0 ('':'' @ hex_bytes ?hdr @ hex_bytes bs @ hex_byte chk @ [newline, CHR 0x00])"
    using holds_line [of buf "hex_text t a bs @ [newline]"] by (simp add: b_def str)
  note h0 = holds_append [OF this]
  note h1 = holds_append [OF h0 [THEN conjunct2]]
  note h2 = holds_append [OF h1 [THEN conjunct2]]
  note h3 = holds_append [OF h2 [THEN conjunct2], THEN conjunct1]
  have c: "holds b 0 '':''" and hdr: "holds b 1 (hex_bytes ?hdr)" and d: "holds b 9 (hex_bytes bs)"
    and k: "holds b (9 + 2 * length bs) (hex_byte chk)"
    using h0 h1 h2 h3 by (simp_all add: numeral_eq_Suc del: hex_bytes_simps)
  show "get_char b 0 = Inr CHR '':''"
    using holds_get [OF c, of 0] by simp
  show "xdigits 8 b 1 = Inr True"
    using xdigits_bytes [OF hdr] by simp
  have "holds b 1 (hex_byte (of_nat (length bs)) @ hex_byte (ucast (drop_bit 8 a)) @ hex_byte (ucast a) @ hex_byte t)"
    using hdr by simp
  note g0 = holds_append [OF this]
  note g1 = holds_append [OF g0 [THEN conjunct2]]
  note g2 = holds_append [OF g1 [THEN conjunct2]]
  have g: "holds b 1 (hex_byte (of_nat (length bs)))" "holds b 3 (hex_byte (ucast (drop_bit 8 a)))"
    "holds b 5 (hex_byte (ucast a))" "holds b 7 (hex_byte t)"
    using g0 g1 g2 by (simp_all add: numeral_eq_Suc)
  show "HEX b 7 = Inr (uint t)" "HEX b 3 = Inr (uint (ucast (drop_bit 8 a) :: u8))" "HEX b 5 = Inr (uint (ucast a :: u8))"
    by (rule HEX_byte, rule g)+
  show "HEX b 1 = Inr (int (length bs))"
    using HEX_byte [OF g(1)] uint_of_nat8 [of "length bs"] assms(1) by simp
  show "holds b 9 (hex_bytes bs)"
    by (rule d)
  show "hex_data (length bs) b 9 [] = Inr bs" if "length bs \<le> 16"
    using hex_data_bytes [OF d, of "[]"] that by simp
  have "sum_list (?hdr @ bs) = sum_list bs + (t + of_nat (length bs) + ucast a + ucast (drop_bit 8 a))"
    by (simp add: ac_simps)
  then show "HEX b (9 + 2 * length bs) = Inr (uint (- (sum_list bs + (t + of_nat (length bs) + ucast a + ucast (drop_bit 8 a)))))"
    using HEX_byte [OF k] chk by metis
  have "CHR 0x00 \<notin> set (hex_text t a bs @ [newline])"
    by (auto simp: str hex_byte_chars dest: hex_bytes_chars)
  from string_at_holds [OF _ this] show "\<exists>text. string_at b 0 = Inr text \<and> length text = 12 + 2 * length bs"
    using holds_line [of buf "hex_text t a bs @ [newline]"] by (auto simp: b_def str)
qed

lemma hex_entry_line:
  assumes "entry_ok (high, im) e"
  shows "hex_line (set_line buf (entry_text e @ [newline])) high im =
    (case put_entry (high, im) e of (high', im') \<Rightarrow> Inr (True, high', im'))"
proof (cases e)
  case (Data a bs)
  have ok: "even (length bs)" "length bs \<le> 16" "a AND 3 = 0" "fits im (data_address high a, bs)"
    using assms Data by auto
  have small: "length bs < 256"
    using ok(2) by simp
  obtain str where str: "string_at (set_line buf (hex_text 0 a bs @ [newline])) 0 = Inr str" "length str = 12 + 2 * length bs"
    using hex_text_line(9) [OF small] by blast
  have "hex_record (set_line buf (hex_text 0 a bs @ [newline])) 0 (int (length bs)) (data_address high a) high im =
      Inr (high, place im (data_address high a, bs))"
  proof -
    have m: "memory_data (auto_base x im) = memory_data im" for x
      by (simp add: auto_base_def)
    have "hex_store (data_address high a) bs im = Inr (place im (data_address high a, bs))"
      by (simp only: hex_store_def Let_def m store_record [OF ok(4)] sum.case prod.case)
    then show ?thesis
      using ok(1,2) str hex_address(4) [OF ok(3), of high] hex_text_line(7) [OF small ok(2), of buf 0 a] hex_text_line(8) [OF small, of buf 0 a]
        hex_address(2,3) [of high a]
      by (simp add: hex_record_def hex_sum_def hex_address(1))
  qed
  then show ?thesis
    using hex_text_line(1-6) [OF small, of buf 0 a] hex_address(1) [of high a]
    by (simp add: hex_line_def Data)
next
  case (Extend h)
  let ?bs = "[ucast (drop_bit 8 h), ucast h] :: u8 list"
  have two: "length ?bs < 256"
    by simp
  note l = hex_text_line [OF two, of buf 4 0]
  obtain str where str: "string_at (set_line buf (hex_text 4 0 ?bs @ [newline])) 0 = Inr str" "length str = 12 + 2 * length ?bs"
    using l(9) by blast
  have "push_bit 8 (ucast (ucast (drop_bit 8 h) :: u8)) OR ucast (ucast h :: u8) = (ucast h :: u32)"
    using hex_address(1) [of 0 h] by (simp add: data_address_def)
  moreover have "hex_data 2 (set_line buf (hex_text 4 0 ?bs @ [newline])) 9 [] = Inr ?bs"
    using l(7) by (simp add: numeral_2_eq_2 del: hex_data.simps)
  ultimately have "hex_record (set_line buf (hex_text 4 0 ?bs @ [newline])) 4 2 (data_address high 0) high im = Inr (ucast h, im)"
    using str l(8) hex_address(2,3) [of high 0] hex_address(4) [of 0 high]
    by (simp add: hex_record_def hex_sum_def data_address_def del: hex_data.simps)
  then show ?thesis
    using l(1-6) hex_address(1) [of high 0] by (simp add: hex_line_def Extend)
qed


lemma hex_text_chars: "newline \<notin> set (hex_text t a bs)" "length (hex_text t a bs) = 11 + 2 * length bs"
  by (auto simp: hex_text_def Let_def hex_byte_chars dest: hex_bytes_chars)

lemma entry_text_chars: "entry_ok hi e \<Longrightarrow> newline \<notin> set (entry_text e) \<and> length (entry_text e) < 255"
  by (cases e) (auto simp: hex_text_chars)

lemma entries_output [simp]: "entries_ok (h, im\<lparr>output_len := n\<rparr>) es = entries_ok (h, im) es"
proof (induction es arbitrary: h im n)
  case (Cons e es)
  show ?case
  proof (cases e)
    case (Data a bs)
    let ?r = "(data_address h a, bs)"
    have f: "fits (im\<lparr>output_len := n\<rparr>) ?r = fits im ?r"
      by (simp add: fits_def base_of_def)
    have "place (im\<lparr>output_len := n\<rparr>) ?r = (place im ?r)\<lparr>output_len := output_len (place (im\<lparr>output_len := n\<rparr>) ?r)\<rparr>"
      by (simp add: place_def base_of_def Let_def)
    then have "entries_ok (h, place (im\<lparr>output_len := n\<rparr>) ?r) es = entries_ok (h, place im ?r) es"
      using Cons.IH by metis
    then show ?thesis
      using f by (simp add: Data)
  qed (simp add: Cons.IH)
qed simp

text \<open>
  C21: a HEX file whose lines are data records (of an even number of at most 16 bytes
  at a multiple of four, with the right checksum) and records that set the upper half of the
  address loads exactly the data of its records, each at the full 32-bit address relative to the
  base; nothing after the end-of-file record is read.
\<close>

theorem hex_roundtrip:
  assumes "entries_ok (0, im) es"
  shows "read_hex (Some (concat (map (\<lambda>e. entry_text e @ [newline]) es) @ '':00000001FF'' @ newline # rest)) im =
    Inr (snd (foldl put_entry (0, im\<lparr>output_len := 0\<rparr>) es))"
proof -
  have eof: "'':00000001FF'' = hex_text 1 0 []"
    by code_simp
  have "hex_lines buf high im (concat (map (\<lambda>e. entry_text e @ [newline]) es) @ hex_text 1 0 [] @ newline # rest) =
      Inr (snd (foldl put_entry (high, im) es))" if "entries_ok (high, im) es" for buf high im
    using that
  proof (induction es arbitrary: buf high im)
    case Nil
    have g: "fgets 255 (hex_text 1 0 [] @ newline # rest) = (hex_text 1 0 [] @ [newline], rest)"
      by (intro fgets_line) (simp_all add: hex_text_chars)
    have "hex_line (set_line buf (hex_text 1 0 [] @ [newline])) high im = Inr (False, high, im)"
      using hex_text_line(1-3) [of "[]" buf 1 0] by (simp add: hex_line_def)
    then show ?case
      using g by (subst hex_lines.simps) simp
  next
    case (Cons e es)
    let ?t = "concat (map (\<lambda>e. entry_text e @ [newline]) es) @ hex_text 1 0 [] @ newline # rest"
    have ok: "entry_ok (high, im) e" "entries_ok (put_entry (high, im) e) es"
      using Cons.prems by auto
    have g: "fgets 255 (entry_text e @ newline # ?t) = (entry_text e @ [newline], ?t)"
      using entry_text_chars [OF ok(1)] by (intro fgets_line) simp_all
    show ?case
      using hex_entry_line [OF ok(1)] Cons.IH [of "fst (put_entry (high, im) e)" "snd (put_entry (high, im) e)"] ok(2) g
      by (subst hex_lines.simps) (simp add: case_prod_beta)
  qed
  then show ?thesis
    using assms unfolding eof by (simp add: read_hex_def)
qed

section \<open>Damaged files\<close>

text \<open>
  Also: a line that is taken as a HEX record has the checksum of its bytes:
  with any other byte in the place of the checksum the reader ends with an error, and the image
  is not touched.
\<close>

theorem hex_checksum_checked:
  assumes "hex_record buf t bytes address high im = Inr r"
  shows "\<exists>bs chk. hex_data (nat bytes) buf 9 [] = Inr bs \<and> HEX buf (9 + 2 * nat bytes) = Inr chk \<and>
    hex_sum t bytes address bs + of_int chk = 0"
  using assms
  by (auto simp: hex_record_def split: if_splits sum.splits)

lemma hex_data_overflow:
  "holds buf d (hex_bytes bs) \<Longrightarrow> 16 < length acc + length bs \<Longrightarrow> length acc \<le> 16 \<Longrightarrow>
   hex_data (length bs) buf d acc = Inl Bad_access"
proof (induction bs arbitrary: d acc)
  case (Cons b bs)
  have h: "holds buf d (hex_byte b)" "holds buf (d + 2) (hex_bytes bs)"
    using holds_append [of buf d "hex_byte b" "hex_bytes bs"] Cons.prems by simp_all
  show ?case
    using Cons.IH [OF h(2), of "acc @ [b]"] HEX_byte [OF h(1)] Cons.prems(2,3) by simp
qed simp


text \<open>
  C39: a HEX record of more than 16 data bytes, correct in every respect
  but its length, overruns the array of 16 bytes on the stack: the length byte is not checked
  against it.
\<close>

theorem hex_long_record_overflows:
  assumes "16 < length bs" and "length bs \<le> 120" and "even (length bs)" and "a AND 3 = 0"
  shows "read_hex (Some (hex_text 0 a bs @ newline # rest)) im = Inl Bad_access"
proof -
  let ?b = "set_line (replicate 256 None) (hex_text 0 a bs @ [newline])"
  have small: "length bs < 256"
    using assms(2) by simp
  note l = hex_text_line [OF small, of "replicate 256 None" 0 a]
  have g: "fgets 255 (hex_text 0 a bs @ newline # rest) = (hex_text 0 a bs @ [newline], rest)"
    using assms(2) by (intro fgets_line) (simp_all add: hex_text_chars)
  obtain str where str: "string_at ?b 0 = Inr str" "length str = 12 + 2 * length bs"
    using l(9) by blast
  have "hex_data (length bs) ?b 9 [] = Inl Bad_access"
    using assms(1) by (intro hex_data_overflow [OF l(10)]) simp_all
  then have "hex_record ?b 0 (int (length bs)) (data_address 0 a) 0 (im\<lparr>output_len := 0\<rparr>) = Inl Bad_access"
    using assms(3) str hex_address(4) [OF assms(4), of 0, unfolded hex_address(1)] by (simp add: hex_record_def)
  then have "hex_line ?b 0 (im\<lparr>output_len := 0\<rparr>) = Inl Bad_access"
    using l(1-6) hex_address(1) [of 0 a] by (simp add: hex_line_def)
  then show ?thesis
    using g by (simp add: read_hex_def) (subst hex_lines.simps, simp)
qed

text \<open>
  C40: the check that a record fits the memory adds the length to the offset in
  32 bits. A record close to the end of the address space passes it after the sum has wrapped,
  and its data is stored outside of the memory.
\<close>

theorem srec_address_wraps:
  assumes "fits im (b, bs)" and "memory_base im = 0" and "b \<noteq> 0" and "b \<le> a"
    and "2 ^ 32 \<le> unat (a - b) + length ds" and "length ds \<le> 120" and "length bs \<le> 120"
  shows "read_srec (Some (srec_record chk (b, bs) @ newline # srec_record chk (a, ds) @ newline # rest)) im =
    Inl Bad_access"
proof -
  let ?im = "place (im\<lparr>output_len := 0\<rparr>) (b, bs)"
  have f: "fits (im\<lparr>output_len := 0\<rparr>) (b, bs)"
    using assms(1) by (auto simp: fits_def base_of_def split: if_splits)
  have base: "memory_base ?im = b" "length (memory_data ?im) = MEMORY_SIZE"
    using assms(1,2) by (simp_all add: place_def base_of_def fits_def Let_def)
  have g: "fgets 255 (srec_record chk (x, xs) @ newline # t) = (srec_record chk (x, xs) @ [newline], t)"
    if "length xs \<le> 120" for x xs t
    using srec_record_chars [OF that] by (intro fgets_line) simp_all
  have u: "unat (a - b) < 2 ^ 32"
    using unsigned_less [of "a - b"] by simp
  have "unat (a - b + of_nat (length ds)) = (unat (a - b) + length ds) mod 2 ^ 32"
    using assms(6) by (simp add: unat_word_ariths unsigned_of_nat take_bit_nat_eq_self)
  also have "\<dots> = unat (a - b) + length ds - 2 ^ 32"
    using assms(5,6) u by (simp add: mod_if)
  also have "\<dots> \<le> length ds"
    using u by linarith
  finally have "record_offset b (int (length ds)) a = Inr (a - b)"
    using assms(4,6) by (simp add: record_offset_def MEMORY_SIZE_def not_less)
  moreover have "store_bytes (memory_data ?im) (a - b) ds = Inl Bad_access"
    using assms(5,6) u base(2) by (cases ds) (auto simp: MEMORY_SIZE_def)
  moreover have "memory_base (auto_base a ?im) = b"
    using assms(3) base(1) by (simp add: auto_base_def)
  ultimately have 2: "srec_line (set_line buf (srec_record chk (a, ds) @ [newline])) ?im = Inl Bad_access" for buf
    by (simp add: srec_record_store [OF assms(6)])
  have "srec_lines buf ?im (srec_record chk (a, ds) @ newline # rest) = Inl Bad_access" for buf
    using g [OF assms(6)] 2 by (subst srec_lines.simps) simp
  then show ?thesis
    using g [OF assms(7)] srec_record_line [OF f assms(7)]
    by (simp add: read_srec_def) (subst srec_lines.simps, simp)
qed

section \<open>Witnesses\<close>

definition blank_image :: image where
  "blank_image = \<lparr>memory_data = replicate MEMORY_SIZE 0, memory_base = 0, output_len = 0\<rparr>"

lemma blank_simps [simp]:
  "memory_base blank_image = 0" "output_len blank_image = 0" "length (memory_data blank_image) = MEMORY_SIZE"
  by (simp_all add: blank_image_def)

theorem srec_roundtrip_witness:
  "\<exists>im. read_srec (Some (srec_record 0 (0x1fc00000, [1, 2]) @ [newline] @ srec_record 0 (0x1fc00004, [3]) @ [newline] @
      ''S7'' @ [])) blank_image = Inr im \<and> memory_base im = 0x1fc00000 \<and> output_len im = 5"
proof -
  have "all_fit blank_image [(0x1fc00000, [1, 2]), (0x1fc00004, [3])]"
    by (simp add: fits_def base_of_def place_def MEMORY_SIZE_def Let_def)
  from srec_roundtrip [OF this, of 0 "[]"] show ?thesis
    by (simp add: place_def base_of_def Let_def)
qed

theorem hex_roundtrip_witness:
  "\<exists>im. read_hex (Some (entry_text (Extend 0x1fc0) @ [newline] @ entry_text (Data 0x10 [1, 2]) @ [newline] @
      '':00000001FF'' @ newline # [])) blank_image = Inr im \<and> memory_base im = 0x1fc00010 \<and> output_len im = 2"
proof -
  have "entries_ok (0, blank_image) [Extend 0x1fc0, Data 0x10 [1, 2]]"
    by (simp add: fits_def base_of_def place_def MEMORY_SIZE_def Let_def)
  from hex_roundtrip [OF this, of "[]"] show ?thesis
    by (simp add: place_def base_of_def data_address_def Let_def)
qed

theorem hex_checksum_checked_witness:
  "hex_sum 4 2 0 [0x1f, 0xc0] + of_int 0x1b = 0"
proof -
  let ?buf = "map Some ('':020000041FC01B'' @ [newline, CHR 0x00])"
  have d: "hex_data (nat 2) ?buf 9 [] = Inr [0x1f, 0xc0]" "HEX ?buf (9 + 2 * nat 2) = Inr 0x1b"
    "string_at ?buf 0 = Inr ('':020000041FC01B'' @ [newline])" "hex_sum 4 2 0 [0x1f, 0xc0] = - of_int 0x1b"
    by code_simp+
  have "hex_record ?buf 4 2 0 0 blank_image = Inr (0x1fc0, blank_image)"
    unfolding hex_record_def d(3) sum.case d(1,2) by (simp add: d(4))
  from hex_checksum_checked [OF this] show ?thesis
    unfolding d by auto
qed

theorem hex_long_record_overflows_witness:
  "read_hex (Some (hex_text 0 0 (replicate 18 0) @ newline # [])) blank_image = Inl Bad_access"
  by (rule hex_long_record_overflows) simp_all

theorem srec_address_wraps_witness:
  "read_srec (Some (srec_record 0 (4, []) @ newline # srec_record 0 (0xFFFFFFFF, replicate 8 0) @ newline # []))
     blank_image = Inl Bad_access"
  by (rule srec_address_wraps) (simp_all add: fits_def base_of_def MEMORY_SIZE_def)

end
