(* ===== verification/Proxy_Codec.thy ===== *)
theory Proxy_Codec
  imports Prelude
begin

text \<open>
  The text encoding of the GDB remote protocol, as gdbproxy.c writes and reads it: hex
  nibbles and bytes, 32- and 64-bit numbers with a terminator, data and register blocks, and
  the replies to the thread queries.

  A \<open>const char *\<close> into a buffer is the list of the characters from the pointer on. Text ends
  at the first NUL; the end of the list is read as NUL, so a plain string stands for the same
  string with its terminator, and \<open>text @ NUL # stale\<close> for a buffer with old bytes behind it.
  A decoder gives \<open>None\<close> where the code returns FALSE, and the values of its output
  parameters otherwise; an encoder gives the text it leaves in the output buffer.
\<close>

abbreviation NUL :: char where
  "NUL \<equiv> CHR 0x00"

definition peek :: "string \<Rightarrow> char" where
  "peek xs = (case xs of [] \<Rightarrow> NUL | c # _ \<Rightarrow> c)"

definition cstr :: "string \<Rightarrow> string" where
  "cstr xs = takeWhile (\<lambda>c. c \<noteq> NUL) xs"

lemma peek_simps [simp]: "peek [] = NUL" "peek (c # xs) = c"
  by (simp_all add: peek_def)

lemma cstr_append_NUL [simp]: "NUL \<notin> set s \<Longrightarrow> cstr (s @ NUL # rest) = s"
  by (induction s) (auto simp: cstr_def)

lemma cstr_no_NUL [simp]: "NUL \<notin> set s \<Longrightarrow> cstr s = s"
  by (induction s) (auto simp: cstr_def)

section \<open>Nibbles and bytes\<close>

definition rp_hex_nibble :: "char \<Rightarrow> int" where
  "rp_hex_nibble ch = (let c = of_char ch in
     if 48 \<le> c \<and> c \<le> 57 then c - 48
     else if 65 \<le> c \<and> c \<le> 70 then c - 65 + 10
     else if 97 \<le> c \<and> c \<le> 102 then c - 97 + 10
     else -1)"

definition rp_decode_nibble :: "string \<Rightarrow> u32 option" where
  "rp_decode_nibble inp = (let nib = rp_hex_nibble (peek inp) in
     if nib \<ge> 0 then Some (word_of_int nib) else None)"

definition rp_decode_byte :: "string \<Rightarrow> u32 option" where
  "rp_decode_byte inp = (case rp_decode_nibble inp of
     None \<Rightarrow> None
   | Some ms_nibble \<Rightarrow> (case rp_decode_nibble (tl inp) of
       None \<Rightarrow> None
     | Some ls_nibble \<Rightarrow> Some (push_bit 4 ms_nibble + ls_nibble)))"

definition hex_char :: "nat \<Rightarrow> char" where
  "hex_char i = ''0123456789abcdef'' ! i"

text \<open>The assertion \<open>val <= 0xff\<close> is the type of the argument.\<close>

definition rp_encode_byte :: "u8 \<Rightarrow> string" where
  "rp_encode_byte val =
     [hex_char (unat (drop_bit 4 val AND 0xf)), hex_char (unat (val AND 0xf))]"

text \<open>A character with no meaning of its own in a packet.\<close>

definition plain_char :: "char \<Rightarrow> bool" where
  "plain_char c \<longleftrightarrow> c \<noteq> NUL \<and> c \<notin> set ''$#*}=,:;+-x''"

lemma plain_char_not_NUL [simp]: "\<not> plain_char NUL"
  by (simp add: plain_char_def)

lemma hex_char_nibble:
  assumes "i < 16"
  shows "rp_hex_nibble (hex_char i) = int i" and "plain_char (hex_char i)"
proof -
  have "\<forall>i \<in> set [0..<16]. rp_hex_nibble (hex_char i) = int i \<and> plain_char (hex_char i)"
    by code_simp
  with assms show "rp_hex_nibble (hex_char i) = int i" and "plain_char (hex_char i)"
    by auto
qed

lemma decode_nibble_hex [simp]:
  "i < 16 \<Longrightarrow> rp_decode_nibble (hex_char i # rest) = Some (word_of_nat i)"
  by (simp add: rp_decode_nibble_def hex_char_nibble Let_def)

lemma decode_nibble_None:
  "rp_hex_nibble (peek inp) < 0 \<Longrightarrow> rp_decode_nibble inp = None"
  by (simp add: rp_decode_nibble_def Let_def)

lemma hex_nibble_NUL [simp]: "rp_hex_nibble NUL = -1"
  by (simp add: rp_hex_nibble_def)

lemma length_encode_byte [simp]: "length (rp_encode_byte b) = 2"
  by (simp add: rp_encode_byte_def)

lemma encode_byte_chars: "c \<in> set (rp_encode_byte b) \<Longrightarrow> plain_char c"
  by (auto simp: rp_encode_byte_def hex_char_nibble word_and_15_less)

lemma decode_encode_byte: "rp_decode_byte (rp_encode_byte b @ rest) = Some (ucast b)"
proof -
  have "push_bit 4 (word_of_nat (unat (drop_bit 4 b AND 15))) + word_of_nat (unat (b AND 15)) =
      (ucast b :: u32)"
    using byte_nibbles_ucast [of b] by (simp add: word_of_nat_unat)
  then show ?thesis
    by (simp add: rp_decode_byte_def rp_encode_byte_def word_and_15_less)
qed

section \<open>Numbers\<close>

text \<open>The digit loop that the four number decoders share.\<close>

primrec decode_digits :: "nat \<Rightarrow> 'w :: len word \<Rightarrow> string \<Rightarrow> 'w word \<times> string" where
  "decode_digits 0 tmp inp = (tmp, inp)"
| "decode_digits (Suc n) tmp inp = (case rp_decode_nibble inp of
     None \<Rightarrow> (tmp, inp)
   | Some nibble \<Rightarrow> decode_digits n (push_bit 4 tmp + ucast nibble) (tl inp))"

definition rp_decode_4bytes :: "string \<Rightarrow> u32" where
  "rp_decode_4bytes inp = fst (decode_digits 8 0 inp)"

definition rp_decode_8bytes :: "string \<Rightarrow> u64" where
  "rp_decode_8bytes inp = fst (decode_digits 16 0 inp)"

text \<open>The two decoders give the value and the advanced input pointer.\<close>

definition rp_decode_uint32 :: "string \<Rightarrow> char \<Rightarrow> (u32 \<times> string) option" where
  "rp_decode_uint32 inp break_char =
     (if peek inp = NUL then None
      else let (tmp, rest) = decode_digits 8 0 inp in
        if peek rest \<noteq> break_char then None
        else Some (tmp, if peek rest \<noteq> NUL then tl rest else rest))"

definition rp_decode_uint64 :: "string \<Rightarrow> char \<Rightarrow> (u64 \<times> string) option" where
  "rp_decode_uint64 inp break_char =
     (if peek inp = NUL then None
      else let (tmp, rest) = decode_digits 16 0 inp in
        if peek rest \<noteq> break_char then None
        else Some (tmp, if peek rest \<noteq> NUL then tl rest else rest))"

text \<open>\<open>sprintf ("%08x")\<close> and \<open>sprintf ("%016Lx")\<close>.\<close>

primrec hex_digits :: "nat \<Rightarrow> 'w :: len word \<Rightarrow> string" where
  "hex_digits 0 w = []"
| "hex_digits (Suc n) w = hex_char (unat (drop_bit (4 * n) w AND 0xf)) # hex_digits n w"

definition sprintf_08x :: "u32 \<Rightarrow> string" where
  "sprintf_08x w = hex_digits 8 w"

definition sprintf_016Lx :: "u64 \<Rightarrow> string" where
  "sprintf_016Lx w = hex_digits 16 w"

section \<open>Data and registers\<close>

text \<open>
  The loop of \<open>rp_decode_data\<close>: \<open>n\<close> is the room left (\<open>out_size - count\<close>) and \<open>out\<close>
  the bytes stored, so \<open>count = length out\<close>.
\<close>

fun decode_data_loop :: "nat \<Rightarrow> string \<Rightarrow> u8 list \<Rightarrow> u8 list option" where
  "decode_data_loop 0 inp out = (if peek inp \<noteq> NUL then None else Some out)"
| "decode_data_loop (Suc n) inp out =
     (if peek inp = NUL then Some out
      else if peek (tl inp) = NUL then (if out = [] then None else Some out)
      else (case rp_decode_byte inp of
          None \<Rightarrow> None
        | Some bytex \<Rightarrow> decode_data_loop n (drop 2 inp) (out @ [ucast bytex])))"

definition rp_decode_data :: "string \<Rightarrow> nat \<Rightarrow> u8 list option" where
  "rp_decode_data inp out_size = decode_data_loop out_size inp []"

definition rp_encode_data :: "u8 list \<Rightarrow> nat \<Rightarrow> fault + string option" where
  "rp_encode_data data out_size =
     (if \<not> (length data > 0 \<and> out_size > 0) then Inl Assert_fail
      else if length data * 2 \<ge> out_size then Inr None
      else Inr (Some (concat (map rp_encode_byte data))))"

definition rp_encode_regs :: "u8 list \<Rightarrow> u8 list \<Rightarrow> nat \<Rightarrow> fault + string option" where
  "rp_encode_regs data avail out_size =
     (if \<not> (length data > 0 \<and> out_size > 0) then Inl Assert_fail
      else if length data * 2 \<ge> out_size then Inr None
      else Inr (Some (concat (map
        (\<lambda>(d, a). if a \<noteq> 0 then rp_encode_byte d else ''xx'') (zip data avail)))))"

definition rp_decode_reg_assignment :: "string \<Rightarrow> nat \<Rightarrow> (u32 \<times> u8 list) option" where
  "rp_decode_reg_assignment inp out_size = (case rp_decode_uint32 inp CHR ''='' of
     None \<Rightarrow> None
   | Some (reg_no, rest) \<Rightarrow> (case rp_decode_data rest (out_size - 8 - 1) of
       None \<Rightarrow> None
     | Some out \<Rightarrow> Some (reg_no, out)))"

definition rp_decode_mem :: "string \<Rightarrow> (u64 \<times> u32) option" where
  "rp_decode_mem inp = (case rp_decode_uint64 inp CHR '','' of
     None \<Rightarrow> None
   | Some (addr, rest) \<Rightarrow> (case rp_decode_uint32 rest NUL of
       None \<Rightarrow> None
     | Some (val, _) \<Rightarrow> Some (addr, val)))"

text \<open>The result is the type, the address and the length; the first character is skipped.\<close>

definition rp_decode_break :: "string \<Rightarrow> (u32 \<times> u64 \<times> u32) option" where
  "rp_decode_break inp = (case rp_decode_nibble (tl inp) of
     None \<Rightarrow> None
   | Some val \<Rightarrow>
       if val > 4 then None
       else if peek (drop 2 inp) \<noteq> CHR '','' then None
       else (case rp_decode_uint64 (drop 3 inp) CHR '','' of
           None \<Rightarrow> None
         | Some (addr, rest) \<Rightarrow> (case rp_decode_uint32 rest NUL of
             None \<Rightarrow> None
           | Some (len, _) \<Rightarrow> Some (val, addr, len))))"

section \<open>Thread queries\<close>

type_synonym rp_thread_ref = u64

record rp_thread_info =
  thread_id :: rp_thread_ref
  exists :: int
  display :: string
  thread_name :: string
  more_display :: string

abbreviation (input) "RP_BIT_PROCQMASK_THREADID \<equiv> (1 :: u32)"
abbreviation (input) "RP_BIT_PROCQMASK_EXISTS \<equiv> (2 :: u32)"
abbreviation (input) "RP_BIT_PROCQMASK_DISPLAY \<equiv> (4 :: u32)"
abbreviation (input) "RP_BIT_PROCQMASK_THREADNAME \<equiv> (8 :: u32)"
abbreviation (input) "RP_BIT_PROCQMASK_MOREDISPLAY \<equiv> (16 :: u32)"

text \<open>\<open>rp_decode_4bytes\<close> and \<open>rp_decode_8bytes\<close> always return TRUE.\<close>

definition rp_decode_process_query :: "string \<Rightarrow> u32 \<times> rp_thread_ref" where
  "rp_decode_process_query inp = (rp_decode_4bytes inp, rp_decode_8bytes (drop 8 inp))"

definition rp_decode_list_query :: "string \<Rightarrow> (bool \<times> u32 \<times> rp_thread_ref) option" where
  "rp_decode_list_query inp = (case rp_decode_nibble inp of
     None \<Rightarrow> None
   | Some first_flag \<Rightarrow> (case rp_decode_byte (tl inp) of
       None \<Rightarrow> None
     | Some tmp_max \<Rightarrow> Some (first_flag \<noteq> 0, tmp_max, rp_decode_8bytes (drop 3 inp))))"

text \<open>
  One counted string of the process query reply: the length byte and the text, when they fit
  (\<open>None\<close> stands for \<open>return 0\<close>). The room left after it is \<open>out_size - 2 - len\<close>.
\<close>

definition procq_string :: "string \<Rightarrow> nat \<Rightarrow> fault + (string \<times> nat) option" where
  "procq_string s out_size =
     (if length s > 255 then Inl Assert_fail
      else if out_size \<le> length s + 2 then Inr None
      else Inr (Some (rp_encode_byte (of_nat (length s)) @ s, out_size - 2 - length s)))"

text \<open>One pass of the loop body of the process query reply, after the mask test.\<close>

definition procq_tag ::
  "u32 \<Rightarrow> rp_thread_info \<Rightarrow> nat \<Rightarrow> fault + (string \<times> nat) option" where
  "procq_tag tag info out_size =
     (if tag = RP_BIT_PROCQMASK_THREADID then
        (if out_size \<le> 18 then Inr None
         else Inr (Some (rp_encode_byte 16 @ sprintf_016Lx (thread_id info), out_size - 18)))
      else if tag = RP_BIT_PROCQMASK_EXISTS then
        (if out_size \<le> 3 then Inr None
         else Inr (Some (rp_encode_byte 1 @ (if exists info \<noteq> 0 then ''1'' else ''0''),
                         out_size - 3)))
      else if tag = RP_BIT_PROCQMASK_DISPLAY then procq_string (display info) out_size
      else if tag = RP_BIT_PROCQMASK_THREADNAME then procq_string (thread_name info) out_size
      else if tag = RP_BIT_PROCQMASK_MOREDISPLAY then procq_string (more_display info) out_size
      else Inl Assert_fail)"

text \<open>The loop, with \<open>n\<close> rounds to go.\<close>

fun procq_loop :: "nat \<Rightarrow> u32 \<Rightarrow> u32 \<Rightarrow> rp_thread_info \<Rightarrow> string \<Rightarrow> nat \<Rightarrow> fault + string option" where
  "procq_loop 0 tag msk info out out_size = Inr (Some out)"
| "procq_loop (Suc n) tag msk info out out_size =
     (if msk AND tag = 0 then procq_loop n (push_bit 1 tag) msk info out out_size
      else if out_size \<le> 10 then Inr None
      else (case procq_tag tag info (out_size - 8) of
          Inl e \<Rightarrow> Inl e
        | Inr None \<Rightarrow> Inr None
        | Inr (Some (t, room)) \<Rightarrow>
            procq_loop n (push_bit 1 tag) msk info (out @ sprintf_08x tag @ t) room))"

definition rp_encode_process_query_response ::
  "u32 \<Rightarrow> rp_thread_ref \<Rightarrow> rp_thread_info \<Rightarrow> nat \<Rightarrow> fault + string option" where
  "rp_encode_process_query_response msk ref info out_size =
     (if out_size = 0 then Inl Assert_fail
      else if out_size \<le> 26 then Inr None
      else procq_loop 32 0 msk info (''qQ'' @ sprintf_08x msk @ sprintf_016Lx ref)
             (out_size - 26))"

fun listq_found :: "rp_thread_ref list \<Rightarrow> string \<Rightarrow> nat \<Rightarrow> string option" where
  "listq_found [] out out_size = Some out"
| "listq_found (f # found) out out_size =
     (if out_size \<le> 16 then None
      else listq_found found (out @ sprintf_016Lx f) (out_size - 16))"

text \<open>\<open>count\<close> is the length of \<open>found\<close>.\<close>

definition rp_encode_list_query_response ::
  "bool \<Rightarrow> rp_thread_ref \<Rightarrow> rp_thread_ref list \<Rightarrow> nat \<Rightarrow> fault + string option" where
  "rp_encode_list_query_response dn arg found out_size =
     (if length found > 255 then Inl Assert_fail
      else if out_size \<le> 21 then Inr None
      else Inr (listq_found found
             (''qM'' @ rp_encode_byte (of_nat (length found)) @ (if dn then ''1'' else ''0'') @
              sprintf_016Lx arg) (out_size - 21)))"

section \<open>Return values of the target operations\<close>

datatype retval = RP_OK | RP_ERR | RP_NOSUPP

definition rp_write_retval :: "retval \<Rightarrow> string" where
  "rp_write_retval ret = (case ret of RP_OK \<Rightarrow> ''OK'' | RP_ERR \<Rightarrow> ''E00'' | RP_NOSUPP \<Rightarrow> '''')"

section \<open>What the codec guarantees\<close>

text \<open>
  The byte codec as an interface: an encoder of bytes as characters and the decoder that the
  reader applies at every second position. The client facts are about blocks of bytes.
\<close>

locale hex_codec =
  fixes enc :: "u8 \<Rightarrow> string"
    and dec :: "string \<Rightarrow> u32 option"
  assumes dec_enc: "dec (enc b @ rest) = Some (ucast b)"
    and length_enc: "length (enc b) = 2"
    and enc_not_NUL: "NUL \<notin> set (enc b)"
begin

lemma length_block: "length (concat (map enc bs)) = 2 * length bs"
  by (induction bs) (simp_all add: length_enc)

lemma block_not_NUL: "NUL \<notin> set (concat (map enc bs))"
  using enc_not_NUL by (induction bs) auto

lemma cstr_block: "cstr (concat (map enc bs) @ NUL # rest) = concat (map enc bs)"
  using block_not_NUL by simp

lemma enc_cases: obtains c d where "enc b = [c, d]" "c \<noteq> NUL" "d \<noteq> NUL"
  using length_enc [of b] enc_not_NUL [of b]
  by (auto simp: length_Suc_conv numeral_2_eq_2)

lemma dec_block:
  "i < length bs \<Longrightarrow> dec (drop (2 * i) (concat (map enc bs) @ rest)) = Some (ucast (bs ! i))"
proof (induction bs arbitrary: i)
  case (Cons b bs)
  then show ?case
    using length_enc [of b]
    by (cases i) (simp_all add: dec_enc append.assoc del: append_assoc)
qed simp

lemma inj_enc: "enc b = enc c \<Longrightarrow> b = c"
  using dec_enc [of b "[]"] dec_enc [of c "[]"] by (metis option.inject ucast_u8_u32)

end

interpretation hx: hex_codec rp_encode_byte rp_decode_byte
  by unfold_locales (auto simp: decode_encode_byte dest: encode_byte_chars)

text \<open>Blocks.\<close>

lemma decode_data_loop_enc:
  "length bs \<le> n \<Longrightarrow> peek rest = NUL \<Longrightarrow>
   decode_data_loop n (concat (map rp_encode_byte bs) @ rest) out = Some (out @ bs)"
proof (induction bs arbitrary: n out)
  case Nil
  then show ?case
    by (cases n) simp_all
next
  case (Cons b bs)
  then obtain m where n: "n = Suc m" and m: "length bs \<le> m"
    by (cases n) simp_all
  obtain c d where cd: "rp_encode_byte b = [c, d]" "c \<noteq> NUL" "d \<noteq> NUL"
    by (rule hx.enc_cases)
  then show ?case
    using decode_encode_byte [of b "concat (map rp_encode_byte bs) @ rest"] Cons m n by simp
qed

text \<open>Numbers.\<close>

lemma decode_hex_digits:
  "decode_digits n tmp (hex_digits n w @ rest) = (push_bit (4 * n) tmp + take_bit (4 * n) w, rest)"
proof (induction n arbitrary: tmp)
  case (Suc n)
  have "push_bit (4 * n) (push_bit 4 tmp + (drop_bit (4 * n) w AND 15)) + take_bit (4 * n) w =
      push_bit (4 * Suc n) tmp + take_bit (4 * Suc n) w"
    using take_bit_add_nibble [of "4 * n" w]
    by (simp add: push_bit_add add.assoc) (simp add: add.commute)
  then show ?case
    using Suc by (simp add: word_and_15_less word_of_nat_unat)
qed simp

lemma decode_hex_32 [simp]: "decode_digits 8 0 (hex_digits 8 w @ rest) = (w :: u32, rest)"
  using decode_hex_digits [of 8 0 w rest] by (simp add: take_bit_word_eq_self)

lemma decode_hex_64 [simp]: "decode_digits 16 0 (hex_digits 16 w @ rest) = (w :: u64, rest)"
  using decode_hex_digits [of 16 0 w rest] by (simp add: take_bit_word_eq_self)

lemma length_hex_digits [simp]: "length (hex_digits n w) = n"
  by (induction n) simp_all

lemma hex_digits_chars: "c \<in> set (hex_digits n w) \<Longrightarrow> plain_char c"
  by (induction n) (auto simp: hex_char_nibble word_and_15_less)

lemma peek_hex_digits [simp]: "n > 0 \<Longrightarrow> peek (hex_digits n w @ rest) \<noteq> NUL"
  using hex_digits_chars [of "peek (hex_digits n w)" n w] by (cases n) auto

lemma listq_found_length:
  "listq_found found out n = Some out' \<Longrightarrow>
   length out' = length out + 16 * length found \<and> (found \<noteq> [] \<longrightarrow> 16 * length found < n)"
  by (induction found arbitrary: out n) (fastforce simp: sprintf_016Lx_def split: if_splits)+

lemma procq_loop_0: "procq_loop n 0 msk info out room = Inr (Some out)"
  by (induction n) simp_all

section \<open>Properties\<close>

text \<open>
  C37: a block of bytes that \<open>rp_encode_data\<close> writes into a buffer that is large enough is
  read back unchanged by \<open>rp_decode_data\<close>, whatever old bytes lie behind the terminator; the
  text has two characters for each byte and leaves room for the terminator.
\<close>

theorem rp_data_roundtrip:
  assumes "data \<noteq> []" and "2 * length data < out_size" and "length data \<le> room"
  shows "\<exists>t. rp_encode_data data out_size = Inr (Some t) \<and> length t < out_size \<and>
    rp_decode_data (t @ NUL # stale) room = Some data"
  using assms decode_data_loop_enc [of data room "NUL # stale" "[]"]
  by (auto simp: rp_encode_data_def rp_decode_data_def hx.length_block)

theorem rp_data_roundtrip_witness:
  "\<exists>t. rp_encode_data [0x12, 0xab] 8 = Inr (Some t) \<and> length t < 8 \<and>
    rp_decode_data (t @ NUL # ''77'') 16 = Some [0x12, 0xab]"
  by (rule rp_data_roundtrip) simp_all

text \<open>
  Also: the address and length of a memory request written with \<open>%016Lx,%08x\<close> are decoded
  to the same values at full width, with no byte of the request lost or read twice.
\<close>

theorem rp_decode_mem_roundtrip:
  "rp_decode_mem (sprintf_016Lx a @ '','' @ sprintf_08x n @ NUL # stale) = Some (a, n)"
  by (simp add: rp_decode_mem_def rp_decode_uint64_def rp_decode_uint32_def sprintf_016Lx_def
      sprintf_08x_def peek_hex_digits)

end
