(* ===== verification/Proxy_Packet.thy ===== *)
theory Proxy_Packet
  imports Proxy_Codec
begin

text \<open>
  The packet layer of gdbproxy.c: \<open>rp_getpkt\<close>, the receiver with its ten numbered states,
  \<open>rp_putpkt\<close>, the sender that repeats a packet until it is acknowledged, and the two
  splitters for console and data output.

  The socket of rpmisc.c is the list of what the reads will deliver, and the text sent so
  far. \<open>dbg_sock_readchar\<close> gives the next character, an error, or, when it was called with a
  timeout, a timeout; a closed connection gives an error on every later read, so \<open>RxEof\<close>
  stays at the head. A read without a timeout that finds nothing more is \<open>Blocked\<close>.
\<close>

section \<open>The connection\<close>

datatype rx_event = RxChar char | RxTmout | RxErr | RxEof

text \<open>
  \<open>wr\<close> holds the outcomes of the coming calls of \<open>dbg_sock_write\<close> (a failed or a partial
  \<open>send\<close> is \<open>False\<close>); when it is used up, writes succeed.
\<close>

record conn =
  rx :: "rx_event list"
  tx :: string
  wr :: "bool list"

datatype readchar_ret = Rd_char char | Rd_err | Rd_tmout

fun readchar_ev :: "bool \<Rightarrow> rx_event list \<Rightarrow> (fault + readchar_ret) \<times> rx_event list" where
  "readchar_ev timed [] = (if timed then Inr Rd_tmout else Inl Blocked, [])"
| "readchar_ev timed (RxChar c # es) = (Inr (Rd_char c), es)"
| "readchar_ev timed (RxErr # es) = (Inr Rd_err, es)"
| "readchar_ev timed (RxEof # es) = (Inr Rd_err, RxEof # es)"
| "readchar_ev timed (RxTmout # es) =
     (if timed then (Inr Rd_tmout, es) else readchar_ev timed es)"

text \<open>\<open>timed\<close>: the argument of \<open>dbg_sock_readchar\<close> is not -1.\<close>

definition dbg_sock_readchar :: "bool \<Rightarrow> (conn, readchar_ret) act" where
  "dbg_sock_readchar timed s = (case readchar_ev timed (rx s) of (r, es) \<Rightarrow> (r, s\<lparr>rx := es\<rparr>))"

definition dbg_sock_putchar :: "char \<Rightarrow> (conn, unit) act" where
  "dbg_sock_putchar c = modM (\<lambda>s. s\<lparr>tx := tx s @ [c]\<rparr>)"

definition dbg_sock_write :: "string \<Rightarrow> (conn, bool) act" where
  "dbg_sock_write t s = (case wr s of
     [] \<Rightarrow> (Inr True, s\<lparr>tx := tx s @ t\<rparr>)
   | ok # ws \<Rightarrow> (Inr ok, s\<lparr>tx := (if ok then tx s @ t else tx s), wr := ws\<rparr>))"

section \<open>The receiver\<close>

text \<open>
  The local variables of \<open>rp_getpkt\<close>. \<open>buf\<close> is the part of the caller's buffer below
  \<open>pkt_len\<close>, so \<open>pkt_len = length buf\<close>; \<open>buf_len\<close> is the parameter, which the code
  decrements when a binary packet starts and never restores.
\<close>

record rx_state =
  state :: nat
  buf :: string
  buf_len :: nat
  seq :: "char \<times> char"
  seq_valid :: bool
  rx_csum :: u8
  calc_csum :: u8
  esc_found :: bool

datatype rx_result = Rx_error | Rx_timeout | Rx_ctrl_c | Rx_ack | Rx_nak | Rx_packet string

text \<open>What one character leads to: another round, a return with the characters sent, or a store
  outside the buffer object.\<close>

datatype rx_out = Rx_more rx_state | Rx_return rx_result string | Rx_overrun

definition rx_start :: "nat \<Rightarrow> rx_state" where
  "rx_start n = \<lparr>state = 0, buf = [], buf_len = n, seq = (NUL, NUL), seq_valid = False,
     rx_csum = 0, calc_csum = 0, esc_found = False\<rparr>"

text \<open>The variables that a start-of-packet marker resets.\<close>

definition rx_reset :: "rx_state \<Rightarrow> rx_state" where
  "rx_reset r = r\<lparr>seq := (NUL, NUL), seq_valid := False, rx_csum := 0, calc_csum := 0,
     buf := [], state := 1\<rparr>"

text \<open>\<open>buf[pkt_len++] = c; rx_csum += c;\<close> in a buffer of \<open>n\<close> characters.\<close>

definition rx_store :: "nat \<Rightarrow> char \<Rightarrow> rx_state \<Rightarrow> nat \<Rightarrow> rx_out" where
  "rx_store n c r st =
     (if length (buf r) < n
      then Rx_more (r\<lparr>buf := buf r @ [c], rx_csum := rx_csum r + of_char c, state := st\<rparr>)
      else Rx_overrun)"

text \<open>The two hex digits of a binary byte; \<open>raw\<close> is the character the checksum counts.\<close>

definition rx_store_hex :: "nat \<Rightarrow> u8 \<Rightarrow> char \<Rightarrow> rx_state \<Rightarrow> rx_out" where
  "rx_store_hex n b raw r =
     (if length (buf r) + 1 < n
      then Rx_more (r\<lparr>buf := buf r @ rp_encode_byte b, rx_csum := rx_csum r + of_char raw,
             esc_found := False\<rparr>)
      else Rx_overrun)"

definition rx_idle :: "char \<Rightarrow> rx_state \<Rightarrow> rx_out" where
  "rx_idle c r =
     (if c = CHR ''$'' then Rx_more (rx_reset r)
      else if c = CHR 0x03 then Rx_return Rx_ctrl_c []
      else if c = CHR ''+'' then Rx_return Rx_ack []
      else if c = CHR ''-'' then Rx_return Rx_nak []
      else Rx_more r)"

definition rx_state3 :: "nat \<Rightarrow> char \<Rightarrow> rx_state \<Rightarrow> rx_out" where
  "rx_state3 n c r =
     (if c = CHR '':'' then
        Rx_more (r\<lparr>seq := (buf r ! 0, buf r ! 1), seq_valid := True, buf := [], state := 4\<rparr>)
      else rx_store n c r 4)"

definition rx_state4 :: "nat \<Rightarrow> char \<Rightarrow> rx_state \<Rightarrow> rx_out" where
  "rx_state4 n c r = (case rx_store n c r 5 of
     Rx_more r' \<Rightarrow>
       Rx_more (if buf r' ! 0 = CHR ''X''
         then r'\<lparr>buf := (buf r')[0 := CHR ''M''], esc_found := False, buf_len := buf_len r' - 1,
                 state := 6\<rparr>
         else r')
   | out \<Rightarrow> out)"

definition rx_state7 :: "nat \<Rightarrow> char \<Rightarrow> rx_state \<Rightarrow> rx_out" where
  "rx_state7 n c r =
     (if length (buf r) \<ge> buf_len r then Rx_more r
      else if esc_found r then rx_store_hex n (of_char c XOR 0x20) c r
      else if c = CHR 0x7D then
        Rx_more (r\<lparr>rx_csum := rx_csum r + of_char c, esc_found := True\<rparr>)
      else if c = CHR ''#'' then Rx_more (r\<lparr>state := 8\<rparr>)
      else rx_store_hex n (of_char c) c r)"

definition rx_state8 :: "char \<Rightarrow> rx_state \<Rightarrow> rx_out" where
  "rx_state8 c r = (let nib = rp_hex_nibble c in
     if nib < 0 then Rx_more (r\<lparr>state := 0\<rparr>)
     else Rx_more (r\<lparr>calc_csum := push_bit 4 (calc_csum r) OR word_of_int nib, state := 9\<rparr>))"

definition rx_state9 :: "nat \<Rightarrow> char \<Rightarrow> rx_state \<Rightarrow> rx_out" where
  "rx_state9 n c r = (let nib = rp_hex_nibble c in
     if nib < 0 then Rx_more (r\<lparr>state := 0\<rparr>)
     else let cs = push_bit 4 (calc_csum r) OR word_of_int nib in
       if rx_csum r = cs then
         (if length (buf r) < n
          then Rx_return (Rx_packet (buf r))
                 (CHR ''+'' # (if seq_valid r then [fst (seq r), snd (seq r)] else []))
          else Rx_overrun)
       else Rx_more (r\<lparr>calc_csum := cs, state := 0\<rparr>))"

text \<open>
  The body of the loop after a character was read, for a buffer object of \<open>n\<close> characters: the
  test for a marker in mid-packet, after which control goes on into the \<open>switch\<close>.
\<close>

definition rx_switch :: "nat \<Rightarrow> char \<Rightarrow> rx_state \<Rightarrow> rx_out" where
  "rx_switch n c r =
     (if state r = 0 then rx_idle c r
      else if state r \<le> 5 \<and> c = CHR ''#'' then Rx_more (r\<lparr>state := 8\<rparr>)
      else if state r = 1 then rx_store n c r 2
      else if state r = 2 then rx_store n c r 3
      else if state r = 3 then rx_state3 n c r
      else if state r = 4 then rx_state4 n c r
      else if state r = 5 then
        (if length (buf r) \<ge> buf_len r then Rx_more r else rx_store n c r 5)
      else if state r = 6 then rx_store n c r (if c = CHR '':'' then 7 else 6)
      else if state r = 7 then rx_state7 n c r
      else if state r = 8 then rx_state8 c r
      else rx_state9 n c r)"

definition rx_step :: "nat \<Rightarrow> char \<Rightarrow> rx_state \<Rightarrow> rx_out" where
  "rx_step n c r =
     rx_switch n c (if c = CHR ''$'' \<and> state r \<noteq> 0 then rx_reset r else r)"

text \<open>
  The loop of \<open>rp_getpkt\<close>: a timeout applies only while no packet has started. The result is
  the return value with the packet, the events left, and the characters sent.
\<close>

fun getpkt_loop :: "nat \<Rightarrow> bool \<Rightarrow> rx_state \<Rightarrow> rx_event list \<Rightarrow>
    (fault + rx_result) \<times> rx_event list \<times> string" where
  "getpkt_loop n timed r [] =
     (if timed \<and> state r = 0 then Inr Rx_timeout else Inl Blocked, [], [])"
| "getpkt_loop n timed r (RxErr # es) = (Inr Rx_error, es, [])"
| "getpkt_loop n timed r (RxEof # es) = (Inr Rx_error, RxEof # es, [])"
| "getpkt_loop n timed r (RxTmout # es) =
     (if timed \<and> state r = 0 then (Inr Rx_timeout, es, []) else getpkt_loop n timed r es)"
| "getpkt_loop n timed r (RxChar c # es) = (case rx_step n c r of
       Rx_more r' \<Rightarrow> getpkt_loop n timed r' es
     | Rx_return res sent \<Rightarrow> (Inr res, es, sent)
     | Rx_overrun \<Rightarrow> (Inl Bad_access, es, []))"

definition rp_getpkt :: "nat \<Rightarrow> bool \<Rightarrow> (conn, rx_result) act" where
  "rp_getpkt n timed s =
     (if n \<le> 6 then (Inl Assert_fail, s)
      else case getpkt_loop n timed (rx_start n) (rx s) of
        (res, es, sent) \<Rightarrow> (res, s\<lparr>rx := es, tx := tx s @ sent\<rparr>))"

section \<open>The sender\<close>

definition RP_PARAM_INOUTBUF_SIZE :: nat where
  "RP_PARAM_INOUTBUF_SIZE = 2 * 0x10000 + 32"

definition csum_of :: "string \<Rightarrow> u8" where
  "csum_of t = sum_list (map of_char t)"

text \<open>The text \<open>$packet#cs\<close> that the sender builds in \<open>buf2\<close>.\<close>

definition frame_of :: "string \<Rightarrow> string" where
  "frame_of t = CHR ''$'' # t @ CHR ''#'' # rp_encode_byte (csum_of t)"

text \<open>The flush: receive with a zero timeout until the receiver times out.\<close>

primrec flush_loop :: "nat \<Rightarrow> (conn, unit) act" where
  "flush_loop 0 = failM Out_of_fuel"
| "flush_loop (Suc k) = bindM (rp_getpkt RP_PARAM_INOUTBUF_SIZE True) (\<lambda>ret.
     if ret \<noteq> Rx_timeout then flush_loop k else retM ())"

primrec send_loop :: "nat \<Rightarrow> string \<Rightarrow> (conn, bool) act" where
  "send_loop 0 t = failM Out_of_fuel"
| "send_loop (Suc k) t = bindM (dbg_sock_write t) (\<lambda>ok.
     if \<not> ok then retM False
     else bindM (rp_getpkt RP_PARAM_INOUTBUF_SIZE False) (\<lambda>ret.
       if ret = Rx_error then retM False
       else if ret = Rx_ack then retM True
       else send_loop k t))"

text \<open>
  \<open>rp_putpkt\<close>: the copy into \<open>buf2\<close> stops after \<open>RP_PARAM_INOUTBUF_SIZE\<close> characters and
  asserts that the text ended there; \<open>buf2\<close> has four characters more, and the frame needs
  five more than the text with its terminator. \<open>k\<close> bounds the rounds of each of the two loops.
\<close>

definition rp_putpkt :: "nat \<Rightarrow> string \<Rightarrow> (conn, bool) act" where
  "rp_putpkt k b = (let t = cstr b in
     if length t > RP_PARAM_INOUTBUF_SIZE then failM Assert_fail
     else if length t + 5 > RP_PARAM_INOUTBUF_SIZE + 4 then failM Bad_access
     else seqM (flush_loop k) (send_loop k (frame_of t)))"

text \<open>
  The splitters send the text in packets that fit GDB's buffer of 400: \<open>sizeof (buf) - 1\<close> is
  393. \<open>count\<close> starts at 1 for console output and at 0 for data output, so the chunks hold 392
  characters in both. Each sends at least one packet, and stops early when one is refused.
\<close>

fun output_loop :: "nat \<Rightarrow> string \<Rightarrow> string \<Rightarrow> nat \<Rightarrow> (conn, unit) act" where
  "output_loop k pre s 0 = failM Out_of_fuel"
| "output_loop k pre s (Suc m) = bindM (rp_putpkt k (pre @ take 392 s)) (\<lambda>ret.
     if drop 392 s \<noteq> [] \<and> ret then output_loop k pre (drop 392 s) m else retM ())"

definition rp_console_output :: "nat \<Rightarrow> bool \<Rightarrow> string \<Rightarrow> (conn, unit) act" where
  "rp_console_output k out_valid s =
     (if \<not> out_valid then retM () else output_loop k ''O'' (cstr s) (Suc (length (cstr s))))"

definition rp_data_output :: "nat \<Rightarrow> bool \<Rightarrow> string \<Rightarrow> (conn, unit) act" where
  "rp_data_output k out_valid s =
     (if \<not> out_valid then retM () else output_loop k [] (cstr s) (Suc (length (cstr s))))"

section \<open>How the receiver runs\<close>

named_theorems rx_defs "what one character does in each state"

declare rx_step_def [rx_defs] rx_switch_def [rx_defs] rx_idle_def [rx_defs]
  rx_store_def [rx_defs] rx_reset_def [rx_defs] rx_state3_def [rx_defs]
  rx_state4_def [rx_defs] rx_state7_def [rx_defs] rx_state8_def [rx_defs] rx_state9_def [rx_defs]
  rx_store_hex_def [rx_defs]

lemma csum_of_simps [simp]:
  "csum_of [] = 0" "csum_of (c # t) = of_char c + csum_of t"
  by (simp_all add: csum_of_def)

lemma csum_of_append [simp]: "csum_of (s @ t) = csum_of s + csum_of t"
  by (simp add: csum_of_def)

text \<open>Junk between packets is skipped.\<close>

definition junk_char :: "char \<Rightarrow> bool" where
  "junk_char c \<longleftrightarrow> c \<notin> {CHR ''$'', CHR 0x03, CHR ''+'', CHR ''-''}"

lemma getpkt_junk:
  "list_all junk_char t \<Longrightarrow> state r = 0 \<Longrightarrow>
   getpkt_loop n timed r (map RxChar t @ es) = getpkt_loop n timed r es"
  by (induction t) (auto simp: rx_defs junk_char_def)

text \<open>Text that is stored as it comes.\<close>

definition frame_text :: "string \<Rightarrow> bool" where
  "frame_text t \<longleftrightarrow> CHR ''$'' \<notin> set t \<and> CHR ''#'' \<notin> set t"

lemma frame_text_simps [simp]:
  "frame_text []"
  "frame_text (c # t) \<longleftrightarrow> c \<noteq> CHR ''$'' \<and> c \<noteq> CHR ''#'' \<and> frame_text t"
  "frame_text (s @ t) \<longleftrightarrow> frame_text s \<and> frame_text t"
  by (auto simp: frame_text_def)

lemma state_same [simp]: "state r = k \<Longrightarrow> r\<lparr>state := k\<rparr> = r"
  by (cases r) simp

lemma getpkt_state5:
  "frame_text t \<Longrightarrow> state r = 5 \<Longrightarrow> length (buf r) + length t \<le> buf_len r \<Longrightarrow> buf_len r \<le> n \<Longrightarrow>
   getpkt_loop n timed r (map RxChar t @ es) =
   getpkt_loop n timed (r\<lparr>buf := buf r @ t, rx_csum := rx_csum r + csum_of t\<rparr>) es"
  by (induction t arbitrary: r) (simp_all add: rx_defs add.assoc)

lemma hex_char_not_dollar [simp]: "i < 16 \<Longrightarrow> hex_char i \<noteq> CHR ''$''"
  using hex_char_nibble(2) [of i] by (auto simp: plain_char_def)

text \<open>The two checksum digits that \<open>rp_putpkt\<close> sends end the packet.\<close>

lemma getpkt_accept:
  assumes "state r = 8" and "calc_csum r = 0" and "length (buf r) < n" and "cs = rx_csum r"
  shows "getpkt_loop n timed r (map RxChar (rp_encode_byte cs) @ es) =
    (Inr (Rx_packet (buf r)), es,
     CHR ''+'' # (if seq_valid r then [fst (seq r), snd (seq r)] else []))"
  using assms
  by (simp add: rx_defs rp_encode_byte_def word_and_15_less hex_char_nibble word_of_nat_unat
      Let_def)

lemma getpkt_reject:
  assumes "state r = 8" and "calc_csum r = 0" and "cs \<noteq> rx_csum r"
  shows "getpkt_loop n timed r (map RxChar (rp_encode_byte cs) @ es) =
    getpkt_loop n timed (r\<lparr>calc_csum := cs, state := 0\<rparr>) es"
  using assms
  by (simp add: rx_defs rp_encode_byte_def word_and_15_less hex_char_nibble word_of_nat_unat
      Let_def)

lemma idle_again:
  "state x = 0 \<Longrightarrow> \<exists>r'. state r' = 0 \<and> getpkt_loop n timed x es = getpkt_loop n timed r' es"
  by blast

text \<open>A packet that is neither binary nor numbered.\<close>

definition ordinary :: "string \<Rightarrow> bool" where
  "ordinary t \<longleftrightarrow> frame_text t \<and> (length t \<ge> 3 \<longrightarrow> t ! 2 \<noteq> CHR '':'') \<and>
     (length t \<ge> 4 \<longrightarrow> t ! 0 \<noteq> CHR ''X'')"

lemma getpkt_ordinary:
  assumes "ordinary t" and "length t < n" and "n > 6"
  shows "getpkt_loop n timed (rx_start n) (map RxChar (frame_of t) @ es) =
    (Inr (Rx_packet t), es, ''+'')"
proof -
  note accept = getpkt_accept [where timed = timed and es = es]
  note run = frame_of_def rx_defs rx_start_def ordinary_def
  consider "t = []" | a where "t = [a]" | a b where "t = [a, b]" | a b c where "t = [a, b, c]"
    | a b c d u where "t = a # b # c # d # u"
    by (metis list.exhaust)
  then show ?thesis
  proof cases
    case 5
    have "length [a, b, c, d] + length u \<le> n"
      using assms(2) 5 by simp
    then show ?thesis
      using assms 5 by (simp add: run getpkt_state5 accept)
  qed (use assms in \<open>simp_all add: run accept\<close>)
qed

section \<open>Binary packets\<close>

definition byte_char :: "u8 \<Rightarrow> char" where
  "byte_char b = char_of (unat b)"

lemma of_char_byte_char [simp]: "(of_char (byte_char b) :: u8) = b"
proof -
  have "(of_char (byte_char b) :: u8) = of_nat (of_char (byte_char b))"
    by (simp only: of_nat_of_char)
  also have "\<dots> = b"
    using unat_less_256 [of b] by (simp add: byte_char_def)
  finally show ?thesis .
qed

lemma unat_of_char [simp]: "unat (of_char c :: u8) = of_char c"
proof -
  have "unat (of_char c :: u8) = unat (of_nat (of_char c) :: u8)"
    by (simp only: of_nat_of_char)
  also have "\<dots> = of_char c mod 256"
    by (simp add: unsigned_of_nat take_bit_eq_mod)
  finally show ?thesis
    by simp
qed

lemma byte_char_eq: "byte_char b = c \<longleftrightarrow> b = of_char c"
  by (metis byte_char_def char_of_char of_char_byte_char unat_of_char)

text \<open>How a client escapes a byte: \<open>}\<close> and the byte exclusive-or 0x20.\<close>

definition bin_escape :: "u8 \<Rightarrow> string" where
  "bin_escape b =
     (if b \<in> {0x23, 0x24, 0x7d} then [CHR ''}'', byte_char (b XOR 0x20)] else [byte_char b])"

lemma xor_32 [simp]: "((b :: u8) XOR 0x20) XOR 0x20 = b"
  by (simp add: xor.assoc)

lemma getpkt_state7_byte:
  assumes "state r = 7" and "esc_found r = False"
    and "length (buf r) < buf_len r" and "buf_len r < n"
  shows "getpkt_loop n timed r (map RxChar (bin_escape b) @ es) =
    getpkt_loop n timed (r\<lparr>buf := buf r @ rp_encode_byte b,
      rx_csum := rx_csum r + csum_of (bin_escape b)\<rparr>) es"
proof -
  have r: "r\<lparr>buf := x, rx_csum := y, esc_found := False\<rparr> = r\<lparr>buf := x, rx_csum := y\<rparr>" for x y
    using assms(2) by (cases r) simp
  have "byte_char (b XOR 32) \<noteq> CHR ''$''" if "b \<in> {0x23, 0x24, 0x7d}"
    using that by (auto simp: byte_char_eq)
  then show ?thesis
    using assms by (auto simp: r bin_escape_def rx_defs byte_char_eq add.assoc)
qed

lemma getpkt_state7:
  "state r = 7 \<Longrightarrow> esc_found r = False \<Longrightarrow> length (buf r) + 2 * length bs \<le> buf_len r \<Longrightarrow>
   buf_len r < n \<Longrightarrow>
   getpkt_loop n timed r (map RxChar (concat (map bin_escape bs)) @ es) =
   getpkt_loop n timed (r\<lparr>buf := buf r @ concat (map rp_encode_byte bs),
      rx_csum := rx_csum r + csum_of (concat (map bin_escape bs))\<rparr>) es"
  by (induction bs arbitrary: r) (simp_all add: getpkt_state7_byte add.assoc)

definition header_text :: "string \<Rightarrow> bool" where
  "header_text t \<longleftrightarrow> list_all (\<lambda>c. c \<noteq> CHR ''$'' \<and> c \<noteq> CHR ''#'' \<and> c \<noteq> CHR '':'') t"

lemma header_text_simps [simp]:
  "header_text []"
  "header_text (c # t) \<longleftrightarrow>
     c \<noteq> CHR ''$'' \<and> c \<noteq> CHR ''#'' \<and> c \<noteq> CHR '':'' \<and> header_text t"
  by (auto simp: header_text_def)

lemma getpkt_state6:
  "header_text t \<Longrightarrow> state r = 6 \<Longrightarrow> length (buf r) + length t \<le> n \<Longrightarrow>
   getpkt_loop n timed r (map RxChar t @ es) =
   getpkt_loop n timed (r\<lparr>buf := buf r @ t, rx_csum := rx_csum r + csum_of t\<rparr>) es"
  by (induction t arbitrary: r) (simp_all add: rx_defs add.assoc)

lemma getpkt_binary:
  assumes hd: "header_text hdr" "length hdr \<ge> 3"
    and room: "length hdr + 2 * length data + 3 < n"
  shows "getpkt_loop n timed (rx_start n)
      (map RxChar (frame_of (''X'' @ hdr @ '':'' @ concat (map bin_escape data))) @ es) =
    (Inr (Rx_packet (''M'' @ hdr @ '':'' @ concat (map rp_encode_byte data))), es, ''+'')"
proof -
  obtain a b c u where h: "hdr = a # b # c # u"
    using hd(2) by (metis One_nat_def Suc_le_length_iff numeral_3_eq_3)
  obtain m where n: "n = Suc m"
    using room by (cases n) simp_all
  show ?thesis
    using hd room
    by (simp add: h n frame_of_def rx_defs rx_start_def getpkt_state6 getpkt_state7
        getpkt_accept [where timed = timed and es = es] hx.length_block add.assoc)
qed

section \<open>What the receiver accepts\<close>

definition chars_of :: "rx_event list \<Rightarrow> string" where
  "chars_of es = concat (map (\<lambda>e. case e of RxChar c \<Rightarrow> [c] | _ \<Rightarrow> []) es)"

lemma chars_of_simps [simp]:
  "chars_of [] = []" "chars_of (RxChar c # es) = c # chars_of es"
  "chars_of (RxTmout # es) = chars_of es" "chars_of (RxErr # es) = chars_of es"
  "chars_of (RxEof # es) = chars_of es"
  by (simp_all add: chars_of_def)

definition seq_sum :: "rx_state \<Rightarrow> u8" where
  "seq_sum r = (if seq_valid r then of_char (fst (seq r)) + of_char (snd (seq r)) else 0)"

text \<open>
  The receiver's invariant: the running checksum is the sum of the stored characters and of
  the sequence number, except for a binary packet, which is stored with a leading \<open>M\<close>.
\<close>

definition rx_inv :: "rx_state \<Rightarrow> bool" where
  "rx_inv r \<longleftrightarrow> state r \<le> 9 \<and>
     (state r \<in> {1, 2, 3} \<longrightarrow> length (buf r) + 1 = state r \<and> \<not> seq_valid r) \<and>
     (state r \<in> {1, 2, 3, 4} \<longrightarrow> rx_csum r = csum_of (buf r) + seq_sum r) \<and>
     (state r \<in> {5, 8, 9} \<longrightarrow>
        rx_csum r = csum_of (buf r) + seq_sum r \<or> (buf r \<noteq> [] \<and> buf r ! 0 = CHR ''M'')) \<and>
     (state r \<in> {6, 7} \<longrightarrow> buf r \<noteq> [] \<and> buf r ! 0 = CHR ''M'') \<and>
     (state r \<in> {1, 2, 3, 4, 5, 6, 7, 8} \<longrightarrow> calc_csum r = 0)"

lemma rx_inv_start: "rx_inv (rx_start n)"
  by (simp add: rx_inv_def rx_start_def)

lemma rx_inv_reset: "rx_inv (rx_reset r)"
  by (simp add: rx_inv_def rx_reset_def seq_sum_def)


lemma decode_byte_checksum:
  assumes "rp_hex_nibble h \<ge> 0" and "rp_hex_nibble l \<ge> 0"
  shows "\<exists>v. rp_decode_byte [h, l] = Some v \<and>
    ucast v = push_bit 4 (word_of_int (rp_hex_nibble h)) OR (word_of_int (rp_hex_nibble l) :: u8)"
proof -
  have small: "rp_hex_nibble c \<in> set [0..15]" if "rp_hex_nibble c \<ge> 0" for c
    using that by (auto simp: rp_hex_nibble_def Let_def split: if_splits)
  have "\<forall>i \<in> set [0..15]. \<forall>j \<in> set [0..15].
      (ucast (push_bit 4 (word_of_int i) + word_of_int j :: u32) :: u8) =
        push_bit 4 (word_of_int i) OR word_of_int j"
    by code_simp
  then show ?thesis
    using assms small [of h] small [of l] by (simp add: rp_decode_byte_def rp_decode_nibble_def)
qed

definition out_inv :: "rx_out \<Rightarrow> bool" where
  "out_inv out = (case out of Rx_more r \<Rightarrow> rx_inv r | _ \<Rightarrow> True)"

lemma out_inv_simps [simp]:
  "out_inv (Rx_more r) = rx_inv r" "out_inv (Rx_return res sent)" "out_inv Rx_overrun"
  by (simp_all add: out_inv_def)

lemma state_cases:
  assumes "s \<le> (9 :: nat)"
  obtains "s = 0" | "s = 1" | "s = 2" | "s = 3" | "s = 4" | "s = 5" | "s = 6" | "s = 7" | "s = 8"
    | "s = 9"
proof -
  have "s = 0 \<or> s = 1 \<or> s = 2 \<or> s = 3 \<or> s = 4 \<or> s = 5 \<or> s = 6 \<or> s = 7 \<or> s = 8 \<or> s = 9"
    using assms by presburger
  then show thesis
    using that by blast
qed

lemma rx_inv_switch:
  assumes inv: "rx_inv r" and "c = CHR ''$'' \<longrightarrow> state r \<in> {0, 1}"
  shows "out_inv (rx_switch n c r)"
proof -
  note defs = rx_switch_def rx_inv_def seq_sum_def
  have "state r \<le> 9"
    using inv by (simp add: rx_inv_def)
  then show ?thesis
  proof (cases rule: state_cases)
    case 1
    then show ?thesis
      using inv rx_inv_reset [of r] by (simp add: rx_switch_def rx_idle_def)
  next
    case 2
    then have "buf r = []" and "\<not> seq_valid r"
      using inv by (simp_all add: rx_inv_def)
    then show ?thesis
      using inv 2 by (simp add: defs rx_store_def)
  next
    case 3
    then obtain a where "buf r = [a]" and "\<not> seq_valid r"
      using inv by (auto simp: rx_inv_def length_Suc_conv)
    then show ?thesis
      using inv 3 by (simp add: defs rx_store_def)
  next
    case 4
    then obtain a b where "buf r = [a, b]" and "\<not> seq_valid r"
      using inv by (auto simp: rx_inv_def length_Suc_conv eval_nat_numeral)
    then show ?thesis
      using inv 4 by (simp add: defs rx_store_def rx_state3_def add.assoc)
  next
    case 5
    then show ?thesis
      using inv by (cases "buf r") (simp_all add: defs rx_store_def rx_state4_def ac_simps)
  next
    case 6
    then show ?thesis
      using inv by (auto simp: defs rx_store_def nth_append ac_simps)
  next
    case 7
    then show ?thesis
      using inv by (simp add: defs rx_store_def nth_append)
  next
    case 8
    then show ?thesis
      using inv by (simp add: defs rx_state7_def rx_store_hex_def nth_append)
  next
    case 9
    then show ?thesis
      using inv by (auto simp: defs rx_state8_def Let_def)
  next
    case 10
    then show ?thesis
      using inv by (simp add: defs rx_state9_def Let_def)
  qed
qed

lemma rx_inv_step: "rx_inv r \<Longrightarrow> rx_step n c r = Rx_more r' \<Longrightarrow> rx_inv r'"
  using rx_inv_switch [of r c n] rx_inv_switch [of "rx_reset r" c n] rx_inv_reset [of r]
  by (auto simp: rx_step_def rx_reset_def split: if_splits)

text \<open>The last character taken in state 9 was the first checksum digit.\<close>

definition digit_seen :: "rx_state \<Rightarrow> string \<Rightarrow> bool" where
  "digit_seen r hist \<longleftrightarrow> (state r = 9 \<longrightarrow> hist \<noteq> [] \<and> rp_hex_nibble (last hist) \<ge> 0 \<and>
     calc_csum r = word_of_int (rp_hex_nibble (last hist)))"

lemma hex_nibble_dollar [simp]: "rp_hex_nibble CHR ''$'' = -1"
  by (simp add: rp_hex_nibble_def)

lemma rx_step_to_9:
  assumes "rx_step n c r = Rx_more r'" and "state r' = 9"
  shows "state r = 8 \<and> rp_hex_nibble c \<ge> 0 \<and>
    calc_csum r' = push_bit 4 (calc_csum r) OR word_of_int (rp_hex_nibble c)"
  using assms
  by (auto simp: rx_defs Let_def split: if_splits)

lemma digit_seen_step:
  "rx_inv r \<Longrightarrow> rx_step n c r = Rx_more r' \<Longrightarrow> digit_seen r' (hist @ [c])"
  using rx_step_to_9 [of n c r r'] by (auto simp: digit_seen_def rx_inv_def)

lemma rx_step_packet:
  assumes "rx_inv r" and "rx_step n c r = Rx_return (Rx_packet p) sent"
  shows "state r = 9 \<and> rp_hex_nibble c \<ge> 0 \<and> p = buf r \<and> hd sent = CHR ''+'' \<and>
    csum_of (tl sent) = seq_sum r \<and> length p < n \<and>
    rx_csum r = push_bit 4 (calc_csum r) OR word_of_int (rp_hex_nibble c) \<and>
    (rx_csum r = csum_of p + seq_sum r \<or> p \<noteq> [] \<and> p ! 0 = CHR ''M'')"
  using assms
  by (auto simp: rx_defs Let_def rx_inv_def seq_sum_def split: if_splits)

definition checked_packet :: "string \<Rightarrow> string \<Rightarrow> string \<Rightarrow> bool" where
  "checked_packet consumed p sent \<longleftrightarrow>
     (\<exists>pre h l v. consumed = pre @ [h, l] \<and> rp_decode_byte [h, l] = Some v \<and> hd sent = CHR ''+'' \<and>
        (ucast v = csum_of p + csum_of (tl sent) \<or> p \<noteq> [] \<and> p ! 0 = CHR ''M''))"

lemma checked_packet_return:
  assumes "rx_inv r" and "digit_seen r hist" and "rx_step n c r = Rx_return (Rx_packet p) sent"
  shows "checked_packet (hist @ [c]) p sent"
proof -
  note ret = rx_step_packet [OF assms(1,3)]
  then obtain h where h: "hist = butlast hist @ [h]" "rp_hex_nibble h \<ge> 0"
      "calc_csum r = word_of_int (rp_hex_nibble h)"
    using assms(2) by (metis append_butlast_last_id digit_seen_def)
  then obtain v where "rp_decode_byte [h, c] = Some v" and v: "ucast v = rx_csum r"
    using ret decode_byte_checksum [of h c] by auto
  moreover have "hist @ [c] = butlast hist @ [h, c]"
    using h(1) by (metis append.assoc append_Cons append_Nil)
  ultimately show ?thesis
    using ret unfolding checked_packet_def by metis
qed

lemma getpkt_loop_checked:
  "getpkt_loop n timed r es = (Inr (Rx_packet p), es', sent) \<Longrightarrow> rx_inv r \<Longrightarrow> digit_seen r hist \<Longrightarrow>
   length p < n \<and> (\<exists>evs. es = evs @ es' \<and> checked_packet (hist @ chars_of evs) p sent)"
proof (induction n timed r es arbitrary: hist rule: getpkt_loop.induct)
  case (4 n timed r es)
  then show ?case
    by (auto split: if_splits) (metis append_Cons chars_of_simps(3))+
next
  case (5 n timed r c es)
  show ?case
  proof (cases "rx_step n c r")
    case (Rx_more r')
    then have "length p < n \<and>
        (\<exists>evs. es = evs @ es' \<and> checked_packet ((hist @ [c]) @ chars_of evs) p sent)"
      using 5(1) [OF Rx_more, of "hist @ [c]"] 5(2-) Rx_more rx_inv_step [of r n c r']
        digit_seen_step [of r n c r' hist] by simp
    then show ?thesis
      by (metis append.assoc append_Cons append_Nil chars_of_simps(2))
  next
    case (Rx_return res sent')
    then have ret: "rx_step n c r = Rx_return (Rx_packet p) sent" and "es = es'"
      using 5 by simp_all
    then have "RxChar c # es = [RxChar c] @ es'" and
        "checked_packet (hist @ chars_of [RxChar c]) p sent" and "length p < n"
      using checked_packet_return [OF 5(3,4) ret] rx_step_packet [OF 5(3) ret] by auto
    then show ?thesis
      by blast
  qed (use 5 in simp)
qed (auto split: if_splits)

section \<open>The sender's loops\<close>

lemma rp_getpkt_step:
  "n > 6 \<Longrightarrow> rp_getpkt n timed s = (case getpkt_loop n timed (rx_start n) (rx s) of
     (res, es, sent) \<Rightarrow> (res, s\<lparr>rx := es, tx := tx s @ sent\<rparr>))"
  by (simp add: rp_getpkt_def)

lemma inout_size [simp]: "RP_PARAM_INOUTBUF_SIZE = 131104"
  by (simp add: RP_PARAM_INOUTBUF_SIZE_def)

text \<open>While the connection is open, a receiver call takes at least one event if there is one.\<close>

lemma getpkt_loop_shrinks:
  "getpkt_loop n timed r es = (res, es', sent) \<Longrightarrow> RxEof \<notin> set es \<Longrightarrow>
   RxEof \<notin> set es' \<and> length es' \<le> length es \<and> (length es' < length es \<or> es = [])"
proof (induction n timed r es arbitrary: res es' sent rule: getpkt_loop.induct)
  case (4 n timed r es)
  then show ?case
    by (fastforce split: if_splits)
next
  case (5 n timed r c es)
  then show ?case
    by (fastforce split: rx_out.splits)
qed (auto split: if_splits)

lemma getpkt_loop_fault:
  "getpkt_loop n timed r es = (Inl e, es', sent) \<Longrightarrow> e = Blocked \<or> e = Bad_access"
  by (induction n timed r es rule: getpkt_loop.induct) (auto split: if_splits rx_out.splits)

lemma state_rx_start [simp]: "state (rx_start n) = 0"
  by (simp add: rx_start_def)

lemma getpkt_loop_idle: "getpkt_loop n True (rx_start n) [] = (Inr Rx_timeout, [], [])"
  by (simp add: rx_start_def)

lemma flush_loop_ends:
  "RxEof \<notin> set (rx s) \<Longrightarrow> length (rx s) < k \<Longrightarrow>
   (case flush_loop k s of (res, s') \<Rightarrow> res \<noteq> Inl Out_of_fuel \<and> RxEof \<notin> set (rx s') \<and>
      length (rx s') \<le> length (rx s) \<and> wr s' = wr s)"
proof (induction k arbitrary: s)
  case (Suc k)
  obtain res es' sent
    where g: "getpkt_loop 131104 True (rx_start 131104) (rx s) = (res, es', sent)"
    by (metis prod_cases3)
  have e: "RxEof \<notin> set es'" "length es' \<le> length (rx s)" "length es' < length (rx s) \<or> rx s = []"
    using getpkt_loop_shrinks [OF g] Suc(2) by auto
  show ?case
  proof (cases res)
    case (Inl f)
    then show ?thesis
      using g e getpkt_loop_fault [of 131104 True "rx_start 131104" "rx s" f es' sent]
      by (auto simp: act_simps rp_getpkt_step getpkt_loop_idle)
  next
    case (Inr ret)
    show ?thesis
    proof (cases "ret = Rx_timeout")
      case False
      then have "length es' < k"
        using e Suc(3) g Inr getpkt_loop_idle [of 131104] by (cases "rx s = []") auto
      then show ?thesis
        using Suc(1) [of "s\<lparr>rx := es', tx := tx s @ sent\<rparr>"] e g Inr False
        by (cases "rx s = []")
          (auto simp: act_simps rp_getpkt_step getpkt_loop_idle split: prod.splits)
    qed (use g e Inr in \<open>auto simp: act_simps rp_getpkt_step getpkt_loop_idle\<close>)
  qed
qed simp

lemma send_loop_ends:
  "RxEof \<notin> set (rx s) \<Longrightarrow> length (rx s) < k \<Longrightarrow> fst (send_loop k t s) \<noteq> Inl Out_of_fuel"
proof (induction k arbitrary: s)
  case (Suc k)
  obtain ok s1 where w: "dbg_sock_write t s = (Inr ok, s1)" and s1: "rx s1 = rx s"
    by (cases "wr s") (simp_all add: dbg_sock_write_def)
  obtain res es' sent
    where g: "getpkt_loop 131104 False (rx_start 131104) (rx s) = (res, es', sent)"
    by (metis prod_cases3)
  have e: "RxEof \<notin> set es'" "length es' \<le> length (rx s)" "length es' < length (rx s) \<or> rx s = []"
    using getpkt_loop_shrinks [OF g] Suc(2) by auto
  show ?case
  proof (cases res)
    case (Inl f)
    then show ?thesis
      using g w s1 getpkt_loop_fault [of 131104 False "rx_start 131104" "rx s" f es' sent]
      by (auto simp: act_simps rp_getpkt_step)
  next
    case (Inr ret)
    then have "length es' < k"
      using e Suc(3) g by (cases "rx s = []") auto
    then show ?thesis
      using Suc(1) [of "s1\<lparr>rx := es', tx := tx s1 @ sent\<rparr>"] e g w s1 Inr
      by (auto simp: act_simps rp_getpkt_step)
  qed
qed simp

lemma flush_loop_eof: "rx s = RxEof # es \<Longrightarrow> fst (flush_loop k s) = Inl Out_of_fuel"
proof (induction k arbitrary: s)
  case (Suc k)
  then show ?case
    by (simp add: act_simps rp_getpkt_step)
qed (simp add: failM_apply)

lemma send_loop_nak:
  "rx s = replicate j (RxChar CHR ''-'') @ RxChar CHR ''+'' # es \<Longrightarrow> wr s = [] \<Longrightarrow> j < k \<Longrightarrow>
   send_loop k t s = (Inr True, s\<lparr>rx := es, tx := tx s @ concat (replicate (Suc j) t)\<rparr>)"
proof (induction j arbitrary: s k)
  case 0
  then show ?case
    by (cases k) (simp_all add: act_simps dbg_sock_write_def rp_getpkt_step rx_start_def
        rx_step_def rx_switch_def rx_idle_def)
next
  case (Suc j)
  then obtain m where "k = Suc m" and "j < m"
    by (cases k) simp_all
  then show ?case
    using Suc(1) [of "s\<lparr>rx := replicate j (RxChar CHR ''-'') @ RxChar CHR ''+'' # es,
      tx := tx s @ t\<rparr>" m] Suc(2,3)
    by (simp add: act_simps dbg_sock_write_def rp_getpkt_step rx_start_def
        rx_step_def rx_switch_def rx_idle_def)
qed

section \<open>Properties\<close>

text \<open>
  C5: whatever ordinary text one side sends as a packet, the receiver gives
  back: junk before the packet is skipped, the text arrives unchanged, it is acknowledged with
  a plus sign, and the input behind the packet is left for the next call.
\<close>

theorem rp_packet_roundtrip:
  assumes "list_all junk_char junk" and "ordinary t" and "length t < n" and "6 < n"
    and "rx s = map RxChar (junk @ frame_of t) @ es"
  shows "rp_getpkt n timed s = (Inr (Rx_packet t), s\<lparr>rx := es, tx := tx s @ ''+''\<rparr>)"
  using assms by (simp add: rp_getpkt_step getpkt_junk getpkt_ordinary)

theorem rp_packet_roundtrip_witness:
  "rp_getpkt 16 True \<lparr>rx = map RxChar (''x'' @ frame_of ''m10,4''), tx = [], wr = []\<rparr> =
    (Inr (Rx_packet ''m10,4''), \<lparr>rx = [], tx = ''+'', wr = []\<rparr>)"
  using rp_packet_roundtrip [of "''x''" "''m10,4''" 16
      "\<lparr>rx = map RxChar (''x'' @ frame_of ''m10,4''), tx = [], wr = []\<rparr>" "[]" True]
  by (simp add: junk_char_def ordinary_def)

text \<open>
  C31: a binary write \<open>X addr,len:bytes\<close> is received as the text write
  \<open>M addr,len:hex\<close> of the same bytes: escapes are undone and every byte becomes its two
  hex digits.
\<close>

theorem rp_binary_packet:
  assumes "header_text hdr" and "length hdr \<ge> 3" and "length hdr + 2 * length data + 3 < n"
    and "rx s = map RxChar (frame_of (''X'' @ hdr @ '':'' @ concat (map bin_escape data))) @ es"
  shows "rp_getpkt n timed s =
    (Inr (Rx_packet (''M'' @ hdr @ '':'' @ concat (map rp_encode_byte data))),
     s\<lparr>rx := es, tx := tx s @ ''+''\<rparr>)"
  using assms by (simp add: rp_getpkt_step getpkt_binary [of hdr data n timed es, simplified])

theorem rp_binary_packet_witness:
  "rp_getpkt 32 False
     \<lparr>rx = map RxChar (frame_of (''X'' @ ''10,2'' @ '':'' @ concat (map bin_escape [0x24, 0x41]))),
      tx = [], wr = []\<rparr> =
    (Inr (Rx_packet ''M10,2:2441''), \<lparr>rx = [], tx = ''+'', wr = []\<rparr>)"
  using rp_binary_packet [of "''10,2''" "[0x24, 0x41]" 32
      "\<lparr>rx = map RxChar (frame_of (''X'' @ ''10,2'' @ '':'' @
          concat (map bin_escape [0x24, 0x41]))), tx = [], wr = []\<rparr>" "[]" False]
  by (simp add: rp_encode_byte_def hex_char_def)



text \<open>
  Also: a start-of-packet marker in mid-packet is meant to start the
  new packet, but control falls into the state switch and the marker itself is stored and
  summed. The complete, correct packet that follows a broken one is therefore dropped without
  an acknowledgement of either kind.
\<close>

theorem rp_restart_loses_packet:
  assumes "state r \<noteq> 0" and "ordinary t" and "length t + 1 \<le> buf_len r" and "buf_len r \<le> n"
    and "6 < n" and "length t \<ge> 2 \<longrightarrow> t ! 1 \<noteq> CHR '':''"
  shows "\<exists>r'. state r' = 0 \<and>
    getpkt_loop n timed r (map RxChar (frame_of t) @ es) = getpkt_loop n timed r' es"
proof -
  note run = frame_of_def rx_defs ordinary_def getpkt_reject getpkt_state5 assms(1)
  consider "t = []" | a where "t = [a]" | a b where "t = [a, b]"
    | a b c u where "t = a # b # c # u"
    by (metis list.exhaust)
  then show ?thesis
  proof cases
    case 4
    have "length [a, b, c] + length u + 1 \<le> n"
      using assms(3,4) 4 by simp
    then show ?thesis
      using assms 4 by (simp add: run) (rule idle_again, simp)
  next
    case 1
    then show ?thesis
      using assms by (simp add: run) (rule idle_again, simp)
  next
    case 2
    then show ?thesis
      using assms by (simp add: run) (rule idle_again, simp)
  next
    case 3
    then show ?thesis
      using assms by (simp add: run) (rule idle_again, simp)
  qed
qed

theorem rp_restart_loses_packet_witness:
  "\<exists>r'. state r' = 0 \<and>
    getpkt_loop 16 True (rx_reset (rx_start 16)) (map RxChar (frame_of ''g'') @ []) =
    getpkt_loop 16 True r' []"
  by (rule rp_restart_loses_packet) (simp_all add: rx_reset_def rx_start_def ordinary_def)

text \<open>
  The receiver does not keep a packet inside its buffer. Up to the colon of a binary packet
  there is no bounds check at all, so a header of the buffer's size is stored past its end; and
  an ordinary packet that just fills the buffer gets its terminator stored behind it.
\<close>

theorem binary_header_overflows:
  assumes "header_text hdr" and "n \<le> length hdr" and "6 < n"
  shows "fst (getpkt_loop n timed (rx_start n) (map RxChar (''$X'' @ hdr) @ es)) = Inl Bad_access"
proof -
  have "3 \<le> length hdr"
    using assms(2,3) by simp
  then obtain a b c u where h: "hdr = a # b # c # u"
    by (metis One_nat_def Suc_le_length_iff numeral_3_eq_3)
  have "n - 4 < length u"
    using assms(2,3) by (simp add: h)
  then obtain v d w where u: "u = v @ d # w" "length v = n - 4"
    by (metis id_take_nth_drop length_take min.absorb4 nat_less_le)
  have "Suc (Suc (Suc (Suc (n - 4)))) = n"
    using assms(3) by simp
  then show ?thesis
    using assms u(2) by (simp add: h u(1) header_text_def rx_defs rx_start_def getpkt_state6)
qed

lemma getpkt_overflow:
  assumes "state r = 8" and "calc_csum r = 0" and "n \<le> length (buf r)" and "cs = rx_csum r"
  shows "fst (getpkt_loop n timed r (map RxChar (rp_encode_byte cs) @ es)) = Inl Bad_access"
  using assms
  by (simp add: rx_defs rp_encode_byte_def word_and_15_less hex_char_nibble word_of_nat_unat
      Let_def)

theorem full_packet_overflows:
  assumes "ordinary t" and "length t = n" and "6 < n"
  shows "fst (getpkt_loop n timed (rx_start n) (map RxChar (frame_of t) @ es)) = Inl Bad_access"
proof -
  have "Suc (Suc (Suc (Suc 0))) \<le> length t"
    using assms(2,3) by simp
  then obtain a b c d u where t: "t = a # b # c # d # u"
    by (auto simp: Suc_le_length_iff)
  have n: "length (a # b # c # d # u) \<le> n" "n \<le> length (a # b # c # d # u)"
    using assms(2) by (simp_all add: t)
  show ?thesis
    using assms(1,3) n
    by (simp add: t frame_of_def rx_defs rx_start_def ordinary_def getpkt_state5 getpkt_overflow)
qed

text \<open>
  Also: a packet is sent until it is acknowledged: after \<open>j\<close> negative
  answers and a positive one it has been sent \<open>j + 1\<close> times, the sender reports success, and
  it has consumed the answers only.
\<close>

theorem rp_putpkt_resends:
  assumes "rx s = RxTmout # replicate j (RxChar CHR ''-'') @ RxChar CHR ''+'' # es"
    and "wr s = []" and "NUL \<notin> set t" and "length t < 131104" and "j < k"
  shows "rp_putpkt k t s =
    (Inr True, s\<lparr>rx := es, tx := tx s @ concat (replicate (Suc j) (frame_of t))\<rparr>)"
proof -
  obtain m where k: "k = Suc m"
    using assms(5) by (cases k) simp_all
  have "flush_loop k s = (Inr (), s\<lparr>rx := tl (rx s)\<rparr>)"
    using assms by (simp add: k act_simps rp_getpkt_step)
  then show ?thesis
    using assms send_loop_nak [of "s\<lparr>rx := tl (rx s)\<rparr>" j es k "frame_of t"]
    by (simp add: rp_putpkt_def act_simps)
qed

theorem rp_putpkt_resends_witness:
  "rp_putpkt 2 ''OK'' \<lparr>rx = [RxTmout, RxChar CHR ''-'', RxChar CHR ''+''], tx = [], wr = []\<rparr> =
    (Inr True, \<lparr>rx = [], tx = ''$OK#9a$OK#9a'', wr = []\<rparr>)"
  using rp_putpkt_resends [of "\<lparr>rx = [RxTmout, RxChar CHR ''-'', RxChar CHR ''+''], tx = [], wr = []\<rparr>"
      1 "[]" "''OK''" 2]
  by (simp add: frame_of_def rp_encode_byte_def hex_char_def)



text \<open>
  Also: when the peer has closed the connection, the
  loop that flushes old input never ends: the receiver reports an error for ever, and the loop
  waits for a timeout. No number of rounds is enough, and nothing is ever written.
\<close>

theorem rp_putpkt_hangs_on_closed_connection:
  assumes "rx s = RxEof # es" and "length (cstr t) < 131104"
  shows "fst (rp_putpkt k t s) = Inl Out_of_fuel"
  using assms flush_loop_eof [of s es k]
  by (cases "flush_loop k s") (simp add: rp_putpkt_def Let_def act_simps)

theorem rp_putpkt_hangs_on_closed_connection_witness:
  "fst (rp_putpkt 1000 ''OK'' \<lparr>rx = [RxEof], tx = [], wr = []\<rparr>) = Inl Out_of_fuel"
  by (rule rp_putpkt_hangs_on_closed_connection [of _ "[]"]) (simp_all add: cstr_def)

end
