(* ===== verification/Adapter.thy ===== *)
theory Adapter
  imports Prelude
begin

text \<open>
  The interface between the target layer and a JTAG adapter: the constants of oncd.h, and
  \<open>adapter_t\<close> of adapter.h, a table of functions over the state of the hardware.

  The C structure has one data field that the target layer writes too, \<open>oscr\<close>, the shadow of
  the debug unit's control register. It and the state of the device behind the adapter (of the
  type \<open>'w\<close>, a parameter: the USB device, the chip, the private variables of the driver) make
  up the world the functions work on. A NULL function pointer is \<open>None\<close>.
\<close>

section \<open>The OnCD debug unit (oncd.h)\<close>

abbreviation (input) "IRd_RESUME \<equiv> (0x20 :: u32)"
abbreviation (input) "IRd_READ \<equiv> (0x40 :: u32)"
abbreviation (input) "IRd_FLUSH_PIPE \<equiv> (0x40 :: u32)"
abbreviation (input) "IRd_STEP_1CLK \<equiv> (0x80 :: u32)"

abbreviation (input) "OnCD_OSCR \<equiv> (0x00 :: u32)"
abbreviation (input) "OnCD_OMBC \<equiv> (0x01 :: u32)"
abbreviation (input) "OnCD_OMLR0 \<equiv> (0x02 :: u32)"
abbreviation (input) "OnCD_OMLR1 \<equiv> (0x03 :: u32)"
abbreviation (input) "OnCD_OBCR \<equiv> (0x04 :: u32)"
abbreviation (input) "OnCD_IRdec \<equiv> (0x05 :: u32)"
abbreviation (input) "OnCD_OTC \<equiv> (0x06 :: u32)"
abbreviation (input) "OnCD_PCdec \<equiv> (0x07 :: u32)"
abbreviation (input) "OnCD_PCexec \<equiv> (0x08 :: u32)"
abbreviation (input) "OnCD_PCmem \<equiv> (0x09 :: u32)"
abbreviation (input) "OnCD_PCfetch \<equiv> (0x0A :: u32)"
abbreviation (input) "OnCD_OMAR \<equiv> (0x0B :: u32)"
abbreviation (input) "OnCD_OMDR \<equiv> (0x0C :: u32)"
abbreviation (input) "OnCD_MEM \<equiv> (0x0D :: u32)"
abbreviation (input) "OnCD_MEMACK \<equiv> (0x0E :: u32)"
abbreviation (input) "OnCD_GO \<equiv> (0x0F :: u32)"
abbreviation (input) "OnCD_REGF \<equiv> (0x10 :: u32)"

abbreviation (input) "OSCR_SlctMEM \<equiv> (0x0001 :: u32)"
abbreviation (input) "OSCR_RO \<equiv> (0x0002 :: u32)"
abbreviation (input) "OSCR_TME \<equiv> (0x0004 :: u32)"
abbreviation (input) "OSCR_IME \<equiv> (0x0008 :: u32)"
abbreviation (input) "OSCR_MPE \<equiv> (0x0010 :: u32)"
abbreviation (input) "OSCR_RDYm \<equiv> (0x0020 :: u32)"
abbreviation (input) "OSCR_SWO \<equiv> (0x0100 :: u32)"
abbreviation (input) "OSCR_SO \<equiv> (0x0200 :: u32)"
abbreviation (input) "OSCR_DBM \<equiv> (0x0400 :: u32)"
abbreviation (input) "OSCR_NDS \<equiv> (0x0800 :: u32)"
abbreviation (input) "OSCR_NFEXP \<equiv> (0x2000 :: u32)"

abbreviation (input) "OBCR_MBS0 \<equiv> (0x001 :: u32)"
abbreviation (input) "OBCR_MBS1 \<equiv> (0x002 :: u32)"
abbreviation (input) "OBCR_RW0_WRITE \<equiv> (0x004 :: u32)"
abbreviation (input) "OBCR_RW0_READ \<equiv> (0x008 :: u32)"
abbreviation (input) "OBCR_RW0_RW \<equiv> (0x00c :: u32)"
abbreviation (input) "OBCR_RW0_MASK \<equiv> (0x00c :: u32)"
abbreviation (input) "OBCR_CC0_EQ \<equiv> (0x010 :: u32)"
abbreviation (input) "OBCR_CC0_MASK \<equiv> (0x030 :: u32)"
abbreviation (input) "OBCR_RW1_RW \<equiv> (0x0c0 :: u32)"
abbreviation (input) "OBCR_RW1_MASK \<equiv> (0x0c0 :: u32)"
abbreviation (input) "OBCR_CC1_MASK \<equiv> (0x300 :: u32)"
abbreviation (input) "OBCR_ANY \<equiv> (0x400 :: u32)"

abbreviation (input) "GROUP_RFCPU \<equiv> (0 :: u32)"
abbreviation (input) "GROUP_RFFPU \<equiv> (1 :: u32)"
abbreviation (input) "GROUP_CP0 \<equiv> (2 :: u32)"
abbreviation (input) "GROUP_HILO \<equiv> (3 :: u32)"
abbreviation (input) "GROUP_CP1 \<equiv> (4 :: u32)"

section \<open>The function table (adapter.h)\<close>

record 'w aworld =
  oscr :: u32
  dev :: 'w

text \<open>The arguments that the block programming functions share.\<close>

record flash_cmds =
  fc_addr_odd :: u32
  fc_addr_even :: u32
  fc_cmd_aa :: u32
  fc_cmd_55 :: u32
  fc_cmd_a0 :: u32

text \<open>
  Block functions take the number of words, then \<open>base\<close> for the programming ones, the
  address and the data from the pointer on; \<open>write_nwords\<close> takes its variable arguments as
  address and data pairs.
\<close>

type_synonym 'w program_op =
  "nat \<Rightarrow> u32 \<Rightarrow> u32 \<Rightarrow> u32 list \<Rightarrow> flash_cmds \<Rightarrow> ('w aworld, unit) act"

record 'w adapter =
  a_name :: string
  a_close :: "('w aworld, unit) act"
  a_get_idcode :: "('w aworld, u32) act"
  a_cpu_stopped :: "('w aworld, bool) act"
  a_stop_cpu :: "('w aworld, unit) act"
  a_reset_cpu :: "('w aworld, unit) act"
  a_oncd_write :: "u32 \<Rightarrow> u32 \<Rightarrow> nat \<Rightarrow> ('w aworld, unit) act"
  a_oncd_read :: "u32 \<Rightarrow> nat \<Rightarrow> ('w aworld, u32) act"
  a_block_words :: nat
  a_program_block_words :: nat
  a_step_cpu :: "('w aworld, unit) act option"
  a_run_cpu :: "('w aworld, unit) act option"
  a_read_block :: "(nat \<Rightarrow> u32 \<Rightarrow> ('w aworld, u32 list) act) option"
  a_write_block :: "(nat \<Rightarrow> u32 \<Rightarrow> u32 list \<Rightarrow> ('w aworld, unit) act) option"
  a_write_nwords :: "((u32 \<times> u32) list \<Rightarrow> ('w aworld, unit) act) option"
  a_program_block32 :: "'w program_op option"
  a_program_block32_unprotect :: "'w program_op option"
  a_program_block32_protect :: "'w program_op option"
  a_program_block64 :: "'w program_op option"
  a_program_block32_micron :: "(nat \<Rightarrow> u32 \<Rightarrow> u32 list \<Rightarrow> ('w aworld, unit) act) option"

end
