(* ===== verification/Target.thy ===== *)
theory Target
  imports Adapter
begin

text \<open>
  target.c: the state of the processor under debug (\<open>target_t\<close>), single instructions through
  the debug unit, the register cache, saving and restoring the pipeline, and word access to
  memory. The flash operations are in Flash, running and breakpoints in Target\_Run.

  Register numbers are natural numbers; the arrays of the structure are functions of the index,
  which every use keeps in range. Delays and messages have no state and are left out; a message
  before \<open>exit\<close> names the place.
\<close>

section \<open>Constants of target.c and mips.h\<close>

abbreviation (input) "MC12_ID \<equiv> (0x20777001 :: u32)"
abbreviation (input) "MC12REV1_ID \<equiv> (0x30777001 :: u32)"
abbreviation (input) "MC12REV2_ID \<equiv> (0x40777001 :: u32)"
abbreviation (input) "MC_CSCON3 \<equiv> (0x182F100C :: u32)"
abbreviation (input) "CRAM_ADDR \<equiv> (0xb8000000 :: u32)"
abbreviation (input) "BOOT_ADDR \<equiv> (0xbfc00000 :: u32)"
abbreviation (input) "GP \<equiv> (28 :: nat)"
abbreviation (input) "FP \<equiv> (30 :: nat)"
abbreviation (input) "NO_EXCEPTION \<equiv> (0xffffffff :: u32)"
abbreviation (input) "NFLASH \<equiv> (16 :: nat)"

abbreviation (input) "MIPS_NOP \<equiv> (0 :: u32)"
abbreviation (input) "MIPS_SLL \<equiv> (0 :: u32)"
abbreviation (input) "MIPS_JR \<equiv> (0x8 :: u32)"
abbreviation (input) "MIPS_MFHI \<equiv> (0x10 :: u32)"
abbreviation (input) "MIPS_MFLO \<equiv> (0x12 :: u32)"
abbreviation (input) "MIPS_MTHI \<equiv> (0x11 :: u32)"
abbreviation (input) "MIPS_MTLO \<equiv> (0x13 :: u32)"
abbreviation (input) "MIPS_ADDI \<equiv> (0x20000000 :: u32)"
abbreviation (input) "MIPS_ORI \<equiv> (0x34000000 :: u32)"
abbreviation (input) "MIPS_LUI \<equiv> (0x3C000000 :: u32)"
abbreviation (input) "MIPS_SW \<equiv> (0xAC000000 :: u32)"
abbreviation (input) "MIPS_SWC1 \<equiv> (0xE4000000 :: u32)"
abbreviation (input) "MIPS_MFC0 \<equiv> (0x40000000 :: u32)"
abbreviation (input) "MIPS_MTC0 \<equiv> (0x40800000 :: u32)"
abbreviation (input) "MIPS_MTC1 \<equiv> (0x44800000 :: u32)"
abbreviation (input) "MIPS_CTC1 \<equiv> (0x44C00000 :: u32)"
abbreviation (input) "MIPS_CFC1 \<equiv> (0x44400000 :: u32)"

abbreviation (input) "CP0_BADVADDR \<equiv> (8 :: nat)"
abbreviation (input) "CP0_STATUS \<equiv> (12 :: nat)"
abbreviation (input) "CP0_CAUSE \<equiv> (13 :: nat)"
abbreviation (input) "CP1_FIR \<equiv> (0 :: nat)"
abbreviation (input) "CP1_FCSR \<equiv> (31 :: nat)"

definition MC_CSCON3_ADDR :: "u32 \<Rightarrow> u32" where
  "MC_CSCON3_ADDR addr = push_bit 20 (addr AND 3)"

section \<open>The target structure\<close>

record 'w target =
  t_adapter :: "'w adapter"
  aw :: "'w aworld"
  cpu_name :: string
  idcode :: u32
  is_running :: bool
  cscon3 :: u32
  flash_width :: nat
  chip_width :: nat
  flash_bytes :: u32
  sector_size :: u32
  flash_addr_odd :: u32
  flash_addr_even :: u32
  flash_cmd_aa :: u32
  flash_cmd_55 :: u32
  flash_cmd_10 :: u32
  flash_cmd_20 :: u32
  flash_cmd_30 :: u32
  flash_cmd_80 :: u32
  flash_cmd_90 :: u32
  flash_cmd_a0 :: u32
  flash_cmd_f0 :: u32
  flash_devid_offset :: u32
  flash_base :: "nat \<Rightarrow> u32"
  flash_last :: "nat \<Rightarrow> u32"
  flash_delay :: nat
  micron_com_set :: bool
  pc_fetch :: u32
  pc_dec :: u32
  ir_dec :: u32
  pc_exec :: u32
  mem0 :: u32
  reg :: "nat \<Rightarrow> u32"
  valid :: "nat \<Rightarrow> bool"
  reg_lo :: u32
  valid_lo :: bool
  reg_hi :: u32
  valid_hi :: bool
  reg_cp0 :: "nat \<Rightarrow> u32"
  valid_cp0 :: "nat \<Rightarrow> bool"
  reg_fpu :: "nat \<Rightarrow> u32"
  valid_fpu :: "nat \<Rightarrow> bool"
  reg_fcsr :: u32
  valid_fcsr :: bool
  reg_fir :: u32
  valid_fir :: bool
  exception :: u32

type_synonym ('w, 'a) tact = "('w target, 'a) act"

text \<open>Calling a function of the adapter's table, and the shadow register.\<close>

definition on_adapter :: "('w adapter \<Rightarrow> ('w aworld, 'a) act) \<Rightarrow> ('w, 'a) tact" where
  "on_adapter f t = (case f (t_adapter t) (aw t) of (r, w) \<Rightarrow> (r, t\<lparr>aw := w\<rparr>))"

definition oncd_write :: "u32 \<Rightarrow> u32 \<Rightarrow> nat \<Rightarrow> ('w, unit) tact" where
  "oncd_write val regno nbits = on_adapter (\<lambda>a. a_oncd_write a val regno nbits)"

definition oncd_read :: "u32 \<Rightarrow> nat \<Rightarrow> ('w, u32) tact" where
  "oncd_read regno nbits = on_adapter (\<lambda>a. a_oncd_read a regno nbits)"

definition get_oscr :: "('w, u32) tact" where
  "get_oscr = getM (\<lambda>t. oscr (aw t))"

definition set_oscr :: "u32 \<Rightarrow> ('w, unit) tact" where
  "set_oscr v = modM (\<lambda>t. t\<lparr>aw := (aw t)\<lparr>oscr := v\<rparr>\<rparr>)"

text \<open>\<open>t->adapter->oscr = f (t->adapter->oscr)\<close>, and sending the shadow to the unit.\<close>

definition upd_oscr :: "(u32 \<Rightarrow> u32) \<Rightarrow> ('w, unit) tact" where
  "upd_oscr f = bindM get_oscr (\<lambda>v. set_oscr (f v))"

definition send_oscr :: "('w, unit) tact" where
  "send_oscr = bindM get_oscr (\<lambda>v. oncd_write v OnCD_OSCR 32)"

section \<open>Word access to memory\<close>

definition phys_of :: "u32 \<Rightarrow> u32" where
  "phys_of addr =
     (if addr \<ge> 0xA0000000 then addr - 0xA0000000
      else if addr \<ge> 0x80000000 then addr - 0x80000000 else addr)"

text \<open>
  The wait for the bit RDYm: at most \<open>count\<close> reads of the control register, which the shadow
  keeps; \<open>False\<close> when the count ran out.
\<close>

primrec wait_rdym :: "nat \<Rightarrow> ('w, bool) tact" where
  "wait_rdym 0 = retM False"
| "wait_rdym (Suc count) = bindM (oncd_read OnCD_OSCR 32) (\<lambda>v.
     seqM (set_oscr v)
       (if v AND OSCR_RDYm \<noteq> 0 then retM True else wait_rdym count))"

definition target_write_next :: "u32 \<Rightarrow> u32 \<Rightarrow> ('w, unit) tact" where
  "target_write_next phys_addr data =
     seqM (oncd_write (phys_of phys_addr) OnCD_OMAR 32)
    (seqM (oncd_write data OnCD_OMDR 32)
    (seqM (oncd_write 0 OnCD_MEM 0)
    (bindM (getM is_running) (\<lambda>running.
       if running
       then bindM (wait_rdym 100) (\<lambda>ok.
         if ok then retM () else failM (Exit 1 ''Timeout writing memory''))
       else retM ()))))"

definition target_write_word :: "u32 \<Rightarrow> u32 \<Rightarrow> ('w, unit) tact" where
  "target_write_word phys_addr data = bindM get_oscr (\<lambda>old.
     let oscr_new = (old AND NOT OSCR_RO) OR OSCR_SlctMEM in
     seqM (whenM (oscr_new \<noteq> old) (seqM (set_oscr oscr_new) send_oscr))
       (target_write_next phys_addr data))"

definition target_read_start :: "('w, unit) tact" where
  "target_read_start = bindM get_oscr (\<lambda>old.
     let oscr_new = old OR OSCR_SlctMEM OR OSCR_RO in
     whenM (oscr_new \<noteq> old) (seqM (set_oscr oscr_new) send_oscr))"

definition target_read_next :: "u32 \<Rightarrow> ('w, u32) tact" where
  "target_read_next phys_addr =
     seqM (oncd_write (phys_of phys_addr) OnCD_OMAR 32)
    (seqM (oncd_write 0 OnCD_MEM 0)
    (bindM (wait_rdym 1000) (\<lambda>ok.
       if ok then oncd_read OnCD_OMDR 32
       else failM (Exit 1 ''Timeout reading memory''))))"

definition target_read_word :: "u32 \<Rightarrow> ('w, u32) tact" where
  "target_read_word phys_addr = seqM target_read_start (target_read_next phys_addr)"

text \<open>The fallback of \<open>target_write_nwords\<close> takes a first pair unconditionally.\<close>

definition write_pairs :: "(u32 \<times> u32) list \<Rightarrow> ('w, unit) tact" where
  "write_pairs args = (case args of
     [] \<Rightarrow> failM Bad_access
   | (addr, data) # rest \<Rightarrow> seqM (target_write_word addr data)
       (seqsM (map (\<lambda>(a, d). target_write_next a d) rest)))"

definition target_write_nwords :: "(u32 \<times> u32) list \<Rightarrow> ('w, unit) tact" where
  "target_write_nwords args = bindM (getM (\<lambda>t. a_write_nwords (t_adapter t))) (\<lambda>op.
     case op of Some f \<Rightarrow> on_adapter (\<lambda>_. f args) | None \<Rightarrow> write_pairs args)"

definition cscon3_for :: "'w target \<Rightarrow> u32 \<Rightarrow> u32" where
  "cscon3_for t addr = cscon3 t OR MC_CSCON3_ADDR addr"

definition target_write_byte :: "u32 \<Rightarrow> u32 \<Rightarrow> ('w, unit) tact" where
  "target_write_byte addr data = bindM (getM id) (\<lambda>t.
     if a_write_nwords (t_adapter t) \<noteq> None
     then target_write_nwords [(MC_CSCON3, cscon3_for t addr), (addr, data)]
     else seqM (target_write_word MC_CSCON3 (cscon3_for t addr)) (target_write_next addr data))"

definition target_write_2bytes :: "u32 \<Rightarrow> u32 \<Rightarrow> u32 \<Rightarrow> u32 \<Rightarrow> ('w, unit) tact" where
  "target_write_2bytes addr1 data1 addr2 data2 = bindM (getM id) (\<lambda>t.
     if a_write_nwords (t_adapter t) \<noteq> None
     then target_write_nwords [(MC_CSCON3, cscon3_for t addr1), (addr1, data1),
       (MC_CSCON3, cscon3_for t addr2), (addr2, data2)]
     else seqsM [target_write_word MC_CSCON3 (cscon3_for t addr1),
       target_write_next addr1 data1,
       target_write_next MC_CSCON3 (cscon3_for t addr2),
       target_write_next addr2 data2])"

section \<open>Instructions and registers\<close>

definition target_exec :: "u32 \<Rightarrow> ('w, unit) tact" where
  "target_exec instr = seqsM
     [oncd_write BOOT_ADDR OnCD_PCfetch 32,
      oncd_write instr OnCD_IRdec 32,
      oncd_write 0 (OnCD_GO OR IRd_FLUSH_PIPE OR IRd_STEP_1CLK) 0]"

definition regf_read :: "u32 \<Rightarrow> nat \<Rightarrow> ('w, u32) tact" where
  "regf_read grp n = (let irdec = grp OR (if grp < 2 then push_bit 16 (of_nat n)
       else push_bit 3 (of_nat n)) in
     seqM (oncd_write irdec OnCD_IRdec 32) (oncd_read OnCD_REGF 32))"

definition regf_write :: "u32 \<Rightarrow> nat \<Rightarrow> u32 \<Rightarrow> ('w, unit) tact" where
  "regf_write grp n val =
     seqM (oncd_write (grp OR push_bit 3 (of_nat n)) OnCD_IRdec 32)
          (oncd_write val OnCD_REGF 32)"

text \<open>Instruction fields: a register number shifted into its place.\<close>

definition fld :: "nat \<Rightarrow> nat \<Rightarrow> u32" where
  "fld k regno = push_bit k (of_nat regno)"

definition target_read_reg :: "nat \<Rightarrow> ('w, u32) tact" where
  "target_read_reg regno = bindM (getM idcode) (\<lambda>id.
     if id \<noteq> MC12_ID then regf_read GROUP_RFCPU regno
     else seqM (target_exec (MIPS_SW OR fld 21 GP OR fld 16 regno))
       (seqM (seqsM [target_exec MIPS_NOP, target_exec MIPS_NOP, target_exec MIPS_NOP])
         (target_read_word CRAM_ADDR)))"

definition target_write_reg :: "nat \<Rightarrow> u32 \<Rightarrow> ('w, unit) tact" where
  "target_write_reg regno val = bindM (getM idcode) (\<lambda>id.
     if id \<noteq> MC12_ID then regf_write GROUP_RFCPU regno val
     else seqsM
       [target_exec (MIPS_ADDI OR fld 16 regno OR drop_bit 16 val),
        target_exec (MIPS_SLL OR fld 11 regno OR fld 16 regno OR push_bit 6 16),
        target_exec (MIPS_ORI OR fld 16 regno OR fld 21 regno OR (val AND 0xffff))])"

definition target_read_cp0 :: "nat \<Rightarrow> ('w, u32) tact" where
  "target_read_cp0 regno = bindM (getM idcode) (\<lambda>id.
     if id \<noteq> MC12_ID then regf_read GROUP_CP0 regno
     else seqM (target_exec (MIPS_MFC0 OR fld 16 FP OR fld 11 regno))
       (seqM (target_exec MIPS_NOP) (seqM (target_exec MIPS_NOP) (target_read_reg FP))))"

definition target_write_cp0 :: "nat \<Rightarrow> u32 \<Rightarrow> ('w, unit) tact" where
  "target_write_cp0 regno val = bindM (getM idcode) (\<lambda>id.
     if id \<noteq> MC12_ID then regf_write GROUP_CP0 regno val
     else seqsM [target_write_reg FP val,
       target_exec (MIPS_MTC0 OR fld 16 FP OR fld 11 regno), target_exec MIPS_NOP])"

definition target_read_fpu :: "nat \<Rightarrow> ('w, u32) tact" where
  "target_read_fpu regno = bindM (getM idcode) (\<lambda>id.
     if id \<noteq> MC12_ID then regf_read GROUP_RFFPU regno
     else seqM (target_exec (MIPS_SWC1 OR fld 21 GP OR fld 16 regno))
       (seqM (seqsM [target_exec MIPS_NOP, target_exec MIPS_NOP, target_exec MIPS_NOP])
         (target_read_word CRAM_ADDR)))"

definition target_write_fpu :: "nat \<Rightarrow> u32 \<Rightarrow> ('w, unit) tact" where
  "target_write_fpu regno val = bindM (getM idcode) (\<lambda>id.
     if id \<noteq> MC12_ID then regf_write GROUP_RFFPU regno val
     else seqsM [target_write_reg FP val,
       target_exec (MIPS_MTC1 OR fld 16 FP OR fld 11 regno), target_exec MIPS_NOP])"

definition target_read_fpuctl :: "nat \<Rightarrow> ('w, u32) tact" where
  "target_read_fpuctl regno = bindM (getM idcode) (\<lambda>id.
     if id \<noteq> MC12_ID then regf_read GROUP_CP1 regno
     else seqM (target_exec (MIPS_CFC1 OR fld 16 FP OR fld 11 regno))
       (seqM (target_exec MIPS_NOP) (seqM (target_exec MIPS_NOP) (target_read_reg FP))))"

definition target_write_fpuctl :: "nat \<Rightarrow> u32 \<Rightarrow> ('w, unit) tact" where
  "target_write_fpuctl regno val = bindM (getM idcode) (\<lambda>id.
     if id \<noteq> MC12_ID then regf_write GROUP_CP1 regno val
     else seqsM [target_write_reg FP val,
       target_exec (MIPS_CTC1 OR fld 16 FP OR fld 11 regno), target_exec MIPS_NOP])"

section \<open>The register cache\<close>

text \<open>
  Each cached register: fetch it when it is not valid, keep it, and return the kept value.
\<close>

definition cached ::
  "('w target \<Rightarrow> bool) \<Rightarrow> ('w target \<Rightarrow> u32) \<Rightarrow> ('w, u32) tact \<Rightarrow>
   (u32 \<Rightarrow> 'w target \<Rightarrow> 'w target) \<Rightarrow> ('w, u32) tact" where
  "cached is_valid val fetch keep = seqM
     (bindM (getM is_valid) (\<lambda>v. whenM (\<not> v) (bindM fetch (\<lambda>x. modM (keep x)))))
     (getM val)"

definition keep_reg :: "nat \<Rightarrow> u32 \<Rightarrow> 'w target \<Rightarrow> 'w target" where
  "keep_reg n x t = t\<lparr>reg := (reg t)(n := x), valid := (valid t)(n := True)\<rparr>"

definition keep_cp0 :: "nat \<Rightarrow> u32 \<Rightarrow> 'w target \<Rightarrow> 'w target" where
  "keep_cp0 n x t = t\<lparr>reg_cp0 := (reg_cp0 t)(n := x), valid_cp0 := (valid_cp0 t)(n := True)\<rparr>"

definition keep_fpu :: "nat \<Rightarrow> u32 \<Rightarrow> 'w target \<Rightarrow> 'w target" where
  "keep_fpu n x t = t\<lparr>reg_fpu := (reg_fpu t)(n := x), valid_fpu := (valid_fpu t)(n := True)\<rparr>"

definition read_cached_cp0 :: "nat \<Rightarrow> ('w, u32) tact" where
  "read_cached_cp0 n =
     cached (\<lambda>t. valid_cp0 t n) (\<lambda>t. reg_cp0 t n) (target_read_cp0 n) (keep_cp0 n)"

text \<open>LO is entry 0 of the group HILO and HI is entry 1; \<open>mf\<close> is the move instruction.\<close>

definition fetch_hilo :: "nat \<Rightarrow> u32 \<Rightarrow> ('w, u32) tact" where
  "fetch_hilo n mf = bindM (getM idcode) (\<lambda>id.
     if id \<noteq> MC12_ID then regf_read GROUP_HILO n
     else seqM (target_exec (mf OR fld 11 FP)) (target_read_reg FP))"

definition store_hilo :: "nat \<Rightarrow> u32 \<Rightarrow> u32 \<Rightarrow> ('w, unit) tact" where
  "store_hilo n mt val = bindM (getM idcode) (\<lambda>id.
     if id \<noteq> MC12_ID then regf_write GROUP_HILO n val
     else seqsM [target_write_reg FP val, target_exec MIPS_NOP,
       target_exec (mt OR fld 21 FP), target_exec MIPS_NOP])"

definition target_read_register :: "nat \<Rightarrow> ('w, u32) tact" where
  "target_read_register regno =
     (if regno \<le> 31 then
        cached (\<lambda>t. valid t regno) (\<lambda>t. reg t regno) (target_read_reg regno) (keep_reg regno)
      else if regno = 32 then read_cached_cp0 CP0_STATUS
      else if regno = 33 then
        cached valid_lo reg_lo (fetch_hilo 0 MIPS_MFLO) (\<lambda>x t. t\<lparr>reg_lo := x, valid_lo := True\<rparr>)
      else if regno = 34 then
        cached valid_hi reg_hi (fetch_hilo 1 MIPS_MFHI) (\<lambda>x t. t\<lparr>reg_hi := x, valid_hi := True\<rparr>)
      else if regno = 35 then read_cached_cp0 CP0_BADVADDR
      else if regno = 36 then read_cached_cp0 CP0_CAUSE
      else if regno = 37 then
        getM (\<lambda>t. if exception t \<noteq> NO_EXCEPTION then exception t else pc_dec t)
      else if regno \<le> 69 then
        cached (\<lambda>t. valid_fpu t (regno - 38)) (\<lambda>t. reg_fpu t (regno - 38))
          (target_read_fpu (regno - 38)) (keep_fpu (regno - 38))
      else if regno = 70 then
        cached valid_fcsr reg_fcsr (target_read_fpuctl CP1_FCSR)
          (\<lambda>x t. t\<lparr>reg_fcsr := x, valid_fcsr := True\<rparr>)
      else if regno = 71 then
        cached valid_fir reg_fir (target_read_fpuctl CP1_FIR)
          (\<lambda>x t. t\<lparr>reg_fir := x, valid_fir := True\<rparr>)
      else retM 0)"

text \<open>BADVADDR (35) and FIR (71) cannot be changed.\<close>

definition target_write_register :: "nat \<Rightarrow> u32 \<Rightarrow> ('w, unit) tact" where
  "target_write_register regno val =
     (if regno \<le> 31 then seqM (target_write_reg regno val) (modM (keep_reg regno val))
      else if regno = 32 then seqM (target_write_cp0 CP0_STATUS val) (modM (keep_cp0 CP0_STATUS val))
      else if regno = 33 then seqM (store_hilo 0 MIPS_MTLO val)
        (modM (\<lambda>t. t\<lparr>reg_lo := val, valid_lo := True\<rparr>))
      else if regno = 34 then seqM (store_hilo 1 MIPS_MTHI val)
        (modM (\<lambda>t. t\<lparr>reg_hi := val, valid_hi := True\<rparr>))
      else if regno = 36 then seqM (target_write_cp0 CP0_CAUSE val) (modM (keep_cp0 CP0_CAUSE val))
      else if regno = 37 then modM (\<lambda>t. t\<lparr>exception := val\<rparr>)
      else if 38 \<le> regno \<and> regno \<le> 69 then
        seqM (target_write_fpu (regno - 38) val) (modM (keep_fpu (regno - 38) val))
      else if regno = 70 then seqM (target_write_fpuctl CP1_FCSR val)
        (modM (\<lambda>t. t\<lparr>reg_fcsr := val, valid_fcsr := True\<rparr>))
      else retM ())"

section \<open>Saving and restoring the processor state\<close>

definition invalidate_regs :: "'w target \<Rightarrow> 'w target" where
  "invalidate_regs t = t\<lparr>valid := (\<lambda>i. if i < 32 then False else valid t i),
     valid_cp0 := (\<lambda>i. if i < 32 then False else valid_cp0 t i),
     valid_fpu := (\<lambda>i. if i < 32 then False else valid_fpu t i),
     valid_lo := False, valid_hi := False, valid_fcsr := False, valid_fir := False\<rparr>"

text \<open>One round of the loop that empties the stages exec, mem and wb.\<close>

definition flush_stage :: "('w, unit) tact" where
  "flush_stage = seqM (target_exec MIPS_NOP) (bindM (getM exception) (\<lambda>e.
     if e = NO_EXCEPTION
     then bindM (oncd_read OnCD_PCfetch 32) (\<lambda>pc.
       whenM (pc \<noteq> BOOT_ADDR + 4) (modM (\<lambda>t. t\<lparr>exception := pc\<rparr>)))
     else retM ()))"

definition save_pipeline :: "('w, unit) tact" where
  "save_pipeline = seqsM
     [bindM (oncd_read OnCD_PCfetch 32) (\<lambda>v. modM (\<lambda>t. t\<lparr>pc_fetch := v\<rparr>)),
      bindM (oncd_read OnCD_PCdec 32) (\<lambda>v. modM (\<lambda>t. t\<lparr>pc_dec := v\<rparr>)),
      bindM (oncd_read OnCD_IRdec 32) (\<lambda>v. modM (\<lambda>t. t\<lparr>ir_dec := v\<rparr>)),
      bindM (oncd_read OnCD_PCexec 32) (\<lambda>v. modM (\<lambda>t. t\<lparr>pc_exec := v\<rparr>)),
      bindM (oncd_read OnCD_OSCR 32) set_oscr,
      upd_oscr (\<lambda>v. v AND NOT OSCR_NDS),
      upd_oscr (\<lambda>v. v OR OSCR_NFEXP),
      send_oscr,
      modM (\<lambda>t. t\<lparr>exception := NO_EXCEPTION\<rparr>)]"

definition save_mc12 :: "('w, unit) tact" where
  "save_mc12 = seqsM
     [bindM (target_read_word CRAM_ADDR) (\<lambda>v. modM (\<lambda>t. t\<lparr>mem0 := v\<rparr>)),
      target_exec MIPS_NOP,
      target_exec MIPS_NOP,
      target_exec (MIPS_JR OR fld 21 GP),
      bindM (oncd_read OnCD_PCfetch 32) (\<lambda>v. modM (keep_reg GP v)),
      target_exec (MIPS_LUI OR fld 16 GP OR drop_bit 16 CRAM_ADDR OR 0x8000),
      target_exec MIPS_NOP,
      target_exec MIPS_NOP,
      bindM (target_read_reg FP) (\<lambda>v. modM (keep_reg FP v))]"

definition target_save_state :: "('w, unit) tact" where
  "target_save_state = seqsM
     [save_pipeline,
      bindM (getM pc_exec) (\<lambda>pc. whenM (pc \<noteq> 0) (seqsM [flush_stage, flush_stage, flush_stage])),
      upd_oscr (\<lambda>v. v AND NOT OSCR_NFEXP),
      upd_oscr (\<lambda>v. v OR OSCR_DBM),
      send_oscr,
      modM invalidate_regs,
      bindM (getM idcode) (\<lambda>id. whenM (id = MC12_ID) save_mc12)]"

abbreviation (input) step_1clk :: "('w, unit) tact" where
  "step_1clk \<equiv> oncd_write 0 (OnCD_GO OR IRd_FLUSH_PIPE OR IRd_STEP_1CLK) 0"

definition target_restore_state :: "('w, unit) tact" where
  "target_restore_state = seqsM
     [bindM (getM id) (\<lambda>t. whenM (idcode t = MC12_ID) (seqsM
        [target_write_reg FP (reg t FP),
         target_write_reg GP (reg t GP),
         target_write_word CRAM_ADDR (mem0 t)])),
      target_exec MIPS_NOP, target_exec MIPS_NOP, target_exec MIPS_NOP,
      bindM (getM id) (\<lambda>t.
        if exception t = NO_EXCEPTION then seqsM
          [oncd_write (pc_dec t) OnCD_PCfetch 32,
           oncd_write MIPS_NOP OnCD_IRdec 32,
           step_1clk,
           oncd_write (ir_dec t) OnCD_IRdec 32,
           oncd_write (pc_fetch t) OnCD_PCfetch 32]
        else seqsM
          [oncd_write (exception t) OnCD_PCfetch 32,
           oncd_write MIPS_NOP OnCD_IRdec 32,
           step_1clk]),
      upd_oscr (\<lambda>v. v OR OSCR_NDS),
      upd_oscr (\<lambda>v. v AND NOT OSCR_DBM),
      send_oscr]"

section \<open>Opening\<close>

definition RESET_RETRY :: nat where
  "RESET_RETRY = 100"

definition bad_idcode :: "u32 \<Rightarrow> bool" where
  "bad_idcode c \<longleftrightarrow> c = 0xffffffff \<or> c = 0"

primrec probe_idcode :: "nat \<Rightarrow> ('w, unit) tact" where
  "probe_idcode 0 = retM ()"
| "probe_idcode (Suc n) = bindM (on_adapter a_get_idcode) (\<lambda>c.
     seqM (modM (\<lambda>t. t\<lparr>idcode := c\<rparr>))
       (if bad_idcode c then seqM (on_adapter a_reset_cpu) (probe_idcode n) else retM ()))"

definition name_cpu :: "('w, unit) tact" where
  "name_cpu = bindM (getM idcode) (\<lambda>c.
     if c = MC12_ID then modM (\<lambda>t. t\<lparr>cpu_name := ''MC12''\<rparr>)
     else if c = MC12REV1_ID then modM (\<lambda>t. t\<lparr>cpu_name := ''MC12r1''\<rparr>)
     else if c = MC12REV2_ID then modM (\<lambda>t. t\<lparr>cpu_name := ''MC12r2''\<rparr>)
     else seqM (on_adapter a_close) (failM (Exit 1 ''No response from device'')))"

text \<open>
  \<open>new_target\<close>: the cleared structure. \<open>target_open\<close> takes the results of the four open
  functions in the order the code tries them; the first that is not NULL is used.
\<close>

definition new_target :: "'w adapter \<Rightarrow> 'w aworld \<Rightarrow> 'w target" where
  "new_target a w = \<lparr>t_adapter = a, aw = w, cpu_name = ''Unknown'', idcode = 0,
     is_running = False, cscon3 = 0, flash_width = 0, chip_width = 0, flash_bytes = 0,
     sector_size = 0, flash_addr_odd = 0, flash_addr_even = 0, flash_cmd_aa = 0,
     flash_cmd_55 = 0, flash_cmd_10 = 0, flash_cmd_20 = 0, flash_cmd_30 = 0, flash_cmd_80 = 0,
     flash_cmd_90 = 0, flash_cmd_a0 = 0, flash_cmd_f0 = 0, flash_devid_offset = 0,
     flash_base = (\<lambda>i. if i = 0 then 0xffffffff else 0),
     flash_last = (\<lambda>i. if i = 0 then 0xffffffff else 0),
     flash_delay = 0, micron_com_set = False, pc_fetch = 0, pc_dec = 0, ir_dec = 0, pc_exec = 0,
     mem0 = 0, reg = (\<lambda>_. 0), valid = (\<lambda>_. False), reg_lo = 0, valid_lo = False, reg_hi = 0,
     valid_hi = False, reg_cp0 = (\<lambda>_. 0), valid_cp0 = (\<lambda>_. False), reg_fpu = (\<lambda>_. 0),
     valid_fpu = (\<lambda>_. False), reg_fcsr = 0, valid_fcsr = False, reg_fir = 0, valid_fir = False,
     exception = 0\<rparr>"

definition target_open ::
  "'w adapter option list \<Rightarrow> 'w aworld \<Rightarrow> (fault + 'w target) \<times> 'w aworld" where
  "target_open found w = (case filter (\<lambda>a. a \<noteq> None) found of
     Some a # _ \<Rightarrow>
       (case seqsM [probe_idcode RESET_RETRY, name_cpu, modM (\<lambda>t. t\<lparr>is_running := True\<rparr>)]
               (new_target a w) of
          (Inl e, t) \<Rightarrow> (Inl e, aw t)
        | (Inr _, t) \<Rightarrow> (Inr t, aw t))
   | _ \<Rightarrow> (Inl (Exit (-1) ''No JTAG adapter found''), w))"

end
