(* ===== verification/Bus.thy ===== *)
theory Bus
  imports Target
begin

text \<open>
  What the target layer relies on in an adapter and the debug unit behind it, and the
  abstract view of memory access: a program over the history of accesses on the memory bus.

  \<open>oncd_unit\<close> states the documented behaviour of the debug unit (oncd.h) for an adapter's two
  basic functions, through a view of the device: the registers keep what is written, and a
  write to OnCD\_MEM while SlctMEM is set performs one bus access at OMAR, a read into OMDR or a
  write of OMDR depending on RO, after which RDYm reads as 1. What a read of the bus yields is a
  function \<open>rd\<close> of the accesses before it, so memory, device registers and flash chips
  in any mode are instances.

  The relation \<open>does\<close> says that code of the target layer is a refinement of such a bus program.
\<close>

section \<open>The debug unit\<close>

datatype bus_op = BW u32 u32 | BR u32

type_synonym 'a bus = "(bus_op list, 'a) act"

definition bus_write :: "u32 \<Rightarrow> u32 \<Rightarrow> unit bus" where
  "bus_write a d = modM (\<lambda>h. h @ [BW (phys_of a) d])"

definition bus_read :: "(bus_op list \<Rightarrow> u32 \<Rightarrow> u32) \<Rightarrow> u32 \<Rightarrow> u32 bus" where
  "bus_read rd a h = (Inr (rd h (phys_of a)), h @ [BR (phys_of a)])"

record chip =
  omar :: u32
  omdr :: u32
  c_oscr :: u32
  obcr :: u32
  omlr0 :: u32
  omlr1 :: u32
  hist :: "bus_op list"

definition oncd_writes ::
  "('w \<Rightarrow> bool) \<Rightarrow> 'w adapter \<Rightarrow> ('w \<Rightarrow> chip) \<Rightarrow> u32 \<Rightarrow> nat \<Rightarrow> (u32 \<Rightarrow> chip \<Rightarrow> chip) \<Rightarrow> bool" where
  "oncd_writes ok a view regno nbits f \<longleftrightarrow>
     (\<forall>v w. ok (dev w) \<longrightarrow> (\<exists>d. a_oncd_write a v regno nbits w = (Inr (), w\<lparr>dev := d\<rparr>) \<and> ok d \<and>
        view d = f v (view (dev w))))"

definition oncd_reads ::
  "('w \<Rightarrow> bool) \<Rightarrow> 'w adapter \<Rightarrow> ('w \<Rightarrow> chip) \<Rightarrow> u32 \<Rightarrow> nat \<Rightarrow> (u32 \<Rightarrow> chip \<Rightarrow> bool) \<Rightarrow> bool" where
  "oncd_reads ok a view regno nbits P \<longleftrightarrow>
     (\<forall>w. ok (dev w) \<longrightarrow> (\<exists>x d. a_oncd_read a regno nbits w = (Inr x, w\<lparr>dev := d\<rparr>) \<and> ok d \<and>
        view d = view (dev w) \<and> P x (view (dev w))))"

definition mem_access :: "(bus_op list \<Rightarrow> u32 \<Rightarrow> u32) \<Rightarrow> chip \<Rightarrow> chip" where
  "mem_access rd c =
     (if c_oscr c AND OSCR_SlctMEM = 0 then c
      else if c_oscr c AND OSCR_RO \<noteq> 0
        then c\<lparr>omdr := rd (hist c) (omar c), hist := hist c @ [BR (omar c)]\<rparr>
        else c\<lparr>hist := hist c @ [BW (omar c) (omdr c)]\<rparr>)"

definition oncd_unit ::
  "('w \<Rightarrow> bool) \<Rightarrow> (bus_op list \<Rightarrow> u32 \<Rightarrow> u32) \<Rightarrow> ('w \<Rightarrow> chip) \<Rightarrow> 'w adapter \<Rightarrow> bool" where
  "oncd_unit ok rd view a \<longleftrightarrow>
     oncd_writes ok a view OnCD_OMAR 32 (\<lambda>v c. c\<lparr>omar := v\<rparr>) \<and>
     oncd_writes ok a view OnCD_OMDR 32 (\<lambda>v c. c\<lparr>omdr := v\<rparr>) \<and>
     oncd_writes ok a view OnCD_OSCR 32 (\<lambda>v c. c\<lparr>c_oscr := v\<rparr>) \<and>
     oncd_writes ok a view OnCD_MEM 0 (\<lambda>v. mem_access rd) \<and>
     oncd_reads ok a view OnCD_OMDR 32 (\<lambda>x c. x = omdr c) \<and>
     oncd_reads ok a view OnCD_OSCR 32 (\<lambda>x c. x AND 0x23 = (c_oscr c AND 3) OR OSCR_RDYm)"

text \<open>The breakpoint registers keep what is written to them, OBCR with its 12 bits.\<close>

definition oncd_breaks :: "('w \<Rightarrow> bool) \<Rightarrow> ('w \<Rightarrow> chip) \<Rightarrow> 'w adapter \<Rightarrow> bool" where
  "oncd_breaks ok view a \<longleftrightarrow>
     oncd_writes ok a view OnCD_OBCR 12 (\<lambda>v c. c\<lparr>obcr := v AND 0xfff\<rparr>) \<and>
     oncd_writes ok a view OnCD_OMLR0 32 (\<lambda>v c. c\<lparr>omlr0 := v\<rparr>) \<and>
     oncd_writes ok a view OnCD_OMLR1 32 (\<lambda>v c. c\<lparr>omlr1 := v\<rparr>) \<and>
     oncd_writes ok a view OnCD_OMBC 16 (\<lambda>v c. c) \<and>
     oncd_reads ok a view OnCD_OBCR 12 (\<lambda>x c. x = obcr c) \<and>
     oncd_reads ok a view OnCD_OMLR0 32 (\<lambda>x c. x = omlr0 c) \<and>
     oncd_reads ok a view OnCD_OMLR1 32 (\<lambda>x c. x = omlr1 c)"

primrec bus_read_words :: "(bus_op list \<Rightarrow> u32 \<Rightarrow> u32) \<Rightarrow> u32 \<Rightarrow> nat \<Rightarrow> u32 list bus" where
  "bus_read_words rd addr 0 = retM []"
| "bus_read_words rd addr (Suc n) = bindM (bus_read rd addr) (\<lambda>w.
     bindM (bus_read_words rd (addr + 4) n) (\<lambda>ws. retM (w # ws)))"

abbreviation bus_writes :: "(u32 \<times> u32) list \<Rightarrow> unit bus" where
  "bus_writes args \<equiv> seqsM (map (\<lambda>(a, d). bus_write a d) args)"

definition block_pairs :: "u32 \<Rightarrow> nat \<Rightarrow> u32 list \<Rightarrow> (u32 \<times> u32) list" where
  "block_pairs addr n data = map (\<lambda>i. (addr + of_nat i * 4, data ! i)) [0..<n]"

section \<open>Block functions\<close>

text \<open>
  \<open>refines_op\<close>: an operation of an adapter is a bus program, in the states \<open>ok\<close> of the device.
\<close>

definition refines_op ::
  "('w \<Rightarrow> bool) \<Rightarrow> ('w \<Rightarrow> chip) \<Rightarrow> ('w aworld, 'a) act \<Rightarrow> 'a bus \<Rightarrow> bool" where
  "refines_op ok view f B \<longleftrightarrow>
     (\<forall>w. ok (dev w) \<longrightarrow> oscr w AND 3 = c_oscr (view (dev w)) AND 3 \<longrightarrow>
       (\<exists>w'. f w = (fst (B (hist (view (dev w)))), w') \<and> ok (dev w') \<and>
          hist (view (dev w')) = snd (B (hist (view (dev w)))) \<and>
          oscr w' AND 3 = c_oscr (view (dev w')) AND 3))"

text \<open>
  What the block functions of an adapter do on the memory bus. They get physical addresses,
  translated by the target layer.
\<close>

definition phys_range :: "u32 \<Rightarrow> nat \<Rightarrow> bool" where
  "phys_range addr n \<longleftrightarrow> (\<forall>i < n. phys_of (addr + of_nat i * 4) = addr + of_nat i * 4)"

lemma phys_range_take: "phys_range addr n \<Longrightarrow> k \<le> n \<Longrightarrow> phys_range addr k"
  by (simp add: phys_range_def)

lemma phys_range_drop:
  assumes "phys_range addr n" and "k \<le> n"
  shows "phys_range (addr + of_nat k * 4) (n - k)"
  unfolding phys_range_def
proof (intro allI impI)
  fix i
  assume "i < n - k"
  then have "phys_of (addr + of_nat (k + i) * 4) = addr + of_nat (k + i) * 4"
    using assms \<open>i < n - k\<close> unfolding phys_range_def by (metis add.commute less_diff_conv)
  then show "phys_of (addr + of_nat k * 4 + of_nat i * 4) = addr + of_nat k * 4 + of_nat i * 4"
    by (simp add: distrib_right add.assoc)
qed

definition block_ops ::
  "('w \<Rightarrow> bool) \<Rightarrow> (bus_op list \<Rightarrow> u32 \<Rightarrow> u32) \<Rightarrow> ('w \<Rightarrow> chip) \<Rightarrow> 'w adapter \<Rightarrow> bool" where
  "block_ops ok rd view a \<longleftrightarrow>
     (\<forall>f. a_read_block a = Some f \<longrightarrow> 0 < a_block_words a \<and>
        (\<forall>n addr. phys_range addr n \<longrightarrow> refines_op ok view (f n addr) (bus_read_words rd addr n))) \<and>
     (\<forall>f. a_write_block a = Some f \<longrightarrow> 0 < a_block_words a \<and>
        (\<forall>n addr data. phys_range addr n \<longrightarrow> n \<le> length data \<longrightarrow>
           refines_op ok view (f n addr data) (bus_writes (block_pairs addr n data))))"

section \<open>Live states\<close>

text \<open>The states of a device in which, and after which, the unit and the block functions keep their laws.\<close>

definition live :: "(bus_op list \<Rightarrow> u32 \<Rightarrow> u32) \<Rightarrow> ('w \<Rightarrow> chip) \<Rightarrow> 'w adapter \<Rightarrow> 'w \<Rightarrow> bool" where
  "live rd view a d \<longleftrightarrow> (\<exists>ok. oncd_unit ok rd view a \<and> block_ops ok rd view a \<and> ok d)"

lemma writes_union:
  assumes "\<And>ok. ok \<in> S \<Longrightarrow> oncd_writes ok a view r n f"
  shows "oncd_writes (\<lambda>d. \<exists>ok \<in> S. ok d) a view r n f"
  unfolding oncd_writes_def
proof (intro allI impI)
  fix v and w :: "'a aworld"
  assume "\<exists>ok \<in> S. ok (dev w)"
  then obtain ok where ok: "ok \<in> S" "ok (dev w)"
    by blast
  then obtain d where "a_oncd_write a v r n w = (Inr (), w\<lparr>dev := d\<rparr>)" "ok d" "view d = f v (view (dev w))"
    using assms unfolding oncd_writes_def by blast
  then show "\<exists>d. a_oncd_write a v r n w = (Inr (), w\<lparr>dev := d\<rparr>) \<and> (\<exists>ok \<in> S. ok d) \<and> view d = f v (view (dev w))"
    using ok(1) by blast
qed

lemma reads_union:
  assumes "\<And>ok. ok \<in> S \<Longrightarrow> oncd_reads ok a view r n P"
  shows "oncd_reads (\<lambda>d. \<exists>ok \<in> S. ok d) a view r n P"
  unfolding oncd_reads_def
proof (intro allI impI)
  fix w :: "'a aworld"
  assume "\<exists>ok \<in> S. ok (dev w)"
  then obtain ok where ok: "ok \<in> S" "ok (dev w)"
    by blast
  then obtain x d where "a_oncd_read a r n w = (Inr x, w\<lparr>dev := d\<rparr>)" "ok d" "view d = view (dev w)" "P x (view (dev w))"
    using assms unfolding oncd_reads_def by blast
  then show "\<exists>x d. a_oncd_read a r n w = (Inr x, w\<lparr>dev := d\<rparr>) \<and> (\<exists>ok \<in> S. ok d) \<and> view d = view (dev w) \<and>
      P x (view (dev w))"
    using ok(1) by blast
qed

lemma refines_union:
  fixes f :: "('w aworld, 'a) act"
  assumes "\<And>ok. ok \<in> S \<Longrightarrow> refines_op ok view f B"
  shows "refines_op (\<lambda>d. \<exists>ok \<in> S. ok d) view f B"
  unfolding refines_op_def
proof (intro allI impI)
  fix w :: "'w aworld"
  assume "\<exists>ok \<in> S. ok (dev w)" and o: "oscr w AND 3 = c_oscr (view (dev w)) AND 3"
  then obtain ok where ok: "ok \<in> S" "ok (dev w)"
    by blast
  then obtain w' where "f w = (fst (B (hist (view (dev w)))), w')" "ok (dev w')"
      "hist (view (dev w')) = snd (B (hist (view (dev w))))" "oscr w' AND 3 = c_oscr (view (dev w')) AND 3"
    using assms o unfolding refines_op_def by blast
  then show "\<exists>w'. f w = (fst (B (hist (view (dev w)))), w') \<and> (\<exists>ok \<in> S. ok (dev w')) \<and>
      hist (view (dev w')) = snd (B (hist (view (dev w)))) \<and> oscr w' AND 3 = c_oscr (view (dev w')) AND 3"
    using ok(1) by blast
qed

lemma live_laws:
  shows live_unit: "oncd_unit (live rd view a) rd view a"
    and live_blocks: "\<And>f. a_read_block a = Some f \<Longrightarrow> phys_range addr n \<Longrightarrow>
      refines_op (live rd view a) view (f n addr) (bus_read_words rd addr n)"
      "\<And>f. a_write_block a = Some f \<Longrightarrow> phys_range addr n \<Longrightarrow> n \<le> length data \<Longrightarrow>
      refines_op (live rd view a) view (f n addr data) (bus_writes (block_pairs addr n data))"
proof -
  have live: "live rd view a = (\<lambda>d. \<exists>ok \<in> {ok. oncd_unit ok rd view a \<and> block_ops ok rd view a}. ok d)"
    by (rule ext) (auto simp: live_def)
  show "oncd_unit (live rd view a) rd view a"
    unfolding oncd_unit_def live by (intro conjI writes_union reads_union; simp add: oncd_unit_def)
  show "refines_op (live rd view a) view (f n addr) (bus_read_words rd addr n)"
    if "a_read_block a = Some f" "phys_range addr n" for f
    unfolding live using that by (intro refines_union) (simp add: block_ops_def)
  show "refines_op (live rd view a) view (f n addr data) (bus_writes (block_pairs addr n data))"
    if "a_write_block a = Some f" "phys_range addr n" "n \<le> length data" for f
    unfolding live using that by (intro refines_union) (simp add: block_ops_def)
qed

lemma live_block_words:
  "live rd view a d \<Longrightarrow> a_read_block a = Some f \<Longrightarrow> 0 < a_block_words a"
  "live rd view a d \<Longrightarrow> a_write_block a = Some f' \<Longrightarrow> 0 < a_block_words a"
  by (auto simp: live_def block_ops_def)

section \<open>Target code as bus programs\<close>

text \<open>\<open>cfg\<close>: the target without the device; the shadow agrees with the unit on SlctMEM and RO.\<close>

definition cfg :: "'w target \<Rightarrow> 'w target" where
  "cfg t = t\<lparr>aw := undefined\<rparr>"

definition good :: "(bus_op list \<Rightarrow> u32 \<Rightarrow> u32) \<Rightarrow> ('w \<Rightarrow> chip) \<Rightarrow> 'w target \<Rightarrow> bool" where
  "good rd view t \<longleftrightarrow> live rd view (t_adapter t) (dev (aw t)) \<and>
     oscr (aw t) AND 3 = c_oscr (view (dev (aw t))) AND 3"

definition bus_hist :: "('w \<Rightarrow> chip) \<Rightarrow> 'w target \<Rightarrow> bus_op list" where
  "bus_hist view t = hist (view (dev (aw t)))"

definition does ::
  "(bus_op list \<Rightarrow> u32 \<Rightarrow> u32) \<Rightarrow> ('w \<Rightarrow> chip) \<Rightarrow> 'w target \<Rightarrow> ('w, 'a) tact \<Rightarrow> 'a bus \<Rightarrow> bool" where
  "does rd view c m B \<longleftrightarrow>
     (\<forall>t. good rd view t \<longrightarrow> cfg t = cfg c \<longrightarrow>
        (\<exists>t'. m t = (fst (B (bus_hist view t)), t') \<and> bus_hist view t' = snd (B (bus_hist view t)) \<and>
          cfg t' = cfg c \<and> good rd view t'))"

named_theorems does_intros "rules for does"

lemma doesI:
  "(\<And>t. good rd view t \<Longrightarrow> cfg t = cfg c \<Longrightarrow>
     \<exists>t'. m t = (fst (B (bus_hist view t)), t') \<and> bus_hist view t' = snd (B (bus_hist view t)) \<and>
       cfg t' = cfg c \<and> good rd view t') \<Longrightarrow> does rd view c m B"
  by (simp add: does_def)

lemma doesE:
  assumes "does rd view c m B" and "good rd view t" and "cfg t = cfg c"
  obtains t' where "m t = (fst (B (bus_hist view t)), t')"
    and "bus_hist view t' = snd (B (bus_hist view t))" and "cfg t' = cfg c" and "good rd view t'"
  using assms unfolding does_def by blast

lemma does_retM [does_intros]: "does rd view c (retM x) (retM x)"
  by (rule doesI) (simp add: retM_apply)

lemma does_failM [does_intros]: "does rd view c (failM e) (failM e)"
  by (rule doesI) (simp add: failM_apply)

lemma does_bindM [does_intros]:
  assumes m: "does rd view c m B" and k: "\<And>x. does rd view c (k x) (K x)"
  shows "does rd view c (bindM m k) (bindM B K)"
proof (rule doesI)
  fix t
  assume t: "good rd view t" "cfg t = cfg c"
  obtain t1 where t1: "m t = (fst (B (bus_hist view t)), t1)"
      "bus_hist view t1 = snd (B (bus_hist view t))" "cfg t1 = cfg c" "good rd view t1"
    by (rule doesE [OF m t])
  show "\<exists>t'. bindM m k t = (fst (bindM B K (bus_hist view t)), t') \<and>
      bus_hist view t' = snd (bindM B K (bus_hist view t)) \<and> cfg t' = cfg c \<and> good rd view t'"
  proof (cases "fst (B (bus_hist view t))")
    case (Inl e)
    then show ?thesis
      using t1 by (cases "B (bus_hist view t)") (simp add: bindM_apply)
  next
    case (Inr x)
    obtain t2 where "k x t1 = (fst (K x (bus_hist view t1)), t2)"
        "bus_hist view t2 = snd (K x (bus_hist view t1))" "cfg t2 = cfg c" "good rd view t2"
      by (rule doesE [OF k t1(4,3)])
    then show ?thesis
      using t1 Inr by (cases "B (bus_hist view t)") (simp add: bindM_apply)
  qed
qed

lemma does_seqM [does_intros]:
  "does rd view c m B \<Longrightarrow> does rd view c n N \<Longrightarrow> does rd view c (seqM m n) (seqM B N)"
  unfolding seqM_def by (rule does_bindM)

lemma does_seqsM:
  "list_all2 (does rd view c) ms Bs \<Longrightarrow> does rd view c (seqsM ms) (seqsM Bs)"
  by (induction ms Bs rule: list_all2_induct) (simp_all add: does_intros)

lemma does_seqs_Nil [does_intros]: "does rd view c (seqsM []) (seqsM [])"
  by (simp add: does_intros)

lemma does_seqs_Cons [does_intros]:
  "does rd view c m B \<Longrightarrow> does rd view c (seqsM ms) (seqsM Bs) \<Longrightarrow>
   does rd view c (seqsM (m # ms)) (seqsM (B # Bs))"
  by (simp add: does_seqM)

lemma does_map [does_intros]:
  "(\<And>x. x \<in> set xs \<Longrightarrow> does rd view c (f x) (g x)) \<Longrightarrow>
   does rd view c (seqsM (map f xs)) (seqsM (map g xs))"
  by (induction xs) (simp_all add: does_intros)

lemma does_whenM [does_intros]:
  "(b \<Longrightarrow> does rd view c m B) \<Longrightarrow> does rd view c (whenM b m) (whenM b B)"
  by (simp add: whenM_def does_retM)

lemma does_if [does_intros]:
  "(b \<Longrightarrow> does rd view c m B) \<Longrightarrow> (\<not> b \<Longrightarrow> does rd view c n N) \<Longrightarrow>
   does rd view c (if b then m else n) (if b then B else N)"
  by simp

text \<open>Reading the configuration.\<close>

lemma does_getM:
  assumes "\<And>t. cfg t = cfg c \<Longrightarrow> f t = f c" and "does rd view c (k (f c)) B"
  shows "does rd view c (bindM (getM f) k) B"
proof (rule doesI)
  fix t
  assume t: "good rd view t" "cfg t = cfg c"
  have "f t = f c"
    by (rule assms(1) [OF t(2)])
  then show "\<exists>t'. bindM (getM f) k t = (fst (B (bus_hist view t)), t') \<and>
      bus_hist view t' = snd (B (bus_hist view t)) \<and> cfg t' = cfg c \<and> good rd view t'"
    using assms(2) t unfolding does_def by (simp add: bindM_apply)
qed

lemma cfg_upd [simp]: "cfg (t\<lparr>aw := w\<rparr>) = cfg t"
  by (simp add: cfg_def)

lemma cfg_eqD: "cfg t = cfg c \<Longrightarrow> t\<lparr>aw := undefined\<rparr> = c\<lparr>aw := undefined\<rparr>"
  by (simp add: cfg_def)

text \<open>The configuration determines every field but the device.\<close>

lemma cfg_ext:
  assumes "cfg t = cfg c" and "\<And>t w. f (t\<lparr>aw := w\<rparr>) = f t"
  shows "f t = f c"
  using assms(2) [of undefined t] assms(2) [of undefined c] assms(1) by (simp add: cfg_def)

lemma cfg_fields:
  assumes "cfg t = cfg c"
  shows "t_adapter t = t_adapter c"
    and "is_running t = is_running c"
    and "cscon3 t = cscon3 c"
    and "idcode t = idcode c"
    and "flash_width t = flash_width c"
    and "chip_width t = chip_width c"
    and "flash_delay t = flash_delay c"
    and "micron_com_set t = micron_com_set c"
    and "sector_size t = sector_size c"
    and "flash_bytes t = flash_bytes c"
    and "flash_addr_odd t = flash_addr_odd c"
    and "flash_addr_even t = flash_addr_even c"
    and "flash_cmd_aa t = flash_cmd_aa c"
    and "flash_cmd_55 t = flash_cmd_55 c"
    and "flash_cmd_10 t = flash_cmd_10 c"
    and "flash_cmd_20 t = flash_cmd_20 c"
    and "flash_cmd_30 t = flash_cmd_30 c"
    and "flash_cmd_80 t = flash_cmd_80 c"
    and "flash_cmd_90 t = flash_cmd_90 c"
    and "flash_cmd_a0 t = flash_cmd_a0 c"
    and "flash_cmd_f0 t = flash_cmd_f0 c"
    and "flash_base t = flash_base c"
    and "flash_last t = flash_last c"
    and "flash_devid_offset t = flash_devid_offset c"
  by (rule cfg_ext [OF assms], simp)+

section \<open>Word access\<close>

text \<open>
  Inside a sequence the mode bits of the shadow matter: 1 selects bus writes, 3 bus reads.
  \<open>mode_does P Q\<close> is \<open>does\<close> from states whose mode satisfies \<open>P\<close> to such with \<open>Q\<close>.
\<close>

definition mode_of :: "'w target \<Rightarrow> u32" where
  "mode_of t = oscr (aw t) AND 3"

definition mode_does ::
  "(bus_op list \<Rightarrow> u32 \<Rightarrow> u32) \<Rightarrow> ('w \<Rightarrow> chip) \<Rightarrow> (u32 \<Rightarrow> bool) \<Rightarrow> (u32 \<Rightarrow> bool) \<Rightarrow>
   'w target \<Rightarrow> ('w, 'a) tact \<Rightarrow> 'a bus \<Rightarrow> bool" where
  "mode_does rd view P Q c m B \<longleftrightarrow>
     (\<forall>t. good rd view t \<longrightarrow> cfg t = cfg c \<longrightarrow> P (mode_of t) \<longrightarrow>
        (\<exists>x t'. m t = (Inr x, t') \<and> B (bus_hist view t) = (Inr x, bus_hist view t') \<and>
          cfg t' = cfg c \<and> good rd view t' \<and> Q (mode_of t')))"

lemma mode_doesE:
  assumes "mode_does rd view P Q c m B" and "good rd view t" and "cfg t = cfg c" and "P (mode_of t)"
  obtains x t' where "m t = (Inr x, t')" and "B (bus_hist view t) = (Inr x, bus_hist view t')"
    and "cfg t' = cfg c" and "good rd view t'" and "Q (mode_of t')"
  using assms unfolding mode_does_def by blast

lemma mode_does_seq:
  assumes m: "mode_does rd view P R c m B" and n: "mode_does rd view R Q c n N"
  shows "mode_does rd view P Q c (seqM m n) (seqM B N)"
  unfolding mode_does_def
proof (intro allI impI)
  fix t
  assume t: "good rd view t" "cfg t = cfg c" "P (mode_of t)"
  obtain x t1 where 1: "m t = (Inr x, t1)" "B (bus_hist view t) = (Inr x, bus_hist view t1)"
      "cfg t1 = cfg c" "good rd view t1" "R (mode_of t1)"
    by (rule mode_doesE [OF m t])
  obtain y t2 where 2: "n t1 = (Inr y, t2)" "N (bus_hist view t1) = (Inr y, bus_hist view t2)"
      "cfg t2 = cfg c" "good rd view t2" "Q (mode_of t2)"
    by (rule mode_doesE [OF n 1(4,3,5)])
  show "\<exists>x t'. seqM m n t = (Inr x, t') \<and>
      seqM B N (bus_hist view t) = (Inr x, bus_hist view t') \<and> cfg t' = cfg c \<and>
      good rd view t' \<and> Q (mode_of t')"
    using 1 2 by (simp add: seqM_apply)
qed

lemma mode_does_does:
  "mode_does rd view (\<lambda>_. True) Q c m B \<Longrightarrow> does rd view c m B"
  unfolding mode_does_def does_def by (metis fst_conv snd_conv)

lemma mode_does_seqs_same:
  "(\<And>x. x \<in> set xs \<Longrightarrow> mode_does rd view P P c (f x) (g x)) \<Longrightarrow>
   mode_does rd view P P c (seqsM (map f xs)) (seqsM (map g xs))"
proof (induction xs)
  case Nil
  then show ?case
    by (auto simp: mode_does_def retM_apply)
next
  case (Cons x xs)
  then show ?case
    by (simp add: mode_does_seq [where R = P])
qed

text \<open>The basic functions of the adapter on the view.\<close>

lemma oncd_write_view:
  assumes "oncd_writes ok (t_adapter t) view regno nbits f" and "ok (dev (aw t))"
  shows "\<exists>d. oncd_write v regno nbits t = (Inr (), t\<lparr>aw := (aw t)\<lparr>dev := d\<rparr>\<rparr>) \<and> ok d \<and>
    view d = f v (view (dev (aw t)))"
proof -
  obtain d where "a_oncd_write (t_adapter t) v regno nbits (aw t) = (Inr (), (aw t)\<lparr>dev := d\<rparr>)" "ok d"
      "view d = f v (view (dev (aw t)))"
    using assms unfolding oncd_writes_def by blast
  then show ?thesis
    by (intro exI [of _ d]) (simp add: oncd_write_def on_adapter_def)
qed

lemma oncd_read_view:
  assumes "oncd_reads ok (t_adapter t) view regno nbits P" and "ok (dev (aw t))"
  shows "\<exists>x d. oncd_read regno nbits t = (Inr x, t\<lparr>aw := (aw t)\<lparr>dev := d\<rparr>\<rparr>) \<and> ok d \<and>
    view d = view (dev (aw t)) \<and> P x (view (dev (aw t)))"
proof -
  obtain x d where "a_oncd_read (t_adapter t) regno nbits (aw t) = (Inr x, (aw t)\<lparr>dev := d\<rparr>)" "ok d"
      "view d = view (dev (aw t))" "P x (view (dev (aw t)))"
    using assms unfolding oncd_reads_def by blast
  then show ?thesis
    by (intro exI [of _ x] exI [of _ d]) (simp add: oncd_read_def on_adapter_def)
qed

lemma mode_bits:
  fixes v :: u32
  assumes "v AND 0x23 = (w AND 3) OR 0x20"
  shows "v AND 0x20 \<noteq> 0" and "v AND 3 = w AND 3"
proof -
  have "(v AND 0x23) AND 0x20 = ((w AND 3) OR 0x20) AND 0x20"
    using assms by simp
  then show "v AND 0x20 \<noteq> 0"
    by (simp add: and.assoc bit.conj_disj_distrib2)
  have "(v AND 0x23) AND 3 = ((w AND 3) OR 0x20) AND 3"
    using assms by simp
  then show "v AND 3 = w AND 3"
    by (simp add: and.assoc bit.conj_disj_distrib2)
qed

text \<open>One poll is enough: the unit reports ready after an access.\<close>

lemma wait_rdym_ready:
  assumes "good rd view t" and "n > 0"
  shows "\<exists>t'. wait_rdym n t = (Inr True, t') \<and> cfg t' = cfg t \<and> good rd view t' \<and>
    view (dev (aw t')) = view (dev (aw t)) \<and> mode_of t' = mode_of t"
proof -
  obtain m where n: "n = Suc m"
    using assms(2) by (cases n) simp_all
  let ?ok = "live rd view (t_adapter t)"
  have "oncd_reads ?ok (t_adapter t) view OnCD_OSCR 32 (\<lambda>x c. x AND 0x23 = (c_oscr c AND 3) OR OSCR_RDYm)"
      "?ok (dev (aw t))"
    using assms(1) live_unit [of rd view "t_adapter t"] by (simp_all add: good_def oncd_unit_def)
  from oncd_read_view [OF this] obtain x d where r:
      "oncd_read OnCD_OSCR 32 t = (Inr x, t\<lparr>aw := (aw t)\<lparr>dev := d\<rparr>\<rparr>)" "?ok d"
      "view d = view (dev (aw t))" "x AND 0x23 = (c_oscr (view (dev (aw t))) AND 3) OR OSCR_RDYm"
    by blast
  have "x AND OSCR_RDYm \<noteq> 0" and "x AND 3 = c_oscr (view (dev (aw t))) AND 3"
    using mode_bits [OF r(4)] by simp_all
  then show ?thesis
    using assms(1) r by (simp add: n act_simps set_oscr_def good_def mode_of_def)
qed

lemma mode_select:
  fixes v :: u32
  shows "v AND 3 = 1 \<Longrightarrow> v AND 1 \<noteq> 0 \<and> v AND 2 = 0"
    and "v AND 3 = 3 \<Longrightarrow> v AND 1 \<noteq> 0 \<and> v AND 2 \<noteq> 0"
proof -
  have "v AND 1 = (v AND 3) AND 1" and "v AND 2 = (v AND 3) AND 2"
    by (simp_all add: and.assoc)
  then show "v AND 3 = 1 \<Longrightarrow> v AND 1 \<noteq> 0 \<and> v AND 2 = 0"
    and "v AND 3 = 3 \<Longrightarrow> v AND 1 \<noteq> 0 \<and> v AND 2 \<noteq> 0"
    by simp_all
qed

lemma mode_set:
  fixes v :: u32
  shows "((v AND NOT OSCR_RO) OR OSCR_SlctMEM) AND 3 = 1" and "(v OR OSCR_SlctMEM OR OSCR_RO) AND 3 = 3"
  by (simp_all add: bit.conj_disj_distrib2 and.assoc word_ao_absorbs)

lemma write_next_mode:
  "mode_does rd view (\<lambda>m. m = 1) (\<lambda>m. m = 1) c (target_write_next a d) (bus_write a d)"
  unfolding mode_does_def
proof (intro allI impI)
  fix t
  assume t: "good rd view t" "cfg t = cfg c" "mode_of t = 1"
  let ?c = "view (dev (aw t))"
  let ?ok = "live rd view (t_adapter t)"
  have u: "oncd_writes ?ok (t_adapter t) view OnCD_OMAR 32 (\<lambda>v c. c\<lparr>omar := v\<rparr>)"
      "oncd_writes ?ok (t_adapter t) view OnCD_OMDR 32 (\<lambda>v c. c\<lparr>omdr := v\<rparr>)"
      "oncd_writes ?ok (t_adapter t) view OnCD_MEM 0 (\<lambda>v. mem_access rd)" "?ok (dev (aw t))"
    using t(1) live_unit [of rd view "t_adapter t"] by (simp_all add: good_def oncd_unit_def)
  have m: "c_oscr ?c AND 3 = 1"
    using t(1,3) by (simp add: good_def mode_of_def)
  define t1 where "t1 = (\<lambda>d. t\<lparr>aw := (aw t)\<lparr>dev := d\<rparr>\<rparr>)"
  obtain d1 where d1: "oncd_write (phys_of a) OnCD_OMAR 32 t = (Inr (), t1 d1)"
      "view d1 = ?c\<lparr>omar := phys_of a\<rparr>" "?ok d1"
    using oncd_write_view [OF u(1,4)] unfolding t1_def by metis
  obtain d2 where d2: "oncd_write d OnCD_OMDR 32 (t1 d1) = (Inr (), t1 d2)"
      "view d2 = (view d1)\<lparr>omdr := d\<rparr>" "?ok d2"
    using oncd_write_view [of ?ok "t1 d1" view OnCD_OMDR 32] u(2) d1(3) by (fastforce simp: t1_def)
  obtain d3 where d3: "oncd_write 0 OnCD_MEM 0 (t1 d2) = (Inr (), t1 d3)"
      "view d3 = mem_access rd (view d2)" "?ok d3"
    using oncd_write_view [of ?ok "t1 d2" view OnCD_MEM 0] u(3) d2(3) by (fastforce simp: t1_def)
  have v3: "hist (view d3) = hist ?c @ [BW (phys_of a) d]" "c_oscr (view d3) = c_oscr ?c"
    using d1(2) d2(2) d3(2) mode_select(1) [OF m] by (simp_all add: mem_access_def)
  have g3: "good rd view (t1 d3)" "mode_of (t1 d3) = 1" "cfg (t1 d3) = cfg c"
    using t v3(2) d3(3) by (simp_all add: good_def mode_of_def t1_def)
  obtain t4 where t4: "wait_rdym 100 (t1 d3) = (Inr True, t4)" "cfg t4 = cfg (t1 d3)"
      "good rd view t4" "view (dev (aw t4)) = view (dev (aw (t1 d3)))" "mode_of t4 = mode_of (t1 d3)"
    using wait_rdym_ready [OF g3(1), of 100] by auto
  have h: "bus_write a d (bus_hist view t) = (Inr (), bus_hist view (t1 d3))"
    using v3(1) by (simp add: bus_write_def bus_hist_def t1_def)
  show "\<exists>x t'. target_write_next a d t = (Inr x, t') \<and>
      bus_write a d (bus_hist view t) = (Inr x, bus_hist view t') \<and> cfg t' = cfg c \<and>
      good rd view t' \<and> mode_of t' = 1"
  proof (cases "is_running t")
    case True
    then have "target_write_next a d t = (Inr (), t4)"
      using d1(1) d2(1) d3(1) t4(1) by (simp add: target_write_next_def act_simps t1_def)
    then show ?thesis
      using h t4 g3 by (simp add: bus_hist_def)
  next
    case False
    then have "target_write_next a d t = (Inr (), t1 d3)"
      using d1(1) d2(1) d3(1) by (simp add: target_write_next_def act_simps t1_def)
    then show ?thesis
      using h g3 by simp
  qed
qed

lemma read_next_mode:
  "mode_does rd view (\<lambda>m. m = 3) (\<lambda>m. m = 3) c (target_read_next a) (bus_read rd a)"
  unfolding mode_does_def
proof (intro allI impI)
  fix t
  assume t: "good rd view t" "cfg t = cfg c" "mode_of t = 3"
  let ?c = "view (dev (aw t))"
  let ?ok = "live rd view (t_adapter t)"
  have u: "oncd_writes ?ok (t_adapter t) view OnCD_OMAR 32 (\<lambda>v c. c\<lparr>omar := v\<rparr>)"
      "oncd_writes ?ok (t_adapter t) view OnCD_MEM 0 (\<lambda>v. mem_access rd)" "?ok (dev (aw t))"
    using t(1) live_unit [of rd view "t_adapter t"] by (simp_all add: good_def oncd_unit_def)
  have m: "c_oscr ?c AND 3 = 3"
    using t(1,3) by (simp add: good_def mode_of_def)
  define t1 where "t1 = (\<lambda>d. t\<lparr>aw := (aw t)\<lparr>dev := d\<rparr>\<rparr>)"
  obtain d1 where d1: "oncd_write (phys_of a) OnCD_OMAR 32 t = (Inr (), t1 d1)"
      "view d1 = ?c\<lparr>omar := phys_of a\<rparr>" "?ok d1"
    using oncd_write_view [OF u(1,3)] unfolding t1_def by metis
  obtain d3 where d3: "oncd_write 0 OnCD_MEM 0 (t1 d1) = (Inr (), t1 d3)"
      "view d3 = mem_access rd (view d1)" "?ok d3"
    using oncd_write_view [of ?ok "t1 d1" view OnCD_MEM 0] u(2) d1(3) by (fastforce simp: t1_def)
  have v3: "hist (view d3) = hist ?c @ [BR (phys_of a)]" "c_oscr (view d3) = c_oscr ?c"
      "omdr (view d3) = rd (hist ?c) (phys_of a)"
    using d1(2) d3(2) mode_select(2) [OF m] by (simp_all add: mem_access_def)
  have g3: "good rd view (t1 d3)" "mode_of (t1 d3) = 3" "cfg (t1 d3) = cfg c"
    using t v3(2) d3(3) by (simp_all add: good_def mode_of_def t1_def)
  obtain t4 where t4: "wait_rdym 1000 (t1 d3) = (Inr True, t4)" "cfg t4 = cfg (t1 d3)"
      "good rd view t4" "view (dev (aw t4)) = view (dev (aw (t1 d3)))" "mode_of t4 = mode_of (t1 d3)"
    using wait_rdym_ready [OF g3(1), of 1000] by auto
  let ?ok4 = "live rd view (t_adapter t4)"
  have u4: "oncd_reads ?ok4 (t_adapter t4) view OnCD_OMDR 32 (\<lambda>x c. x = omdr c)" "?ok4 (dev (aw t4))"
    using t4(3) live_unit [of rd view "t_adapter t4"] by (simp_all add: good_def oncd_unit_def)
  obtain x d5 where r: "oncd_read OnCD_OMDR 32 t4 = (Inr x, t4\<lparr>aw := (aw t4)\<lparr>dev := d5\<rparr>\<rparr>)"
      "view d5 = view (dev (aw t4))" "x = omdr (view (dev (aw t4)))" "?ok4 d5"
    using oncd_read_view [OF u4] by auto
  have x: "x = rd (hist ?c) (phys_of a)"
    using r(3) t4(4) v3(3) by (simp add: t1_def)
  have "target_read_next a t = (Inr x, t4\<lparr>aw := (aw t4)\<lparr>dev := d5\<rparr>\<rparr>)"
    using d1(1) d3(1) t4(1) r(1) by (simp add: target_read_next_def act_simps t1_def)
  moreover have "bus_read rd a (bus_hist view t) =
      (Inr x, bus_hist view (t4\<lparr>aw := (aw t4)\<lparr>dev := d5\<rparr>\<rparr>))"
    using r(2) t4(4) v3(1) x by (simp add: bus_read_def bus_hist_def t1_def)
  ultimately show "\<exists>x t'. target_read_next a t = (Inr x, t') \<and>
      bus_read rd a (bus_hist view t) = (Inr x, bus_hist view t') \<and> cfg t' = cfg c \<and>
      good rd view t' \<and> mode_of t' = 3"
    using r(2,4) t4 g3 by (simp add: good_def mode_of_def)
qed

text \<open>Selecting the mode.\<close>

lemma select_mode:
  assumes t: "good rd view t"
  shows "\<exists>t'. whenM (v \<noteq> oscr (aw t)) (seqM (set_oscr v) send_oscr) t = (Inr (), t') \<and>
    cfg t' = cfg t \<and> good rd view t' \<and> bus_hist view t' = bus_hist view t \<and> mode_of t' = v AND 3"
proof (cases "v = oscr (aw t)")
  case True
  then show ?thesis
    using t by (simp add: whenM_apply mode_of_def)
next
  case False
  define s where "s = t\<lparr>aw := (aw t)\<lparr>oscr := v\<rparr>\<rparr>"
  let ?ok = "live rd view (t_adapter s)"
  have "oncd_writes ?ok (t_adapter s) view OnCD_OSCR 32 (\<lambda>v c. c\<lparr>c_oscr := v\<rparr>)" "?ok (dev (aw s))"
    using t live_unit [of rd view "t_adapter s"] by (simp_all add: good_def oncd_unit_def s_def)
  from oncd_write_view [OF this, of v]
  obtain d where "oncd_write v OnCD_OSCR 32 s = (Inr (), s\<lparr>aw := (aw s)\<lparr>dev := d\<rparr>\<rparr>)" "?ok d"
      "view d = (view (dev (aw s)))\<lparr>c_oscr := v\<rparr>"
    by blast
  then show ?thesis
    using t False by (simp add: act_simps set_oscr_def send_oscr_def get_oscr_def s_def good_def
        mode_of_def bus_hist_def)
qed

lemma write_word_mode:
  "mode_does rd view (\<lambda>_. True) (\<lambda>m. m = 1) c (target_write_word a d) (bus_write a d)"
  unfolding mode_does_def
proof (intro allI impI)
  fix t
  assume t: "good rd view t" "cfg t = cfg c"
  define v where "v = (oscr (aw t) AND NOT OSCR_RO) OR OSCR_SlctMEM"
  obtain t1 where t1: "whenM (v \<noteq> oscr (aw t)) (seqM (set_oscr v) send_oscr) t = (Inr (), t1)"
      "cfg t1 = cfg t" "good rd view t1" "bus_hist view t1 = bus_hist view t" "mode_of t1 = v AND 3"
    using select_mode [OF t(1), of v] by blast
  have m1: "mode_of t1 = 1"
    using t1(5) mode_set(1) unfolding v_def by metis
  obtain x t2 where t2: "target_write_next a d t1 = (Inr x, t2)"
      "bus_write a d (bus_hist view t1) = (Inr x, bus_hist view t2)"
      "cfg t2 = cfg c" "good rd view t2" "mode_of t2 = 1"
    using mode_doesE [OF write_next_mode t1(3) _ m1, of c] t1(2) t(2) by metis
  have "target_write_word a d t = (Inr x, t2)"
    using t1(1) t2(1) unfolding v_def
    by (simp only: target_write_word_def Let_def bindM_apply seqM_apply get_oscr_def getM_apply
        prod.case sum.case)
  then show "\<exists>x t'. target_write_word a d t = (Inr x, t') \<and>
      bus_write a d (bus_hist view t) = (Inr x, bus_hist view t') \<and> cfg t' = cfg c \<and>
      good rd view t' \<and> mode_of t' = 1"
    using t1(4) t2 by simp
qed

lemma read_start_mode:
  "mode_does rd view (\<lambda>_. True) (\<lambda>m. m = 3) c target_read_start (retM ())"
  unfolding mode_does_def
proof (intro allI impI)
  fix t
  assume t: "good rd view t" "cfg t = cfg c"
  define v where "v = oscr (aw t) OR OSCR_SlctMEM OR OSCR_RO"
  obtain t1 where t1: "whenM (v \<noteq> oscr (aw t)) (seqM (set_oscr v) send_oscr) t = (Inr (), t1)"
      "cfg t1 = cfg t" "good rd view t1" "bus_hist view t1 = bus_hist view t" "mode_of t1 = v AND 3"
    using select_mode [OF t(1), of v] by blast
  have "mode_of t1 = 3"
    using t1(5) mode_set(2) unfolding v_def by metis
  moreover have "target_read_start t = (Inr (), t1)"
    using t1(1) unfolding v_def
    by (simp only: target_read_start_def Let_def bindM_apply get_oscr_def getM_apply prod.case sum.case)
  ultimately show "\<exists>x t'. target_read_start t = (Inr x, t') \<and>
      retM () (bus_hist view t) = (Inr x, bus_hist view t') \<and> cfg t' = cfg c \<and>
      good rd view t' \<and> mode_of t' = 3"
    using t t1 by (simp add: retM_apply)
qed

lemma read_word_mode:
  "mode_does rd view (\<lambda>_. True) (\<lambda>m. m = 3) c (target_read_word a) (bus_read rd a)"
  using mode_does_seq [OF read_start_mode read_next_mode]
  unfolding target_read_word_def by (simp only: seqM_skip)

lemma does_write_word [does_intros]: "does rd view c (target_write_word a d) (bus_write a d)"
  by (rule mode_does_does [OF write_word_mode])

lemma does_read_word [does_intros]: "does rd view c (target_read_word a) (bus_read rd a)"
  by (rule mode_does_does [OF read_word_mode])

text \<open>Writes in sequence: only the first selects the mode.\<close>

lemma write_seq_mode:
  "mode_does rd view (\<lambda>_. True) (\<lambda>m. m = 1) c
     (seqM (target_write_word a d) (seqsM (map (\<lambda>(a, d). target_write_next a d) rest)))
     (seqM (bus_write a d) (seqsM (map (\<lambda>(a, d). bus_write a d) rest)))"
  by (rule mode_does_seq [OF write_word_mode], rule mode_does_seqs_same)
    (auto intro: write_next_mode)

lemma does_write_seq:
  "does rd view c
     (seqM (target_write_word a d) (seqsM (map (\<lambda>(a, d). target_write_next a d) rest)))
     (seqsM (map (\<lambda>(a, d). bus_write a d) ((a, d) # rest)))"
  using mode_does_does [OF write_seq_mode] by simp

text \<open>
  The contract of the optional functions: \<open>write_nwords\<close> performs the same bus writes as the
  fallback, and the block functions access consecutive words.
\<close>

definition words_at :: "u32 \<Rightarrow> u32 list \<Rightarrow> (u32 \<times> u32) list" where
  "words_at addr ws = zip (map (\<lambda>i. addr + 4 * of_nat i) [0..<length ws]) ws"

definition bus_ops ::
  "(bus_op list \<Rightarrow> u32 \<Rightarrow> u32) \<Rightarrow> ('w \<Rightarrow> chip) \<Rightarrow> 'w adapter \<Rightarrow> bool" where
  "bus_ops rd view a \<longleftrightarrow>
     (\<forall>f args. a_write_nwords a = Some f \<longrightarrow> args \<noteq> [] \<longrightarrow>
        refines_op (live rd view a) view (f args) (seqsM (map (\<lambda>(a, d). bus_write a d) args)))"

lemma does_on_adapter:
  assumes "refines_op (live rd view (t_adapter c)) view f B"
  shows "does rd view c (on_adapter (\<lambda>_. f)) B"
proof (rule doesI)
  fix t
  assume t: "good rd view t" "cfg t = cfg c"
  have a: "t_adapter t = t_adapter c"
    using t(2) by (rule cfg_fields(1))
  obtain w' where "f (aw t) = (fst (B (bus_hist view t)), w')" "live rd view (t_adapter t) (dev w')"
      "hist (view (dev w')) = snd (B (bus_hist view t))" "oscr w' AND 3 = c_oscr (view (dev w')) AND 3"
    using assms t(1) unfolding refines_op_def good_def bus_hist_def a by blast
  then show "\<exists>t'. on_adapter (\<lambda>_. f) t = (fst (B (bus_hist view t)), t') \<and>
      bus_hist view t' = snd (B (bus_hist view t)) \<and> cfg t' = cfg c \<and> good rd view t'"
    using t by (simp add: on_adapter_def bus_hist_def good_def)
qed

lemma does_write_nwords:
  assumes "bus_ops rd view (t_adapter c)" and "args \<noteq> []"
  shows "does rd view c (target_write_nwords args) (seqsM (map (\<lambda>(a, d). bus_write a d) args))"
  unfolding target_write_nwords_def
proof (rule does_getM)
  show "does rd view c
      (case a_write_nwords (t_adapter c) of None \<Rightarrow> write_pairs args | Some f \<Rightarrow> on_adapter (\<lambda>_. f args))
      (seqsM (map (\<lambda>(a, d). bus_write a d) args))"
  proof (cases "a_write_nwords (t_adapter c)")
    case None
    obtain a d rest where "args = (a, d) # rest"
      using assms(2) by (metis list.exhaust surj_pair)
    then show ?thesis
      using None does_write_seq [of rd view c a d rest] by (simp add: write_pairs_def)
  next
    case (Some f)
    then have "refines_op (live rd view (t_adapter c)) view (f args) (seqsM (map (\<lambda>(a, d). bus_write a d) args))"
      using assms by (simp add: bus_ops_def)
    then show ?thesis
      using Some does_on_adapter by simp
  qed
qed (metis cfg_fields(1))

lemma does_getM_id:
  assumes "\<And>t. cfg t = cfg c \<Longrightarrow> k t = k c" and "does rd view c (k c) B"
  shows "does rd view c (bindM (getM id) k) B"
proof (rule doesI)
  fix t
  assume t: "good rd view t" "cfg t = cfg c"
  then show "\<exists>t'. bindM (getM id) k t = (fst (B (bus_hist view t)), t') \<and>
      bus_hist view t' = snd (B (bus_hist view t)) \<and> cfg t' = cfg c \<and> good rd view t'"
    using assms(2) assms(1) [OF t(2)] unfolding does_def by (simp add: bindM_apply)
qed

text \<open>A byte write sets the byte lane in CSCON3 first.\<close>

definition bus_write_byte :: "u32 \<Rightarrow> u32 \<Rightarrow> u32 \<Rightarrow> unit bus" where
  "bus_write_byte cs addr data =
     seqM (bus_write MC_CSCON3 (cs OR MC_CSCON3_ADDR addr)) (bus_write addr data)"

lemma seqs_two: "seqsM [m, n] = seqM m n"
  by simp

lemma does_write_byte:
  assumes ops: "bus_ops rd view (t_adapter c)"
  shows "does rd view c (target_write_byte addr data) (bus_write_byte (cscon3 c) addr data)"
  unfolding target_write_byte_def
proof (rule does_getM_id)
  fix t :: "'a target"
  assume "cfg t = cfg c"
  then show "(if a_write_nwords (t_adapter t) \<noteq> None
      then target_write_nwords [(MC_CSCON3, cscon3_for t addr), (addr, data)]
      else seqM (target_write_word MC_CSCON3 (cscon3_for t addr)) (target_write_next addr data)) =
    (if a_write_nwords (t_adapter c) \<noteq> None
      then target_write_nwords [(MC_CSCON3, cscon3_for c addr), (addr, data)]
      else seqM (target_write_word MC_CSCON3 (cscon3_for c addr)) (target_write_next addr data))"
    by (simp add: cfg_fields(1,3) [of t c] cscon3_for_def)
next
  let ?args = "[(MC_CSCON3, cscon3_for c addr), (addr, data)]"
  have "does rd view c (target_write_nwords ?args) (bus_write_byte (cscon3 c) addr data)"
    using does_write_nwords [OF ops, of ?args] by (simp add: bus_write_byte_def cscon3_for_def)
  moreover have "does rd view c
      (seqM (target_write_word MC_CSCON3 (cscon3_for c addr)) (target_write_next addr data))
      (bus_write_byte (cscon3 c) addr data)"
    using does_write_seq [of rd view c MC_CSCON3 "cscon3_for c addr" "[(addr, data)]"]
    by (simp add: bus_write_byte_def cscon3_for_def)
  ultimately show "does rd view c
      (if a_write_nwords (t_adapter c) \<noteq> None then target_write_nwords ?args
       else seqM (target_write_word MC_CSCON3 (cscon3_for c addr)) (target_write_next addr data))
      (bus_write_byte (cscon3 c) addr data)"
    by simp
qed

lemma does_write_2bytes:
  assumes ops: "bus_ops rd view (t_adapter c)"
  shows "does rd view c (target_write_2bytes addr1 data1 addr2 data2)
    (seqM (bus_write_byte (cscon3 c) addr1 data1) (bus_write_byte (cscon3 c) addr2 data2))"
  unfolding target_write_2bytes_def
proof (rule does_getM_id)
  fix t :: "'a target"
  assume "cfg t = cfg c"
  then have "t_adapter t = t_adapter c" and "cscon3_for t = cscon3_for c"
    by (simp_all add: cfg_fields(1,3) [of t c] cscon3_for_def fun_eq_iff)
  then show "(if a_write_nwords (t_adapter t) \<noteq> None
      then target_write_nwords [(MC_CSCON3, cscon3_for t addr1), (addr1, data1),
        (MC_CSCON3, cscon3_for t addr2), (addr2, data2)]
      else seqsM [target_write_word MC_CSCON3 (cscon3_for t addr1), target_write_next addr1 data1,
        target_write_next MC_CSCON3 (cscon3_for t addr2), target_write_next addr2 data2]) =
    (if a_write_nwords (t_adapter c) \<noteq> None
      then target_write_nwords [(MC_CSCON3, cscon3_for c addr1), (addr1, data1),
        (MC_CSCON3, cscon3_for c addr2), (addr2, data2)]
      else seqsM [target_write_word MC_CSCON3 (cscon3_for c addr1), target_write_next addr1 data1,
        target_write_next MC_CSCON3 (cscon3_for c addr2), target_write_next addr2 data2])"
    by simp
next
  let ?B = "seqM (bus_write_byte (cscon3 c) addr1 data1) (bus_write_byte (cscon3 c) addr2 data2)"
  let ?args = "[(MC_CSCON3, cscon3_for c addr1), (addr1, data1),
    (MC_CSCON3, cscon3_for c addr2), (addr2, data2)]"
  let ?seq = "seqsM [target_write_word MC_CSCON3 (cscon3_for c addr1), target_write_next addr1 data1,
    target_write_next MC_CSCON3 (cscon3_for c addr2), target_write_next addr2 data2]"
  have "does rd view c (target_write_nwords ?args) ?B"
    using does_write_nwords [OF ops, of ?args]
    by (simp add: bus_write_byte_def cscon3_for_def seqM_assoc)
  moreover have "does rd view c ?seq ?B"
    using does_write_seq [of rd view c MC_CSCON3 "cscon3_for c addr1"
        "[(addr1, data1), (MC_CSCON3, cscon3_for c addr2), (addr2, data2)]"]
    by (simp add: bus_write_byte_def cscon3_for_def seqM_assoc)
  ultimately show "does rd view c
      (if a_write_nwords (t_adapter c) \<noteq> None then target_write_nwords ?args else ?seq) ?B"
    by simp
qed

section \<open>Bus programs on plain memory\<close>

text \<open>
  When the bus reads back what was last written, as in RAM, the history is a memory:
  \<open>last_write m h a\<close> is its content at \<open>a\<close>, from initial contents \<open>m\<close>.
\<close>

primrec last_write_rev :: "(u32 \<Rightarrow> u32) \<Rightarrow> bus_op list \<Rightarrow> u32 \<Rightarrow> u32" where
  "last_write_rev m [] a = m a"
| "last_write_rev m (x # h) a = (case x of
     BW b d \<Rightarrow> if a = b then d else last_write_rev m h a
   | BR _ \<Rightarrow> last_write_rev m h a)"

definition ram :: "(u32 \<Rightarrow> u32) \<Rightarrow> bus_op list \<Rightarrow> u32 \<Rightarrow> u32" where
  "ram m h a = last_write_rev m (rev h) a"

lemma ram_simps [simp]:
  "ram m [] a = m a"
  "ram m (h @ [BW b d]) a = (if a = b then d else ram m h a)"
  "ram m (h @ [BR b]) a = ram m h a"
  by (simp_all add: ram_def)

section \<open>A device with the documented behaviour\<close>

text \<open>
  The smallest device that satisfies \<open>oncd_unit\<close> and \<open>oncd_breaks\<close>: the debug unit alone,
  on a bus \<open>rd\<close>. It shows that the assumptions can hold, and the witnesses run on it.
\<close>

definition sim_write ::
  "(bus_op list \<Rightarrow> u32 \<Rightarrow> u32) \<Rightarrow> u32 \<Rightarrow> u32 \<Rightarrow> nat \<Rightarrow> (chip aworld, unit) act" where
  "sim_write rd v r nbits = modM (\<lambda>w. w\<lparr>dev :=
     (if r = OnCD_OMAR then (dev w)\<lparr>omar := v\<rparr>
      else if r = OnCD_OMDR then (dev w)\<lparr>omdr := v\<rparr>
      else if r = OnCD_OSCR then (dev w)\<lparr>c_oscr := v\<rparr>
      else if r = OnCD_MEM then mem_access rd (dev w)
      else if r = OnCD_OBCR then (dev w)\<lparr>obcr := v AND 0xfff\<rparr>
      else if r = OnCD_OMLR0 then (dev w)\<lparr>omlr0 := v\<rparr>
      else if r = OnCD_OMLR1 then (dev w)\<lparr>omlr1 := v\<rparr>
      else dev w)\<rparr>)"

definition sim_read :: "u32 \<Rightarrow> nat \<Rightarrow> (chip aworld, u32) act" where
  "sim_read r nbits = getM (\<lambda>w.
     if r = OnCD_OMDR then omdr (dev w)
     else if r = OnCD_OSCR then (c_oscr (dev w) AND 3) OR OSCR_RDYm
     else if r = OnCD_OBCR then obcr (dev w)
     else if r = OnCD_OMLR0 then omlr0 (dev w)
     else if r = OnCD_OMLR1 then omlr1 (dev w)
     else 0)"

definition sim_adapter :: "(bus_op list \<Rightarrow> u32 \<Rightarrow> u32) \<Rightarrow> chip adapter" where
  "sim_adapter rd = \<lparr>a_name = ''sim'', a_close = retM (), a_get_idcode = retM MC12REV1_ID,
     a_cpu_stopped = retM True, a_stop_cpu = retM (), a_reset_cpu = retM (),
     a_oncd_write = sim_write rd, a_oncd_read = sim_read, a_block_words = 0,
     a_program_block_words = 0, a_step_cpu = None, a_run_cpu = None, a_read_block = None,
     a_write_block = None, a_write_nwords = None, a_program_block32 = None,
     a_program_block32_unprotect = None, a_program_block32_protect = None,
     a_program_block64 = None, a_program_block32_micron = None\<rparr>"

definition sim_world :: "chip aworld" where
  "sim_world = \<lparr>oscr = 0, dev = \<lparr>omar = 0, omdr = 0, c_oscr = 0, obcr = 0, omlr0 = 0, omlr1 = 0,
     hist = []\<rparr>\<rparr>"

definition sim_target :: "(bus_op list \<Rightarrow> u32 \<Rightarrow> u32) \<Rightarrow> chip target" where
  "sim_target rd = (new_target (sim_adapter rd) sim_world)\<lparr>idcode := MC12REV1_ID\<rparr>"

lemma sim_oncd_unit: "oncd_unit (\<lambda>_. True) rd (\<lambda>c. c) (sim_adapter rd)"
  by (simp add: oncd_unit_def oncd_writes_def oncd_reads_def sim_adapter_def sim_write_def
      sim_read_def bit.conj_disj_distrib2 and.assoc)

lemma sim_oncd_breaks: "oncd_breaks (\<lambda>_. True) (\<lambda>c. c) (sim_adapter rd)"
  by (simp add: oncd_breaks_def oncd_writes_def oncd_reads_def sim_adapter_def sim_write_def
      sim_read_def)

lemma sim_adapter_simps [simp]:
  "a_read_block (sim_adapter rd) = None" "a_write_block (sim_adapter rd) = None"
  "a_write_nwords (sim_adapter rd) = None" "a_program_block32 (sim_adapter rd) = None"
  "a_program_block64 (sim_adapter rd) = None" "a_program_block32_micron (sim_adapter rd) = None"
  "a_program_block32_protect (sim_adapter rd) = None"
  by (simp_all add: sim_adapter_def)

lemma sim_target_simps [simp]:
  "t_adapter (sim_target rd) = sim_adapter rd" "aw (sim_target rd) = sim_world"
  "is_running (sim_target rd) = False" "idcode (sim_target rd) = MC12REV1_ID"
  by (simp_all add: sim_target_def new_target_def)

lemma sim_block_ops: "block_ops (\<lambda>_. True) rd (\<lambda>c. c) (sim_adapter rd)"
  by (simp add: block_ops_def)

lemma sim_bus_ops: "bus_ops rd view (sim_adapter rd)"
  by (simp add: bus_ops_def sim_adapter_def)

lemma sim_good: "t_adapter t = sim_adapter rd \<Longrightarrow> aw t = sim_world \<Longrightarrow> good rd (\<lambda>c. c) t"
  using sim_oncd_unit [of rd] sim_block_ops [of rd] by (auto simp: good_def live_def sim_world_def)

lemma sim_hist [simp]: "bus_hist (\<lambda>c. c) t = hist (dev (aw t))" "hist (dev sim_world) = []"
  by (simp_all add: bus_hist_def sim_world_def)

end
