(* ===== verification/Flash.thy ===== *)
theory Flash
  imports Bus
begin

text \<open>
  The flash memory part of target.c: the table of flash regions, detection of the chips,
  erasing, programming for each bus width and command set, and block transfers.

  A pointer to data is the list of words from the pointer to the end of the object; a read
  past it is \<open>Bad_access\<close>. Loops that wait for the chip without a limit take the number of
  rounds \<open>k\<close> as a parameter. A status of 0 or 1 is a truth value.
\<close>

section \<open>Flash regions\<close>

definition target_flash_configure :: "u32 \<Rightarrow> u32 \<Rightarrow> ('w, unit) tact" where
  "target_flash_configure first lst = bindM (getM flash_last) (\<lambda>fl.
     case find (\<lambda>i. fl i = 0xffffffff) [0..<NFLASH - 1] of
       Some i \<Rightarrow> modM (\<lambda>t. t\<lparr>
         flash_base := (flash_base t)(i := first, i + 1 := 0xffffffff),
         flash_last := (flash_last t)(i := lst, i + 1 := 0xffffffff)\<rparr>)
     | None \<Rightarrow> failM (Exit 1 ''too many flash regions''))"

text \<open>The result is the base of the next region and its last address, \<open>None\<close> for \<open>~0\<close>.\<close>

fun flash_next_loop :: "'w target \<Rightarrow> u32 \<Rightarrow> nat list \<Rightarrow> (u32 \<times> u32) option" where
  "flash_next_loop t prev [] = None"
| "flash_next_loop t prev (i # is) =
     (if flash_last t i = 0xffffffff then None
      else if prev \<ge> flash_base t (i - 1) \<and> prev \<le> flash_last t (i - 1)
        then Some (flash_base t i, flash_last t i)
      else flash_next_loop t prev is)"

definition target_flash_next :: "'w target \<Rightarrow> u32 \<Rightarrow> (u32 \<times> u32) option" where
  "target_flash_next t prev =
     (if prev = 0xffffffff \<and> flash_base t 0 \<noteq> 0xffffffff then Some (flash_base t 0, flash_last t 0)
      else flash_next_loop t prev [1..<NFLASH - 1])"

text \<open>The loop of \<open>compute_base\<close> stops at a last address of 0.\<close>

fun compute_base_loop :: "'w target \<Rightarrow> u32 \<Rightarrow> nat list \<Rightarrow> u32 option" where
  "compute_base_loop t addr [] = None"
| "compute_base_loop t addr (i # is) =
     (if flash_last t i = 0 then None
      else if addr \<ge> flash_base t i \<and> addr \<le> flash_last t i then Some (flash_base t i)
      else compute_base_loop t addr is)"

definition compute_base :: "u32 \<Rightarrow> ('w, u32) tact" where
  "compute_base addr = bindM (getM id) (\<lambda>t.
     case compute_base_loop t (phys_of addr) [0..<NFLASH] of
       Some b \<Rightarrow> retM b
     | None \<Rightarrow> failM (Exit 1 ''no flash region for address''))"

definition target_flash_address :: "'w target \<Rightarrow> nat \<Rightarrow> u32" where
  "target_flash_address t n = flash_base t n"

definition target_set_cscon3 :: "u32 \<Rightarrow> ('w, unit) tact" where
  "target_set_cscon3 v = modM (\<lambda>t. t\<lparr>cscon3 := v\<rparr>)"

section \<open>Detection\<close>

definition set_cmds16 :: "'w target \<Rightarrow> 'w target" where
  "set_cmds16 t = t\<lparr>chip_width := 16, flash_cmd_aa := 0x00AA00AA, flash_cmd_55 := 0x00550055,
     flash_cmd_10 := 0x00100010, flash_cmd_20 := 0x00200020, flash_cmd_30 := 0x00300030,
     flash_cmd_80 := 0x00800080, flash_cmd_90 := 0x00900090, flash_cmd_a0 := 0x00A000A0,
     flash_cmd_f0 := 0x00F000F0\<rparr>"

definition set_cmds8 :: "'w target \<Rightarrow> 'w target" where
  "set_cmds8 t = t\<lparr>chip_width := 8, flash_cmd_aa := 0xAAAAAAAA, flash_cmd_55 := 0x55555555,
     flash_cmd_10 := 0x10101010, flash_cmd_20 := 0x20202020, flash_cmd_30 := 0x30303030,
     flash_cmd_80 := 0x80808080, flash_cmd_90 := 0x90909090, flash_cmd_a0 := 0xA0A0A0A0,
     flash_cmd_f0 := 0xF0F0F0F0\<rparr>"

text \<open>The six organisations that are tried; \<open>m\<close> is \<open>count % 6\<close>.\<close>

definition set_mode :: "nat \<Rightarrow> 'w target \<Rightarrow> 'w target" where
  "set_mode m t =
     (if m = 0 then (set_cmds16 t)\<lparr>flash_width := 32, flash_addr_odd := push_bit 2 0x5555,
        flash_addr_even := push_bit 2 0x2AAA, flash_devid_offset := 4\<rparr>
      else if m = 1 then (set_cmds16 t)\<lparr>flash_width := 64, flash_addr_odd := push_bit 3 0x5555,
        flash_addr_even := push_bit 3 0x2AAA, flash_devid_offset := 8\<rparr>
      else if m = 2 then (set_cmds8 t)\<lparr>flash_width := 32, flash_addr_odd := push_bit 2 0x555,
        flash_addr_even := push_bit 2 0x2AA, flash_devid_offset := 4\<rparr>
      else if m = 3 then (set_cmds8 t)\<lparr>flash_width := 8, flash_addr_odd := 0x555,
        flash_addr_even := 0x2AA, flash_devid_offset := 0\<rparr>
      else if m = 4 then (set_cmds8 t)\<lparr>flash_width := 32, flash_addr_odd := push_bit 2 0x5555,
        flash_addr_even := push_bit 2 0x2AAA, flash_devid_offset := 4, flash_delay := 20\<rparr>
      else (set_cmds8 t)\<lparr>flash_width := 8, flash_addr_odd := 0xAAA,
        flash_addr_even := 0x555, flash_devid_offset := 0\<rparr>)"

text \<open>A command of three writes, and of six, at the unlock addresses of the region at \<open>base\<close>.\<close>

definition unlock3 :: "'w target \<Rightarrow> u32 \<Rightarrow> u32 \<Rightarrow> (u32 \<times> u32) list" where
  "unlock3 t base cmd =
     [(base + flash_addr_odd t, flash_cmd_aa t), (base + flash_addr_even t, flash_cmd_55 t),
      (base + flash_addr_odd t, cmd)]"

definition unlock6 :: "'w target \<Rightarrow> u32 \<Rightarrow> u32 \<Rightarrow> u32 \<Rightarrow> (u32 \<times> u32) list" where
  "unlock6 t base addr cmd = unlock3 t base (flash_cmd_80 t) @
     [(base + flash_addr_odd t, flash_cmd_aa t), (base + flash_addr_even t, flash_cmd_55 t),
      (addr, cmd)]"

definition write_bytes :: "(u32 \<times> u32) list \<Rightarrow> ('w, unit) tact" where
  "write_bytes args = seqsM (map (\<lambda>(a, d). target_write_byte a d) args)"

definition write_words :: "(u32 \<times> u32) list \<Rightarrow> ('w, unit) tact" where
  "write_words args = seqsM (map (\<lambda>(a, d). target_write_word a d) args)"

text \<open>The low byte in all four lanes.\<close>

definition spread :: "u32 \<Rightarrow> u32" where
  "spread b = b OR push_bit 8 b OR push_bit 16 b OR push_bit 24 b"

text \<open>The two codes that a byte-wide chip returns in one word; \<open>m = 5\<close> is the last mode.\<close>

definition byte_ids :: "nat \<Rightarrow> u32 \<Rightarrow> u32 \<times> u32" where
  "byte_ids m w = (if m = 5 then (w AND 0xff, drop_bit 16 w AND 0xff)
     else (spread (w AND 0xff), spread (drop_bit 8 w AND 0xff)))"

definition read_ids :: "nat \<Rightarrow> u32 \<Rightarrow> ('w, u32 \<times> u32) tact" where
  "read_ids m base = bindM (getM id) (\<lambda>t.
     if flash_width t = 8 then
       seqM (write_bytes (unlock3 t base (flash_cmd_90 t)))
      (bindM (target_read_word base) (\<lambda>w.
       seqM (write_bytes (unlock3 t base (flash_cmd_f0 t))) (retM (byte_ids m w))))
     else if flash_delay t \<noteq> 0 then
       seqM (target_write_nwords (unlock3 t base (flash_cmd_90 t)))
      (bindM (target_read_word base) (\<lambda>mf.
       bindM (target_read_word (base + flash_devid_offset t)) (\<lambda>d.
       seqM (target_write_nwords (unlock3 t base (flash_cmd_f0 t))) (retM (mf, d)))))
     else
       seqM (write_words (unlock3 t base (flash_cmd_90 t)))
      (bindM (target_read_word (base + flash_devid_offset t)) (\<lambda>d.
       bindM (target_read_word base) (\<lambda>mf.
       seqM (target_write_word base (flash_cmd_f0 t)) (retM (mf, d))))))"

text \<open>The chip table: name, size in bytes, sector size, and whether it has Micron's commands.\<close>

definition chip_of :: "u32 \<Rightarrow> nat \<Rightarrow> nat \<Rightarrow> (string \<times> nat \<times> nat \<times> bool) option" where
  "chip_of d w cw =
     (if d = 0x225b225b then Some (''29LV800B'', 2*1024*1024 * w div 32, 32*1024 * w div 8, False)
      else if d = 0x22da22da then Some (''29LV800T'', 2*1024*1024 * w div 32, 32*1024 * w div 8, False)
      else if d = 0x27812781 then Some (''39VF800A'', 2*1024*1024 * w div 32, 2*1024 * w div 8, False)
      else if d = 0x236d236d then Some (''39VF6401B'', 16*1024*1024 * w div 32, 32*1024 * w div 8, False)
      else if d = 0x236c236c then Some (''39VF6402B'', 16*1024*1024 * w div 32, 32*1024 * w div 8, False)
      else if d = 0x4f4f4f4f then Some (''1636PP1Y'', 512*1024, 64*1024 * w div 8, False)
      else if d = 0xc8c8c8c8 then Some (''1636PP2Y'', 4*2*1024*1024, 64*1024 * w div 8, False)
      else if d = 0x07070707 then Some (''1638PP1'', 4*128*1024, 256 * w div 8, False)
      else if d = 0xc8 then
        (if w \<noteq> 8 then None else Some (''1636PP2Y'', 2*1024*1024, 64*1024 * w div 8, False))
      else if d = 0xf9 then Some (''S29AL032D'', 4*1024*1024, 32*1024 * w div 8, False)
      else if d = 0x227E227E then Some (''S29GL256P'', 64*1024*1024, 64*1024 * w div 8, False)
      else if d = 0x00160016 then Some (''MT28F320'', (w div cw) * 8*1024*1024, 64*1024 * w div 8, True)
      else if d = 0x00170017 then Some (''MT28F640'', (w div cw) * 16*1024*1024, 64*1024 * w div 8, True)
      else if d = 0x00180018 then Some (''MT28F128'', (w div cw) * 32*1024*1024, 64*1024 * w div 8, True)
      else None)"

text \<open>\<open>sprintf ("%08X")\<close>.\<close>

definition sprintf_08X :: "u32 \<Rightarrow> string" where
  "sprintf_08X v = map (\<lambda>i. ''0123456789ABCDEF'' ! unat (drop_bit (4 * i) v AND 0xf)) [7, 6, 5, 4, 3, 2, 1, 0]"

text \<open>The manufacturer's name; an unknown code is printed.\<close>

definition mfr_of :: "u32 \<Rightarrow> u32 \<Rightarrow> nat \<Rightarrow> string" where
  "mfr_of mf d w =
     (if mf = 0x00520052 then ''Alliance''
      else if mf = 0x00010001 then (if d = 0x227E227E then ''Spansion'' else ''AMD'')
      else if mf = 0x00BF00BF then ''SST''
      else if mf = 0x01010101 then ''Milandr''
      else if mf = 0xBFBFBFBF then ''Angstrem''
      else if mf = 0x00890089 then ''Intel''
      else if mf = 0x002C002C then ''Micron''
      else if mf = 0x01 \<and> w = 8 then (if d = 0xf9 then ''Spansion'' else ''Milandr'')
      else ''<'' @ sprintf_08X mf @ ''>'')"

record detected =
  dt_mf :: u32
  dt_dev :: u32
  dt_mfname :: string
  dt_chipname :: string
  dt_bytes :: u32
  dt_width :: nat

definition keep_chip :: "nat \<Rightarrow> nat \<Rightarrow> bool \<Rightarrow> 'w target \<Rightarrow> 'w target" where
  "keep_chip bytes sector micron t = t\<lparr>flash_bytes := of_nat bytes, sector_size := of_nat sector,
     micron_com_set := micron \<or> micron_com_set t\<rparr>"

text \<open>The code at the label \<open>success\<close>.\<close>

definition detect_success ::
  "u32 \<Rightarrow> u32 \<Rightarrow> u32 \<Rightarrow> string \<Rightarrow> ('w, detected option) tact" where
  "detect_success base mf d chipname = bindM (getM id) (\<lambda>t.
     seqM (whenM (micron_com_set t) (target_write_word base 0xFFFFFFFF))
       (retM (Some \<lparr>dt_mf = mf, dt_dev = d, dt_mfname = mfr_of mf d (flash_width t),
          dt_chipname = chipname, dt_bytes = flash_bytes t, dt_width = flash_width t\<rparr>)))"

text \<open>The attempts, \<open>n\<close> of them from the number \<open>count\<close> on.\<close>

primrec detect_loop ::
  "u32 \<Rightarrow> nat \<Rightarrow> nat \<Rightarrow> ('w, detected option) tact" where
  "detect_loop base 0 count = retM None"
| "detect_loop base (Suc n) count =
     seqM (modM (set_mode (count mod 6)))
    (bindM (read_ids (count mod 6) base) (\<lambda>(mf, d).
     bindM (getM id) (\<lambda>t.
       case chip_of d (flash_width t) (chip_width t) of
         None \<Rightarrow> detect_loop base n (Suc count)
       | Some (name, bytes, sector, micron) \<Rightarrow>
           seqM (modM (keep_chip bytes sector micron)) (detect_success base mf d name))))"

definition target_flash_detect :: "u32 \<Rightarrow> ('w, detected option) tact" where
  "target_flash_detect addr =
     bindM (compute_base addr) (\<lambda>base. detect_loop base (4 * 6) 0)"

section \<open>Erasing\<close>

definition status_mask :: "'w target \<Rightarrow> u32" where
  "status_mask t = ((\<lambda>m. push_bit (chip_width t) m OR 0x80) ^^ (flash_width t div chip_width t)) 0"

text \<open>
  \<open>do { status = read; if (timeout-- == 0) fail; } while (status != mask)\<close>: the last read
  counts as a failure whatever it gives.
\<close>

primrec poll_status :: "u32 \<Rightarrow> u32 \<Rightarrow> nat \<Rightarrow> ('w, bool) tact" where
  "poll_status addr msk 0 = seqM (target_read_word addr) (retM False)"
| "poll_status addr msk (Suc n) = bindM (target_read_word addr) (\<lambda>status.
     if status \<noteq> msk then poll_status addr msk n else retM True)"

text \<open>The wait for the word at \<open>addr\<close> to read as erased.\<close>

primrec wait_erased :: "nat \<Rightarrow> u32 \<Rightarrow> ('w, unit) tact" where
  "wait_erased 0 addr = failM Out_of_fuel"
| "wait_erased (Suc k) addr = bindM (target_read_word addr) (\<lambda>w.
     if w = 0xffffffff then retM () else wait_erased k addr)"

text \<open>Micron chips are erased block by block.\<close>

primrec erase_micron_loop :: "nat \<Rightarrow> u32 \<Rightarrow> u32 \<Rightarrow> ('w, bool) tact" where
  "erase_micron_loop 0 base offset = failM Out_of_fuel"
| "erase_micron_loop (Suc k) base offset = bindM (getM id) (\<lambda>t.
     if offset < flash_bytes t then
       seqM (target_write_word (base + offset) 0x20202020)
      (seqM (target_write_word (base + offset) 0xd0d0d0d0)
      (bindM (poll_status (base + offset) (status_mask t) 10000) (\<lambda>ok.
         if ok then erase_micron_loop k base (offset + sector_size t) else retM False)))
     else seqM (target_write_word base 0xffffffff) (retM True))"

definition erase_command :: "u32 \<Rightarrow> ('w, unit) tact" where
  "erase_command base = bindM (getM id) (\<lambda>t.
     let cmd = unlock6 t base (base + flash_addr_odd t) (flash_cmd_10 t) in
     if flash_width t = 8 then write_bytes cmd
     else if flash_delay t \<noteq> 0 then target_write_nwords cmd
     else seqM (write_words cmd) (whenM (flash_width t = 64)
       (write_words (unlock6 t (base + 4) (base + flash_addr_odd t + 4) (flash_cmd_10 t)))))"

definition target_erase :: "nat \<Rightarrow> u32 \<Rightarrow> ('w, bool) tact" where
  "target_erase k addr = bindM (compute_base addr) (\<lambda>base.
     bindM (getM micron_com_set) (\<lambda>micron.
     bindM (if micron then erase_micron_loop k base 0 else seqM (erase_command base) (retM True))
       (\<lambda>ok. if ok then seqM (wait_erased k base) (retM True) else retM False)))"

definition sector_command :: "u32 \<Rightarrow> u32 \<Rightarrow> ('w, unit) tact" where
  "sector_command base addr = bindM (getM id) (\<lambda>t.
     let cmd = unlock6 t base addr (flash_cmd_30 t) in
     if flash_width t = 8 then write_bytes cmd
     else if flash_delay t \<noteq> 0 then target_write_nwords cmd
     else seqM (write_words cmd) (whenM (flash_width t = 64)
       (write_words (unlock6 t (base + 4) (addr + 4) (flash_cmd_30 t)))))"

text \<open>The address of the sector with the top four bits of the region's base.\<close>

definition sector_addr_of :: "u32 \<Rightarrow> u32 \<Rightarrow> u32" where
  "sector_addr_of base addr = (addr AND 0x0FFFFFFF) OR (base AND 0xF0000000)"

definition target_erase_sector :: "nat \<Rightarrow> u32 \<Rightarrow> ('w, bool) tact" where
  "target_erase_sector k addr0 = bindM (compute_base addr0) (\<lambda>base.
     let addr = sector_addr_of base addr0 in
     bindM (getM id) (\<lambda>t.
     bindM (if micron_com_set t then
         seqM (target_write_word addr 0x20202020)
        (seqM (target_write_word addr 0xd0d0d0d0)
        (bindM (poll_status addr (status_mask t) 10000) (\<lambda>ok.
           if ok then seqM (target_write_word addr 0xffffffff) (retM True) else retM False)))
       else seqM (sector_command base addr) (retM True))
     (\<lambda>ok. if ok then seqM (wait_erased k addr)
         (seqM (bindM (target_read_word MC_CSCON3) (\<lambda>_. retM ())) (retM True)) else retM False)))"

text \<open>
  The loop of \<open>target_erase_area\<close> with the running length \<open>cur_len\<close>, which is a 32-bit sum;
  \<open>k\<close> bounds both the sectors and each wait.
\<close>

primrec erase_area_loop :: "nat \<Rightarrow> nat \<Rightarrow> u32 \<Rightarrow> u32 \<Rightarrow> u32 \<Rightarrow> ('w, bool) tact" where
  "erase_area_loop k 0 addr len cur_len = failM Out_of_fuel"
| "erase_area_loop k (Suc n) addr len cur_len =
     (if cur_len < len then
        bindM (target_erase_sector k (addr + cur_len)) (\<lambda>ret.
          if \<not> ret then retM False
          else bindM (getM sector_size) (\<lambda>ss. erase_area_loop k n addr len (cur_len + ss)))
      else retM True)"

definition target_erase_area :: "nat \<Rightarrow> u32 \<Rightarrow> u32 \<Rightarrow> ('w, bool) tact" where
  "target_erase_area k addr len = erase_area_loop k k addr len 0"

section \<open>Blocks\<close>

text \<open>
  Transfers through a block function in pieces of at most \<open>bw\<close> words. A function table with
  \<open>block_words = 0\<close> would make the loop run for ever.
\<close>

fun read_chunks ::
  "(nat \<Rightarrow> u32 \<Rightarrow> ('w aworld, u32 list) act) \<Rightarrow> nat \<Rightarrow> u32 \<Rightarrow> nat \<Rightarrow> ('w, u32 list) tact" where
  "read_chunks f bw addr nwords =
     (if nwords = 0 then retM []
      else if bw = 0 then failM Out_of_fuel
      else let n = min nwords bw in
        bindM (on_adapter (\<lambda>_. f n addr)) (\<lambda>ws.
        bindM (read_chunks f bw (addr + of_nat n * 4) (nwords - n)) (\<lambda>rest. retM (ws @ rest))))"

fun write_chunks ::
  "(nat \<Rightarrow> u32 \<Rightarrow> u32 list \<Rightarrow> ('w aworld, unit) act) \<Rightarrow> nat \<Rightarrow> u32 \<Rightarrow> nat \<Rightarrow> u32 list \<Rightarrow>
   ('w, unit) tact" where
  "write_chunks f bw addr nwords data =
     (if nwords = 0 then retM ()
      else if bw = 0 then failM Out_of_fuel
      else let n = min nwords bw in
        seqM (on_adapter (\<lambda>_. f n addr data))
          (write_chunks f bw (addr + of_nat n * 4) (nwords - n) (drop n data)))"

declare read_chunks.simps [simp del] write_chunks.simps [simp del]

primrec read_words :: "u32 \<Rightarrow> nat \<Rightarrow> ('w, u32 list) tact" where
  "read_words addr 0 = retM []"
| "read_words addr (Suc n) = bindM (target_read_next addr) (\<lambda>w.
     bindM (read_words (addr + 4) n) (\<lambda>ws. retM (w # ws)))"

definition target_read_block :: "u32 \<Rightarrow> nat \<Rightarrow> ('w, u32 list) tact" where
  "target_read_block addr nwords = bindM (getM t_adapter) (\<lambda>a.
     case a_read_block a of
       Some f \<Rightarrow> read_chunks f (a_block_words a) (phys_of addr) nwords
     | None \<Rightarrow> seqM target_read_start (read_words (phys_of addr) nwords))"

text \<open>
  \<open>each_word f n addr data\<close>: \<open>f\<close> for the first \<open>n\<close> words of \<open>data\<close>, at addresses that go up
  by \<open>step\<close>.
\<close>

fun each_word ::
  "(u32 \<Rightarrow> u32 \<Rightarrow> ('w, unit) tact) \<Rightarrow> u32 \<Rightarrow> nat \<Rightarrow> u32 \<Rightarrow> u32 list \<Rightarrow> ('w, unit) tact" where
  "each_word f step 0 addr data = retM ()"
| "each_word f step (Suc n) addr [] = failM Bad_access"
| "each_word f step (Suc n) addr (w # data) = seqM (f addr w) (each_word f step n (addr + step) data)"

text \<open>Without a block function the first word is written before the count is looked at.\<close>

definition target_write_block :: "u32 \<Rightarrow> nat \<Rightarrow> u32 list \<Rightarrow> ('w, unit) tact" where
  "target_write_block addr nwords data = bindM (getM t_adapter) (\<lambda>a.
     case a_write_block a of
       Some f \<Rightarrow> write_chunks f (a_block_words a) (phys_of addr) nwords data
     | None \<Rightarrow> (case data of
         [] \<Rightarrow> failM Bad_access
       | w # rest \<Rightarrow> seqM (target_write_word (phys_of addr) w)
           (each_word target_write_next 4 (nwords - 1) (phys_of addr + 4) rest)))"

section \<open>Programming\<close>

definition cmds_of :: "'w target \<Rightarrow> flash_cmds" where
  "cmds_of t = \<lparr>fc_addr_odd = flash_addr_odd t, fc_addr_even = flash_addr_even t,
     fc_cmd_aa = flash_cmd_aa t, fc_cmd_55 = flash_cmd_55 t, fc_cmd_a0 = flash_cmd_a0 t\<rparr>"

text \<open>A block programming function of the adapter, applied in pieces.\<close>

fun program_chunks ::
  "'w program_op \<Rightarrow> nat \<Rightarrow> flash_cmds \<Rightarrow> u32 \<Rightarrow> u32 \<Rightarrow> nat \<Rightarrow> u32 list \<Rightarrow> ('w, unit) tact" where
  "program_chunks f bw fc base addr nwords data =
     (if nwords = 0 then retM ()
      else if bw = 0 then failM Out_of_fuel
      else let n = min nwords bw in
        seqM (on_adapter (\<lambda>_. f n base addr data fc))
          (program_chunks f bw fc base (addr + of_nat n * 4) (nwords - n) (drop n data)))"

declare program_chunks.simps [simp del]

text \<open>The four bytes of a word, lowest first; the data lines carry the shifted word.\<close>

definition program_word8 :: "u32 \<Rightarrow> u32 \<Rightarrow> u32 \<Rightarrow> ('w, unit) tact" where
  "program_word8 a0 addr w = seqsM
     [target_write_2bytes addr a0 addr w,
      target_write_2bytes (addr + 1) a0 (addr + 1) (drop_bit 8 w),
      target_write_2bytes (addr + 2) a0 (addr + 2) (drop_bit 16 w),
      target_write_2bytes (addr + 3) a0 (addr + 3) (drop_bit 24 w)]"

definition target_program_block8 :: "u32 \<Rightarrow> u32 \<Rightarrow> nat \<Rightarrow> u32 list \<Rightarrow> ('w, unit) tact" where
  "target_program_block8 addr base nwords data = bindM (getM id) (\<lambda>t. seqsM
     [target_write_2bytes (base + flash_addr_odd t) (flash_cmd_aa t)
        (base + flash_addr_even t) (flash_cmd_55 t),
      target_write_byte (base + flash_addr_odd t) (flash_cmd_20 t),
      each_word (program_word8 (flash_cmd_a0 t)) 4 nwords addr data,
      target_write_2bytes base (flash_cmd_90 t) base 0])"

text \<open>One word: the unlock sequence with the program command, then the word at its address.\<close>

definition program_word32 :: "'w target \<Rightarrow> u32 \<Rightarrow> u32 \<Rightarrow> u32 \<Rightarrow> ('w, unit) tact" where
  "program_word32 t base addr w =
     target_write_nwords (unlock3 t base (flash_cmd_a0 t) @ [(addr, w)])"

definition target_program_block32 :: "u32 \<Rightarrow> u32 \<Rightarrow> nat \<Rightarrow> u32 list \<Rightarrow> ('w, unit) tact" where
  "target_program_block32 addr base nwords data = bindM (getM id) (\<lambda>t.
     case a_program_block32 (t_adapter t) of
       Some f \<Rightarrow> program_chunks f (a_program_block_words (t_adapter t)) (cmds_of t) base addr nwords data
     | None \<Rightarrow> each_word (program_word32 t base) 4 nwords addr data)"

definition target_program_block64 :: "u32 \<Rightarrow> u32 \<Rightarrow> nat \<Rightarrow> u32 list \<Rightarrow> ('w, unit) tact" where
  "target_program_block64 addr base nwords data = bindM (getM id) (\<lambda>t.
     case a_program_block64 (t_adapter t) of
       Some f \<Rightarrow> program_chunks f (a_program_block_words (t_adapter t)) (cmds_of t) base addr nwords data
     | None \<Rightarrow> each_word (program_word32 t (if addr AND 4 \<noteq> 0 then base + 4 else base))
         4 nwords addr data)"

subsection \<open>Micron\<close>

text \<open>The request for the write buffer, repeated until the status is ready.\<close>

primrec micron_request :: "u32 \<Rightarrow> u32 \<Rightarrow> nat \<Rightarrow> ('w, bool) tact" where
  "micron_request sa msk 0 = seqM (target_write_word sa 0xe8e8e8e8)
     (seqM (target_read_word sa) (retM False))"
| "micron_request sa msk (Suc n) = seqM (target_write_word sa 0xe8e8e8e8)
     (bindM (target_read_word sa) (\<lambda>status.
        if status \<noteq> msk then micron_request sa msk n else retM True))"

primrec micron_status :: "u32 \<Rightarrow> u32 \<Rightarrow> nat \<Rightarrow> ('w, bool) tact" where
  "micron_status sa msk 0 = seqM (target_write_word sa 0x70707070)
     (seqM (target_read_word sa) (retM False))"
| "micron_status sa msk (Suc n) = seqM (target_write_word sa 0x70707070)
     (bindM (target_read_word sa) (\<lambda>status.
        if status \<noteq> msk then micron_status sa msk n else retM True))"

text \<open>One buffer of \<open>n + 1\<close> words.\<close>

definition micron_buffer :: "u32 \<Rightarrow> nat \<Rightarrow> u32 \<Rightarrow> u32 list \<Rightarrow> ('w, unit) tact" where
  "micron_buffer sa n addr data = bindM (getM t_adapter) (\<lambda>a.
     case a_program_block32_micron a of
       Some f \<Rightarrow> on_adapter (\<lambda>_. f n addr data)
     | None \<Rightarrow> seqsM
         [target_write_word sa (push_bit 16 (of_nat n) OR of_nat n),
          each_word target_write_word 4 (n + 1) addr data,
          target_write_word sa 0xd0d0d0d0])"

text \<open>The loop over the buffers; \<open>False\<close> when the chip did not become ready.\<close>

fun micron_loop :: "u32 \<Rightarrow> u32 \<Rightarrow> nat \<Rightarrow> u32 \<Rightarrow> u32 list \<Rightarrow> ('w, bool) tact" where
  "micron_loop sa msk nwords addr data =
     (if nwords = 0 then retM True
      else bindM (micron_request sa msk 10000) (\<lambda>ok.
        if \<not> ok then retM False
        else let n = (if nwords < 16 then nwords - 1 else 15) in
          seqM (micron_buffer sa n addr data)
            (micron_loop sa msk (nwords - (n + 1)) (addr + of_nat (n + 1) * 4) (drop (n + 1) data))))"

declare micron_loop.simps [simp del]

text \<open>The three timeouts print a message, reset the chip and return like a success.\<close>

definition target_program_block32_micron :: "u32 \<Rightarrow> u32 \<Rightarrow> nat \<Rightarrow> u32 list \<Rightarrow> ('w, unit) tact" where
  "target_program_block32_micron addr base nwords data = bindM (getM id) (\<lambda>t.
     let sa = addr AND NOT (sector_size t - 1); msk = status_mask t in
     bindM (micron_loop sa msk nwords addr data) (\<lambda>ok.
       if \<not> ok then target_write_word sa 0xffffffff
       else bindM (poll_status sa msk 10000) (\<lambda>ok.
         if \<not> ok then target_write_word sa 0xffffffff
         else seqM (micron_status sa msk 10000) (target_write_word sa 0xffffffff))))"

subsection \<open>Atmel\<close>

text \<open>With the adapter's functions: pages of 128 words, whatever the count.\<close>

fun atmel_chunks ::
  "'w program_op \<Rightarrow> 'w program_op \<Rightarrow> flash_cmds \<Rightarrow> u32 \<Rightarrow> u32 \<Rightarrow> nat \<Rightarrow> u32 list \<Rightarrow> ('w, unit) tact" where
  "atmel_chunks unprot prot fc base addr nwords data =
     (if nwords = 0 then retM ()
      else seqM (on_adapter (\<lambda>_. unprot 128 base addr data fc))
          (seqM (on_adapter (\<lambda>_. prot 128 base addr data fc))
             (if nwords \<le> 128 then retM ()
              else atmel_chunks unprot prot fc base (addr + 128 * 4) (nwords - 128) (drop 128 data))))"

declare atmel_chunks.simps [simp del]

text \<open>
  Without them: \<open>nwords\<close> is the unsigned count, which wraps when it is not a multiple of 128;
  each round needs 128 words of data, so the rounds are bounded by the data.
\<close>

primrec atmel_loop :: "nat \<Rightarrow> 'w target \<Rightarrow> u32 \<Rightarrow> u32 \<Rightarrow> u32 \<Rightarrow> u32 list \<Rightarrow> ('w, unit) tact" where
  "atmel_loop 0 t base addr nwords data = failM Out_of_fuel"
| "atmel_loop (Suc k) t base addr nwords data =
     (if nwords = 0 then retM ()
      else seqsM
        [target_write_nwords (unlock3 t base 0x80808080 @ unlock3 t base 0x20202020),
         target_write_block addr 128 data,
         target_write_nwords (unlock3 t base (flash_cmd_a0 t)),
         target_write_block addr 128 data,
         atmel_loop k t base (addr + 128 * 4) (nwords - 128) (drop 128 data)])"

definition target_program_block32_atmel :: "u32 \<Rightarrow> u32 \<Rightarrow> nat \<Rightarrow> u32 list \<Rightarrow> ('w, unit) tact" where
  "target_program_block32_atmel addr base nwords data = bindM (getM id) (\<lambda>t.
     case a_program_block32_protect (t_adapter t) of
       Some prot \<Rightarrow> (case a_program_block32_unprotect (t_adapter t) of
           Some unprot \<Rightarrow> atmel_chunks unprot prot (cmds_of t) base addr nwords data
         | None \<Rightarrow> if nwords = 0 then retM () else failM Bad_access)
     | None \<Rightarrow> atmel_loop (length data div 128 + 2) t base addr (of_nat nwords) data)"

subsection \<open>Any chip\<close>

definition target_program_block :: "u32 \<Rightarrow> nat \<Rightarrow> u32 list \<Rightarrow> ('w, unit) tact" where
  "target_program_block addr0 nwords data = bindM (compute_base addr0) (\<lambda>base.
     let addr = phys_of addr0 in
     bindM (getM id) (\<lambda>t.
       if flash_width t = 8 then target_program_block8 addr base nwords data
       else if flash_width t = 32 then
         (if micron_com_set t then target_program_block32_micron addr base nwords data
          else if flash_delay t \<noteq> 0 then target_program_block32_atmel addr base nwords data
          else target_program_block32 addr base nwords data)
       else if flash_width t = 64 then target_program_block64 addr base nwords data
       else retM ()))"

text \<open>
  Rewriting a word that verified wrong. On a byte-wide chip the first byte that differs is
  found by shifting; four rounds empty the 32-bit difference.
\<close>

primrec first_bad_byte :: "nat \<Rightarrow> u32 \<Rightarrow> u32 \<Rightarrow> u32 \<Rightarrow> u32 \<times> u32" where
  "first_bad_byte 0 diff expected addr = (addr, expected)"
| "first_bad_byte (Suc n) diff expected addr =
     (if diff \<noteq> 0 \<and> diff AND 0xFF = 0
      then first_bad_byte n (drop_bit 8 diff) (drop_bit 8 expected) (addr + 1)
      else (addr, expected))"

definition target_flash_rewrite :: "u32 \<Rightarrow> u32 \<Rightarrow> u32 \<Rightarrow> ('w, bool) tact" where
  "target_flash_rewrite addr0 bad expected = bindM (compute_base addr0) (\<lambda>base.
     let addr = phys_of addr0 in
     bindM (getM id) (\<lambda>t.
       if flash_width t = 8 then
         (let (a, e) = first_bad_byte 4 (bad XOR expected) expected addr in
          seqM (seqsM
            [target_write_2bytes (base + flash_addr_odd t) (flash_cmd_aa t)
               (base + flash_addr_even t) (flash_cmd_55 t),
             target_write_2bytes (base + flash_addr_odd t) (flash_cmd_a0 t) a (e AND 0xff)])
            (retM True))
       else if flash_width t = 64 \<or> flash_width t = 32 then
         (let b = (if flash_width t = 64 then base + (addr AND 4) else base) in
          if flash_delay t \<noteq> 0 then retM False
          else seqM (program_word32 t b addr expected) (retM True))
       else retM True))"

end
