(* ===== verification/Target_Run.thy ===== *)
theory Target_Run
  imports Flash
begin

text \<open>
  The part of target.c that runs and stops the processor: the state \<open>is_running\<close>, stepping,
  resuming, restarting and closing, and the two hardware breakpoints.
\<close>

section \<open>Running and stopping\<close>

text \<open>The result is the stopped flag and \<open>is_aborted\<close>.\<close>

definition target_is_stopped :: "('w, bool \<times> bool) tact" where
  "target_is_stopped = bindM (on_adapter a_cpu_stopped) (\<lambda>stopped.
     if \<not> stopped then retM (False, False)
     else seqM (bindM (getM is_running) (\<lambda>r. whenM r (seqsM
         [on_adapter a_stop_cpu, modM (\<lambda>t. t\<lparr>is_running := False\<rparr>), target_save_state])))
       (bindM get_oscr (\<lambda>v. retM (True, v AND OSCR_SWO \<noteq> 0))))"

definition target_stop :: "('w, unit) tact" where
  "target_stop = bindM (getM is_running) (\<lambda>r.
     if \<not> r then retM ()
     else seqsM
       [on_adapter a_stop_cpu,
        modM (\<lambda>t. t\<lparr>is_running := False\<rparr>),
        target_save_state,
        bindM (target_read_word MC_CSCON3) (\<lambda>v.
          modM (\<lambda>t. t\<lparr>cscon3 := v AND NOT (MC_CSCON3_ADDR 3)\<rparr>))])"

definition target_step :: "('w, unit) tact" where
  "target_step = bindM (getM is_running) (\<lambda>r.
     if r then retM ()
     else seqsM
       [target_restore_state,
        bindM (getM t_adapter) (\<lambda>a. case a_step_cpu a of
            Some f \<Rightarrow> on_adapter (\<lambda>_. f)
          | None \<Rightarrow> oncd_write 0 (OnCD_GO OR IRd_FLUSH_PIPE OR IRd_STEP_1CLK) 0),
        target_save_state])"

definition run_cpu :: "('w, unit) tact" where
  "run_cpu = bindM (getM t_adapter) (\<lambda>a. case a_run_cpu a of
       Some f \<Rightarrow> on_adapter (\<lambda>_. f)
     | None \<Rightarrow> oncd_write 0 (OnCD_GO OR IRd_RESUME OR IRd_FLUSH_PIPE) 0)"

definition target_resume :: "('w, unit) tact" where
  "target_resume = bindM (getM is_running) (\<lambda>r.
     if r then retM ()
     else seqsM [target_restore_state, modM (\<lambda>t. t\<lparr>is_running := True\<rparr>), run_cpu])"

definition target_run :: "u32 \<Rightarrow> ('w, unit) tact" where
  "target_run addr = bindM (getM is_running) (\<lambda>r.
     if r then retM ()
     else seqsM [modM (\<lambda>t. t\<lparr>exception := addr\<rparr>), target_restore_state,
       modM (\<lambda>t. t\<lparr>is_running := True\<rparr>), run_cpu])"

definition target_restart :: "('w, unit) tact" where
  "target_restart = seqsM
     [bindM (getM is_running) (\<lambda>r. whenM (\<not> r) target_restore_state),
      on_adapter a_reset_cpu,
      modM (\<lambda>t. t\<lparr>is_running := True\<rparr>)]"

definition target_close :: "('w, unit) tact" where
  "target_close = seqM (bindM (getM is_running) (\<lambda>r. whenM (\<not> r) target_resume))
     (on_adapter a_close)"

section \<open>Breakpoints\<close>

text \<open>The bits of the control register for a kind of breakpoint in slot 0.\<close>

definition break_bits :: "char \<Rightarrow> u32" where
  "break_bits kind =
     (if kind = CHR ''b'' then OBCR_CC0_EQ OR OBCR_RW0_READ
      else if kind = CHR ''r'' then OBCR_CC0_EQ OR OBCR_RW0_READ OR OBCR_MBS0
      else if kind = CHR ''w'' then OBCR_CC0_EQ OR OBCR_RW0_WRITE OR OBCR_MBS0
      else if kind = CHR ''a'' then OBCR_CC0_EQ OR OBCR_RW0_RW OR OBCR_MBS0
      else 0)"

definition target_add_break :: "u32 \<Rightarrow> char \<Rightarrow> ('w, unit) tact" where
  "target_add_break addr kind =
     bindM (oncd_read OnCD_OBCR 12) (\<lambda>ob.
     bindM (if ob AND OBCR_RW0_RW \<noteq> 0
       then bindM (oncd_read OnCD_OMLR0 32) (\<lambda>ol0. retM
         ((push_bit 1 ob AND OBCR_MBS1) OR (push_bit 4 ob AND (OBCR_RW1_MASK OR OBCR_CC1_MASK)), ol0))
       else retM (OBCR_ANY, 0))
     (\<lambda>(ob', ol1). seqsM
        [oncd_write addr OnCD_OMLR0 32,
         oncd_write ol1 OnCD_OMLR1 32,
         oncd_write (ob' OR break_bits kind) OnCD_OBCR 12,
         oncd_write 0 OnCD_OMBC 16]))"

text \<open>The new values of OBCR, OMLR0 and OMLR1, \<open>None\<close> when no breakpoint is at the address.\<close>

definition removed_break :: "u32 \<Rightarrow> u32 \<Rightarrow> u32 \<Rightarrow> u32 \<Rightarrow> (u32 \<times> u32 \<times> u32) option" where
  "removed_break addr ob ol0 ol1 =
     (if ob AND OBCR_RW0_RW \<noteq> 0 \<and> ol0 = addr then
        (if ob AND OBCR_RW1_RW \<noteq> 0
         then Some ((drop_bit 1 ob AND OBCR_MBS0) OR
                (drop_bit 4 ob AND (OBCR_RW0_MASK OR OBCR_CC0_MASK)), ol1, 0)
         else Some (0, 0, 0))
      else if ob AND OBCR_RW1_RW \<noteq> 0 \<and> ol1 = addr then
        (if ob AND OBCR_RW0_RW \<noteq> 0
         then Some (ob AND NOT (OBCR_MBS1 OR OBCR_RW1_MASK OR OBCR_CC1_MASK), ol0, 0)
         else Some (0, 0, 0))
      else None)"

definition target_remove_break :: "u32 \<Rightarrow> ('w, unit) tact" where
  "target_remove_break addr =
     bindM (oncd_read OnCD_OBCR 12) (\<lambda>ob.
     bindM (oncd_read OnCD_OMLR0 32) (\<lambda>ol0.
     bindM (oncd_read OnCD_OMLR1 32) (\<lambda>ol1.
       case removed_break addr ob ol0 ol1 of
         None \<Rightarrow> retM ()
       | Some (ob', ol0', ol1') \<Rightarrow> seqsM
           [oncd_write ob' OnCD_OBCR 12,
            oncd_write ol0' OnCD_OMLR0 32,
            oncd_write ol1' OnCD_OMLR1 32])))"

end

