(* ===== verification/Flash_Props.thy ===== *)
theory Flash_Props
  imports Target_Run
begin

text \<open>
  What the memory and flash operations of target.c achieve on the memory bus, for every
  adapter whose debug unit behaves as documented: the write sequences that program flash, block
  transfers on plain memory, the table of regions, and the choice of the byte to rewrite.
\<close>

section \<open>Sequences of bus writes\<close>

definition bw_all :: "(u32 \<times> u32) list \<Rightarrow> bus_op list" where
  "bw_all args = map (\<lambda>(a, d). BW (phys_of a) d) args"

lemma bw_all_simps [simp]:
  "bw_all [] = []" "bw_all ((a, d) # args) = BW (phys_of a) d # bw_all args"
  "bw_all (xs @ ys) = bw_all xs @ bw_all ys"
  by (simp_all add: bw_all_def)

lemma bus_writes_run: "bus_writes args h = (Inr (), h @ bw_all args)"
  by (induction args arbitrary: h) (auto simp: act_simps bus_write_def)

lemma bus_writes_append: "seqM (bus_writes xs) (bus_writes ys) = bus_writes (xs @ ys)"
  by (simp add: seqsM_append)

lemma bus_writes_concat:
  "seqsM (map (\<lambda>x. bus_writes (f x)) xs) = bus_writes (concat (map f xs))"
  by (induction xs) (simp_all add: seqsM_append)

text \<open>From a refinement to a statement on the run.\<close>

lemma does_writes_run:
  assumes "does rd view t m (bus_writes args)" and "good rd view t"
  shows "\<exists>t'. m t = (Inr (), t') \<and> bus_hist view t' = bus_hist view t @ bw_all args \<and>
    cfg t' = cfg t \<and> good rd view t'"
  using doesE [OF assms(1,2) refl] bus_writes_run by (metis fst_conv snd_conv)

section \<open>Words of a block\<close>

lemma does_each_word:
  assumes "\<And>a w. does rd view c (f a w) (bus_writes (g a w))" and "n \<le> length data"
  shows "does rd view c (each_word f step n addr data)
    (bus_writes (concat (map (\<lambda>i. g (addr + of_nat i * step) (data ! i)) [0..<n])))"
  using assms(2)
proof (induction n arbitrary: addr data)
  case 0
  then show ?case
    by (simp add: does_intros)
next
  case (Suc n)
  then obtain w ws where d: "data = w # ws"
    by (cases data) simp_all
  have "does rd view c (each_word f step n (addr + step) ws)
      (bus_writes (concat (map (\<lambda>i. g (addr + step + of_nat i * step) (ws ! i)) [0..<n])))"
    using Suc d by simp
  then have "does rd view c (seqM (f addr w) (each_word f step n (addr + step) ws))
      (seqM (bus_writes (g addr w))
        (bus_writes (concat (map (\<lambda>i. g (addr + step + of_nat i * step) (ws ! i)) [0..<n]))))"
    by (intro does_seqM assms(1))
  moreover have "map (\<lambda>i. g (addr + of_nat i * step) (data ! i)) [0..<Suc n] =
      g addr w # map (\<lambda>i. g (addr + step + of_nat i * step) (ws ! i)) [0..<n]"
    by (simp add: d upt_rec [of 0] map_Suc_upt [symmetric] o_def algebra_simps del: upt_Suc)
  ultimately show ?case
    by (simp add: d bus_writes_append del: upt_Suc)
qed

text \<open>The unlock sequence of one word, and the trace of a whole block.\<close>

definition program_seq :: "'w target \<Rightarrow> u32 \<Rightarrow> u32 \<Rightarrow> u32 \<Rightarrow> (u32 \<times> u32) list" where
  "program_seq t base addr w = unlock3 t base (flash_cmd_a0 t) @ [(addr, w)]"

lemma does_program_word32:
  assumes "bus_ops rd view (t_adapter c)"
  shows "does rd view c (program_word32 t base addr w) (bus_writes (program_seq t base addr w))"
  unfolding program_word32_def program_seq_def
  by (rule does_write_nwords [OF assms]) simp

lemma program_block32_unfold:
  assumes "a_program_block32 (t_adapter t) = None"
  shows "target_program_block32 addr base n data t = each_word (program_word32 t base) 4 n addr data t"
  using assms by (simp add: target_program_block32_def act_simps)

section \<open>Blocks on plain memory\<close>

lemma phys_of_less: "unat (phys_of a) < 2147483648"
proof -
  have a: "unat a < 4294967296"
    using unsigned_less [of a] by simp
  have ge: "2684354560 \<le> a \<longleftrightarrow> 2684354560 \<le> unat a" "2147483648 \<le> a \<longleftrightarrow> 2147483648 \<le> unat a"
    by (simp_all add: word_le_nat_alt)
  show ?thesis
    using a ge by (auto simp: phys_of_def unat_sub)
qed

lemma phys_of_small: "unat a < 2147483648 \<Longrightarrow> phys_of a = a"
  by (simp add: phys_of_def word_le_nat_alt)

lemma unat_add_word4:
  fixes p :: u32
  assumes "unat p + 4 * n \<le> 2147483648" and "i < n"
  shows "unat (p + of_nat i * 4) = unat p + 4 * i"
proof -
  have "(p + of_nat i * 4 :: u32) = of_nat (unat p + 4 * i)"
    by simp
  then have "unat (p + of_nat i * 4) = take_bit LENGTH(32) (unat p + 4 * i)"
    by (simp only: unsigned_of_nat of_nat_id)
  then show ?thesis
    using assms by (simp add: take_bit_nat_eq_self)
qed

lemma ram_writes:
  "distinct (map fst args) \<Longrightarrow> (\<forall>(a, d) \<in> set args. phys_of a = a) \<Longrightarrow> i < length args \<Longrightarrow>
   ram m (h @ bw_all args) (fst (args ! i)) = snd (args ! i)"
proof (induction args arbitrary: i rule: rev_induct)
  case (snoc x args)
  obtain a d where x: "x = (a, d)"
    by fastforce
  show ?case
  proof (cases "i = length args")
    case True
    then show ?thesis
      using snoc(3) x by (simp flip: append_assoc)
  next
    case False
    then have "i < length args"
      using snoc(4) by simp
    moreover from this have "fst (args ! i) \<noteq> a"
      using snoc(2) x imageI [OF nth_mem, of i args fst] by auto
    ultimately show ?thesis
      using snoc x by (simp add: nth_append flip: append_assoc)
  qed
qed simp

lemma ram_reads: "ram m (h @ map BR as) = ram m h"
proof
  show "ram m (h @ map BR as) a = ram m h a" for a
    by (induction as rule: rev_induct) (simp_all flip: append_assoc)
qed

lemma bus_read_words_ram:
  "bus_read_words (ram m) addr n h =
   (Inr (map (\<lambda>i. ram m h (phys_of (addr + of_nat i * 4))) [0..<n]),
    h @ map (\<lambda>i. BR (phys_of (addr + of_nat i * 4))) [0..<n])"
proof (induction n arbitrary: addr h)
  case (Suc n)
  have "ram m (h @ [BR (phys_of addr)]) = ram m h"
    using ram_reads [of m h "[phys_of addr]"] by simp
  then show ?case
    by (simp add: Suc act_simps bus_read_def upt_rec [of 0] map_Suc_upt [symmetric] o_def
        algebra_simps del: upt_Suc)
qed (simp add: retM_apply)

lemma read_words_mode:
  "mode_does rd view (\<lambda>m. m = 3) (\<lambda>m. m = 3) c (read_words addr n) (bus_read_words rd addr n)"
proof (induction n arbitrary: addr)
  case 0
  then show ?case
    by (auto simp: mode_does_def retM_apply)
next
  case (Suc n)
  show ?case
    unfolding mode_does_def
  proof (intro allI impI)
    fix t
    assume t: "good rd view t" "cfg t = cfg c" "mode_of t = 3"
    obtain x t1 where 1: "target_read_next addr t = (Inr x, t1)"
        "bus_read rd addr (bus_hist view t) = (Inr x, bus_hist view t1)"
        "cfg t1 = cfg c" "good rd view t1" "mode_of t1 = 3"
      by (rule mode_doesE [OF read_next_mode t])
    obtain ws t2 where 2: "read_words (addr + 4) n t1 = (Inr ws, t2)"
        "bus_read_words rd (addr + 4) n (bus_hist view t1) = (Inr ws, bus_hist view t2)"
        "cfg t2 = cfg c" "good rd view t2" "mode_of t2 = 3"
      by (rule mode_doesE [OF Suc 1(4,3,5)])
    show "\<exists>x t'. read_words addr (Suc n) t = (Inr x, t') \<and>
        bus_read_words rd addr (Suc n) (bus_hist view t) = (Inr x, bus_hist view t') \<and>
        cfg t' = cfg c \<and> good rd view t' \<and> mode_of t' = 3"
      using 1 2 by (simp add: act_simps)
  qed
qed

lemma does_read_block:
  assumes "a_read_block (t_adapter c) = None"
  shows "does rd view c (target_read_block addr n) (bus_read_words rd (phys_of addr) n)"
  unfolding target_read_block_def
proof (rule does_getM)
  show "does rd view c
      (case a_read_block (t_adapter c) of
         None \<Rightarrow> seqM target_read_start (read_words (phys_of addr) n)
       | Some f \<Rightarrow> read_chunks f (a_block_words (t_adapter c)) (phys_of addr) n)
      (bus_read_words rd (phys_of addr) n)"
    using mode_does_does [OF mode_does_seq [OF read_start_mode read_words_mode]] assms
    by (simp add: seqM_skip)
qed (rule cfg_fields)

text \<open>The address and value pairs of a block.\<close>

lemma each_word_next:
  "n \<le> length data \<Longrightarrow> each_word target_write_next 4 n addr data =
   seqsM (map (\<lambda>(a, d). target_write_next a d) (block_pairs addr n data))"
proof (induction n arbitrary: addr data)
  case (Suc n)
  then obtain w ws where d: "data = w # ws"
    by (cases data) simp_all
  have "block_pairs addr (Suc n) data = (addr, w) # block_pairs (addr + 4) n ws"
    by (simp add: block_pairs_def d upt_rec [of 0] map_Suc_upt [symmetric] o_def algebra_simps
        del: upt_Suc)
  then show ?case
    using Suc by (simp add: d)
qed (simp add: block_pairs_def)

lemma block_pairs_Suc:
  "block_pairs addr (Suc n) (w # ws) = (addr, w) # block_pairs (addr + 4) n ws"
  by (simp add: block_pairs_def upt_rec [of 0] map_Suc_upt [symmetric] o_def algebra_simps
      del: upt_Suc)

lemma does_write_block:
  assumes "a_write_block (t_adapter c) = None" and "0 < n" and "n \<le> length data"
  shows "does rd view c (target_write_block addr n data)
    (bus_writes (block_pairs (phys_of addr) n data))"
  unfolding target_write_block_def
proof (rule does_getM)
  obtain m where n: "n = Suc m"
    using assms(2) by (cases n) simp_all
  obtain w ws where d: "data = w # ws"
    using assms(2,3) by (cases data) simp_all
  have "does rd view c
      (seqM (target_write_word (phys_of addr) w)
        (each_word target_write_next 4 m (phys_of addr + 4) ws))
      (bus_writes (block_pairs (phys_of addr) n data))"
    using does_write_seq [of rd view c "phys_of addr" w "block_pairs (phys_of addr + 4) m ws"] assms(3)
    by (simp add: each_word_next n d block_pairs_Suc)
  then show "does rd view c
      (case a_write_block (t_adapter c) of
         None \<Rightarrow> (case data of
             [] \<Rightarrow> failM Bad_access
           | w # rest \<Rightarrow> seqM (target_write_word (phys_of addr) w)
               (each_word target_write_next 4 (n - 1) (phys_of addr + 4) rest))
       | Some f \<Rightarrow> write_chunks f (a_block_words (t_adapter c)) (phys_of addr) n data)
      (bus_writes (block_pairs (phys_of addr) n data))"
    using assms(1) by (simp add: n d)
qed (rule cfg_fields)

section \<open>Properties: programming and block access\<close>



definition sim_flash :: "(bus_op list \<Rightarrow> u32 \<Rightarrow> u32) \<Rightarrow> chip target" where
  "sim_flash rd = set_mode 0 (sim_target rd)"

lemma sim_flash_simps [simp]:
  "t_adapter (sim_flash rd) = sim_adapter rd" "aw (sim_flash rd) = sim_world"
  "flash_addr_odd (sim_flash rd) = 0x15554" "flash_addr_even (sim_flash rd) = 0xAAA8"
  "flash_cmd_aa (sim_flash rd) = 0xAA00AA" "flash_cmd_55 (sim_flash rd) = 0x550055"
  "flash_cmd_a0 (sim_flash rd) = 0xA000A0"
  by (simp_all add: sim_flash_def set_mode_def set_cmds16_def)



section \<open>The table of regions\<close>

text \<open>The table holds the regions \<open>rs\<close> and the end mark behind them.\<close>

definition table_ok :: "'w target \<Rightarrow> (u32 \<times> u32) list \<Rightarrow> bool" where
  "table_ok t rs \<longleftrightarrow> length rs < NFLASH \<and>
     (\<forall>i < length rs. flash_base t i = fst (rs ! i) \<and> flash_last t i = snd (rs ! i) \<and>
        snd (rs ! i) \<noteq> 0xffffffff) \<and>
     flash_base t (length rs) = 0xffffffff \<and> flash_last t (length rs) = 0xffffffff"

text \<open>Regions with addresses in order and no start inside an earlier region.\<close>

definition regions_ok :: "(u32 \<times> u32) list \<Rightarrow> bool" where
  "regions_ok rs \<longleftrightarrow> (\<forall>i < length rs. fst (rs ! i) \<le> snd (rs ! i) \<and> snd (rs ! i) \<noteq> 0xffffffff) \<and>
     (\<forall>j < length rs. \<forall>i < j. \<not> (fst (rs ! i) \<le> fst (rs ! j) \<and> fst (rs ! j) \<le> snd (rs ! i)))"

lemma find_first:
  "n < m \<Longrightarrow> P n \<Longrightarrow> (\<forall>i < n. \<not> P i) \<Longrightarrow> find P [0..<m] = Some n"
  by (auto simp: find_Some_iff intro!: exI [of _ n])

lemma configure_region:
  assumes "table_ok t rs" and "length rs < NFLASH - 1" and "lst \<noteq> 0xffffffff"
  shows "\<exists>t'. target_flash_configure first lst t = (Inr (), t') \<and> table_ok t' (rs @ [(first, lst)]) \<and>
    t' = t\<lparr>flash_base := flash_base t', flash_last := flash_last t'\<rparr>"
proof -
  have "find (\<lambda>i. flash_last t i = 0xffffffff) [0..<NFLASH - 1] = Some (length rs)"
    using assms(1,2) by (intro find_first) (auto simp: table_ok_def)
  then show ?thesis
    using assms by (auto simp: target_flash_configure_def act_simps table_ok_def nth_append less_Suc_eq)
qed

primrec configure_all :: "(u32 \<times> u32) list \<Rightarrow> ('w, unit) tact" where
  "configure_all [] = retM ()"
| "configure_all (r # rs) = seqM (target_flash_configure (fst r) (snd r)) (configure_all rs)"

lemma configure_all_ok:
  assumes "table_ok t qs" and "length qs + length rs \<le> NFLASH - 1" and "\<forall>r \<in> set rs. snd r \<noteq> 0xffffffff"
  shows "\<exists>t'. configure_all rs t = (Inr (), t') \<and> table_ok t' (qs @ rs)"
  using assms
proof (induction rs arbitrary: t qs)
  case Nil
  then show ?case
    by (simp add: retM_apply)
next
  case (Cons r rs)
  have len: "length qs < NFLASH - 1"
    using Cons(3) by simp
  have "snd r \<noteq> 0xffffffff"
    using Cons(4) by simp
  then obtain t1 where t1: "target_flash_configure (fst r) (snd r) t = (Inr (), t1)"
      "table_ok t1 (qs @ [r])"
    using configure_region [OF Cons(2) len, of "snd r" "fst r"] by auto
  then show ?case
    using Cons(1) [OF t1(2)] Cons(3,4) by (auto simp: seqM_apply)
qed

text \<open>The loop \<open>for (base = next (~0); base != ~0; base = next (base))\<close> of the callers.\<close>

primrec flash_list :: "nat \<Rightarrow> 'w target \<Rightarrow> u32 \<Rightarrow> (u32 \<times> u32) list" where
  "flash_list 0 t prev = []"
| "flash_list (Suc k) t prev = (case target_flash_next t prev of
     None \<Rightarrow> []
   | Some (b, l) \<Rightarrow> (b, l) # flash_list k t b)"

lemma flash_next_loop_from:
  assumes t: "table_ok t rs" and r: "regions_ok rs" and k: "k < length rs"
    and i: "1 \<le> i" "i \<le> Suc k"
  shows "flash_next_loop t (fst (rs ! k)) [i..<NFLASH - 1] =
    (if Suc k < length rs then Some (rs ! Suc k) else None)"
  using i(2,1)
proof (induction i rule: inc_induct)
  case base
  show ?case
  proof (cases "Suc k < NFLASH - 1")
    case True
    then show ?thesis
      using t r k by (auto simp: upt_conv_Cons table_ok_def regions_ok_def prod_eq_iff
          dest: less_SucE intro: Suc_lessI)
  next
    case False
    then show ?thesis
      using t k by (auto simp: table_ok_def)
  qed
next
  case (step i)
  then have i: "i < length rs" "i - 1 < k" "i < NFLASH - 1"
    using k t by (auto simp: table_ok_def)
  then have "flash_last t i \<noteq> 0xffffffff"
    and "\<not> (fst (rs ! k) \<ge> flash_base t (i - 1) \<and> fst (rs ! k) \<le> flash_last t (i - 1))"
    using t r k by (auto simp: table_ok_def regions_ok_def)
  then show ?case
    using step i by (auto simp: upt_conv_Cons)
qed

lemma max_u32: "0xffffffff \<le> y \<Longrightarrow> y = (0xffffffff :: u32)"
proof -
  assume "0xffffffff \<le> y"
  moreover have "unat y < 2 ^ LENGTH(32)"
    by (rule unsigned_less)
  ultimately show "y = 0xffffffff"
    by (simp add: word_le_nat_alt word_unat_eq_iff)
qed

lemma flash_next_region:
  assumes "table_ok t rs" and "regions_ok rs" and "k < length rs"
  shows "target_flash_next t (fst (rs ! k)) = (if Suc k < length rs then Some (rs ! Suc k) else None)"
proof -
  have "fst (rs ! k) \<noteq> 0xffffffff"
    using assms(2,3) max_u32 by (auto simp: regions_ok_def)
  then show ?thesis
    using flash_next_loop_from [OF assms, of 1] by (simp add: target_flash_next_def)
qed

lemma flash_list_from:
  assumes "table_ok t rs" and "regions_ok rs"
  shows "k < length rs \<Longrightarrow> length rs \<le> k + m \<Longrightarrow> flash_list m t (fst (rs ! k)) = drop (Suc k) rs"
proof (induction m arbitrary: k)
  case (Suc m)
  show ?case
  proof (cases "Suc k < length rs")
    case True
    obtain b l where r: "rs ! Suc k = (b, l)"
      by fastforce
    have "flash_list m t b = drop (Suc (Suc k)) rs"
      using Suc(1) [of "Suc k"] Suc(3) True r by simp
    then show ?thesis
      using Suc(2) True r flash_next_region [OF assms, of k] Cons_nth_drop_Suc [of "Suc k" rs] by simp
  qed (use Suc flash_next_region [OF assms, of k] in simp)
qed simp

text \<open>
  Also: after one to 15 regions have been configured in an empty table,
  the iteration over the regions visits exactly these, each once and in the order they were
  given, and then stops.
\<close>

theorem flash_regions_enumerated:
  assumes "table_ok t []" and "rs \<noteq> []" and "length rs \<le> 15" and "regions_ok rs"
  shows "\<exists>t'. configure_all rs t = (Inr (), t') \<and> flash_list (Suc (length rs)) t' 0xffffffff = rs"
proof -
  have "\<forall>r \<in> set rs. snd r \<noteq> 0xffffffff"
    using assms(4) unfolding regions_ok_def by (metis in_set_conv_nth)
  then obtain t' where t': "configure_all rs t = (Inr (), t')" "table_ok t' rs"
    using configure_all_ok [OF assms(1), of rs] assms(3) by auto
  have "flash_list (Suc (length rs)) t' 0xffffffff = rs"
  proof (cases rs)
    case Nil
    then show ?thesis
      using assms(2) by simp
  next
    case (Cons r qs)
    have "fst (rs ! 0) \<noteq> 0xffffffff"
      using assms(4) Cons max_u32 by (auto simp: regions_ok_def)
    then have "target_flash_next t' 0xffffffff = Some (rs ! 0)"
      using t'(2) Cons by (simp add: target_flash_next_def table_ok_def)
    moreover have "flash_list (length rs) t' (fst (rs ! 0)) = drop 1 rs"
      using flash_list_from [OF t'(2) assms(4), of 0 "length rs"] Cons by simp
    ultimately show ?thesis
      using Cons by (cases r) simp
  qed
  then show ?thesis
    using t'(1) by blast
qed

theorem flash_regions_enumerated_witness:
  "\<exists>t'. configure_all [(0x1FC00000, 0x1FDFFFFF), (0, 0xFFFFFF)] (sim_target (ram (\<lambda>_. 0))) =
      (Inr (), t') \<and>
    flash_list 3 t' 0xffffffff = [(0x1FC00000, 0x1FDFFFFF), (0, 0xFFFFFF)]"
proof -
  have "table_ok (sim_target (ram (\<lambda>_. 0))) []"
    by (simp add: table_ok_def sim_target_def new_target_def)
  then show ?thesis
    using flash_regions_enumerated [of "sim_target (ram (\<lambda>_. 0))" "[(0x1FC00000, 0x1FDFFFFF), (0, 0xFFFFFF)]"]
    by (simp add: regions_ok_def less_Suc_eq numeral_3_eq_3)
qed

text \<open>
  Also: with no region configured the iteration is meant to stop at
  once. In the table that \<open>target_open\<close> leaves, only entry 0 holds the end mark and the others
  are zero, so the first call gives the region 0 to 0, and from there every call gives it
  again: the loop over the regions never ends.
\<close>

theorem empty_table_never_ends:
  "flash_list k (new_target a w) 0xffffffff = replicate k (0, 0)"
proof -
  have step: "flash_list k (new_target a w) 0 = replicate k (0, 0)" for k
    by (induction k) (simp_all add: target_flash_next_def new_target_def upt_conv_Cons)
  then show ?thesis
    by (cases k) (simp_all add: target_flash_next_def new_target_def upt_conv_Cons)
qed

section \<open>Rewriting a byte\<close>

definition byte_of :: "nat \<Rightarrow> u32 \<Rightarrow> u32" where
  "byte_of k w = drop_bit (8 * k) w AND 0xff"

lemma first_bad_byte_result:
  "\<exists>k \<le> n. first_bad_byte n diff e a = (a + of_nat k, drop_bit (8 * k) e) \<and>
     (\<forall>j < k. byte_of j diff = 0) \<and> (k < n \<longrightarrow> drop_bit (8 * k) diff = 0 \<or> byte_of k diff \<noteq> 0)"
proof (induction n arbitrary: diff e a)
  case (Suc n)
  show ?case
  proof (cases "diff \<noteq> 0 \<and> diff AND 0xFF = 0")
    case True
    obtain k where k: "k \<le> n"
        "first_bad_byte n (drop_bit 8 diff) (drop_bit 8 e) (a + 1) =
          (a + 1 + of_nat k, drop_bit (8 * k) (drop_bit 8 e))"
        "\<forall>j < k. byte_of j (drop_bit 8 diff) = 0"
        "k < n \<longrightarrow> drop_bit (8 * k) (drop_bit 8 diff) = 0 \<or> byte_of k (drop_bit 8 diff) \<noteq> 0"
      using Suc [of "drop_bit 8 diff" "drop_bit 8 e" "a + 1"] by blast
    have shift: "byte_of j (drop_bit 8 diff) = byte_of (Suc j) diff" for j
      by (simp add: byte_of_def add.commute)
    have "\<forall>j < Suc k. byte_of j diff = 0"
      using k(3) True shift by (auto simp: less_Suc_eq_0_disj) (simp add: byte_of_def)
    then show ?thesis
      using k True shift by (intro exI [of _ "Suc k"]) (simp add: add.commute)
  next
    case False
    then show ?thesis
      by (intro exI [of _ 0]) (auto simp: byte_of_def)
  qed
qed simp

lemma bytes_zero:
  fixes d :: u32
  assumes "\<forall>j < k. byte_of j d = 0" and "drop_bit (8 * k) d = 0"
  shows "d = 0"
proof (rule bit_word_eqI)
  fix n
  assume "n < LENGTH(32)"
  show "bit d n = bit (0 :: u32) n"
  proof (cases "n < 8 * k")
    case True
    have m: "(0xff :: u32) = mask 8"
      by (simp add: mask_eq_exp_minus_1)
    have "n div 8 < k" and n: "8 * (n div 8) + n mod 8 = n"
      and "n mod 8 < 8"
      using True by simp_all
    then have "\<not> bit (byte_of (n div 8) d) (n mod 8)"
      using assms(1) by simp
    then show ?thesis
      using n \<open>n < LENGTH(32)\<close> \<open>n mod 8 < 8\<close> unfolding byte_of_def m
      by (simp add: bit_simps)
  next
    case False
    have "\<not> bit (drop_bit (8 * k) d) (n - 8 * k)"
      using assms(2) by simp
    then show ?thesis
      using False by (simp add: bit_simps)
  qed
qed

lemma first_bad_byte_differs:
  assumes "bad \<noteq> e"
  shows "\<exists>k < 4. first_bad_byte 4 (bad XOR e) e a = (a + of_nat k, drop_bit (8 * k) e) \<and>
    byte_of k bad \<noteq> byte_of k e \<and> (\<forall>j < k. byte_of j bad = byte_of j e)"
proof -
  let ?d = "bad XOR e"
  have d0: "?d \<noteq> 0"
    using assms by simp
  have split: "byte_of j ?d = 0 \<longleftrightarrow> byte_of j bad = byte_of j e" for j
  proof -
    have "byte_of j ?d = byte_of j bad XOR byte_of j e"
      unfolding byte_of_def by (rule bit_word_eqI) (auto simp: bit_simps)
    then show ?thesis
      by simp
  qed
  obtain k where k: "k \<le> 4" "first_bad_byte 4 ?d e a = (a + of_nat k, drop_bit (8 * k) e)"
      "\<forall>j < k. byte_of j ?d = 0" "k < 4 \<longrightarrow> drop_bit (8 * k) ?d = 0 \<or> byte_of k ?d \<noteq> 0"
    using first_bad_byte_result [of 4 ?d e a] by blast
  have "drop_bit (8 * k) ?d \<noteq> 0"
    using bytes_zero k(3) d0 by blast
  moreover have "k < 4"
  proof (rule ccontr)
    assume "\<not> k < 4"
    then have "drop_bit (8 * k) ?d = 0"
      using k(1) by (intro bit_word_eqI) (simp add: bit_simps)
    then show False
      using \<open>drop_bit (8 * k) ?d \<noteq> 0\<close> by simp
  qed
  ultimately show ?thesis
    using k split by auto
qed

text \<open>
  Also: on a byte-wide chip a word that verified wrong is repaired by
  programming one byte: the lowest one in which the word read differs from the expected word,
  at its own address, with the expected value, behind the unlock sequence.
\<close>

theorem flash_rewrite_byte:
  assumes "good rd view t" and "bus_ops rd view (t_adapter t)" and "flash_width t = 8"
    and "compute_base_loop t (phys_of addr) [0..<NFLASH] = Some base" and "bad \<noteq> expected"
  shows "\<exists>k < 4. \<exists>t'. target_flash_rewrite addr bad expected t = (Inr True, t') \<and>
    byte_of k bad \<noteq> byte_of k expected \<and> (\<forall>j < k. byte_of j bad = byte_of j expected) \<and>
    bus_hist view t' = bus_hist view t @ bw_all
      [(MC_CSCON3, cscon3 t OR MC_CSCON3_ADDR (base + flash_addr_odd t)),
       (base + flash_addr_odd t, flash_cmd_aa t),
       (MC_CSCON3, cscon3 t OR MC_CSCON3_ADDR (base + flash_addr_even t)),
       (base + flash_addr_even t, flash_cmd_55 t),
       (MC_CSCON3, cscon3 t OR MC_CSCON3_ADDR (base + flash_addr_odd t)),
       (base + flash_addr_odd t, flash_cmd_a0 t),
       (MC_CSCON3, cscon3 t OR MC_CSCON3_ADDR (phys_of addr + of_nat k)),
       (phys_of addr + of_nat k, byte_of k expected)]"
proof -
  let ?odd = "base + flash_addr_odd t" and ?even = "base + flash_addr_even t"
  obtain k where k: "k < 4"
      "first_bad_byte 4 (bad XOR expected) expected (phys_of addr) =
        (phys_of addr + of_nat k, drop_bit (8 * k) expected)"
      "byte_of k bad \<noteq> byte_of k expected" "\<forall>j < k. byte_of j bad = byte_of j expected"
    using first_bad_byte_differs [OF assms(5)] by blast
  let ?a = "phys_of addr + of_nat k" and ?e = "byte_of k expected"
  let ?m = "seqM (target_write_2bytes ?odd (flash_cmd_aa t) ?even (flash_cmd_55 t))
    (target_write_2bytes ?odd (flash_cmd_a0 t) ?a ?e)"
  let ?args = "\<lambda>x d. [(MC_CSCON3, cscon3 t OR MC_CSCON3_ADDR x), (x, d)]"
  have byte: "bus_write_byte (cscon3 t) x d = bus_writes (?args x d)" for x d
    by (simp add: bus_write_byte_def)
  have "does rd view t ?m (bus_writes (?args ?odd (flash_cmd_aa t) @ ?args ?even (flash_cmd_55 t) @
      ?args ?odd (flash_cmd_a0 t) @ ?args ?a ?e))"
    using does_seqM [OF does_write_2bytes [OF assms(2), of ?odd "flash_cmd_aa t" ?even "flash_cmd_55 t"]
        does_write_2bytes [OF assms(2), of ?odd "flash_cmd_a0 t" ?a ?e]]
    by (simp add: byte seqM_assoc)
  from does_writes_run [OF this assms(1)] obtain t' where t': "?m t = (Inr (), t')"
      "bus_hist view t' = bus_hist view t @ bw_all (?args ?odd (flash_cmd_aa t) @
        ?args ?even (flash_cmd_55 t) @ ?args ?odd (flash_cmd_a0 t) @ ?args ?a ?e)"
    by blast
  have "target_flash_rewrite addr bad expected t = seqM ?m (retM True) t"
    using assms(3,4) k(2)
    by (simp add: target_flash_rewrite_def compute_base_def bindM_apply retM_apply byte_of_def Let_def)
  then have "target_flash_rewrite addr bad expected t = (Inr True, t')"
    using t'(1) by (simp only: seqM_apply retM_apply prod.case sum.case)
  then show ?thesis
    using k t'(2) by auto
qed

section \<open>A page count that is not a whole number of pages\<close>

lemma seqM_never: "(\<And>s. fst (m s) \<noteq> Inr x) \<Longrightarrow> fst (seqM n m s) \<noteq> Inr x"
  by (auto simp: seqM_apply split: prod.splits sum.splits)

lemma minus_page: "uint (nwords - 128 :: u32) mod 128 = uint nwords mod 128"
proof -
  have "uint (nwords - 128) = (uint nwords - 128) mod 2 ^ 32"
    by (simp add: uint_word_ariths)
  then have "uint (nwords - 128) mod 128 = (uint nwords - 128) mod 128"
    by (simp add: mod_mod_cancel)
  then show ?thesis
    by simp
qed

lemma atmel_loop_partial:
  "uint nwords mod 128 \<noteq> 0 \<Longrightarrow> fst (atmel_loop k t base addr nwords data s) \<noteq> Inr ()"
proof (induction k arbitrary: addr nwords data s)
  case (Suc k)
  have "fst (atmel_loop k t base (addr + 128 * 4) (nwords - 128) (drop 128 data) s) \<noteq> Inr ()" for s
    using Suc minus_page by simp
  moreover have "nwords \<noteq> 0"
    using Suc(2) by auto
  ultimately show ?case
    by (simp add: seqM_never)
qed (simp add: failM_apply)

text \<open>
  Also: an Atmel chip is programmed in pages of 128 words by
  counting the words down to zero in steps of 128. When the number of words is not a multiple
  of 128 and the adapter has no function of its own, the unsigned count passes zero and the
  loop goes on over memory behind the caller's data: the call never returns.
\<close>

theorem atmel_partial_page_never_done:
  assumes "a_program_block32_protect (t_adapter t) = None" and "n mod 128 \<noteq> 0" and "n < 2 ^ 32"
  shows "fst (target_program_block32_atmel addr base n data t) \<noteq> Inr ()"
proof -
  have "uint (of_nat n :: u32) = int n"
    using assms(3) by (simp add: unsigned_of_nat take_bit_nat_eq_self)
  moreover have "int n mod 128 = int (n mod 128)"
    by (simp add: zmod_int)
  ultimately have "uint (of_nat n :: u32) mod 128 \<noteq> 0"
    using assms(2) by simp
  from atmel_loop_partial [OF this]
  have "fst (atmel_loop (length data div 128 + 2) t base addr (of_nat n) data t) \<noteq> Inr ()"
    .
  moreover have "target_program_block32_atmel addr base n data t =
      atmel_loop (length data div 128 + 2) t base addr (of_nat n) data t"
    using assms(1)
    by (simp add: target_program_block32_atmel_def bindM_apply del: atmel_loop.simps add_2_eq_Suc')
  ultimately show ?thesis
    by simp
qed

theorem atmel_partial_page_never_done_witness:
  "fst (target_program_block32_atmel 0 0 100 (replicate 100 0) (sim_target (ram (\<lambda>_. 0)))) \<noteq> Inr ()"
  by (rule atmel_partial_page_never_done) simp_all

theorem flash_rewrite_byte_witness:
  "\<exists>k < 4. \<exists>t'. target_flash_rewrite 0x1FC00010 0x11223344 0x1122AA44
      ((set_mode 3 (sim_target (ram (\<lambda>_. 0))))
        \<lparr>flash_base := (\<lambda>_. 0x1FC00000), flash_last := (\<lambda>_. 0x1FDFFFFF)\<rparr>) = (Inr True, t') \<and>
    byte_of k 0x11223344 \<noteq> byte_of k 0x1122AA44"
proof -
  let ?t = "(set_mode 3 (sim_target (ram (\<lambda>_. 0))))
    \<lparr>flash_base := (\<lambda>_. 0x1FC00000), flash_last := (\<lambda>_. 0x1FDFFFFF)\<rparr>"
  have f: "t_adapter ?t = sim_adapter (ram (\<lambda>_. 0))" "aw ?t = sim_world" "flash_width ?t = 8"
    by (simp_all add: set_mode_def set_cmds8_def)
  have "compute_base_loop ?t (phys_of 0x1FC00010) [0..<NFLASH] = Some 0x1FC00000"
    by (simp add: phys_of_def upt_conv_Cons)
  then show ?thesis
    using flash_rewrite_byte [of "ram (\<lambda>_. 0)" "\<lambda>c. c" ?t "0x1FC00010" "0x1FC00000" "0x11223344"
        "0x1122AA44"] sim_good [OF f(1,2)] f sim_bus_ops by fastforce
qed

end
