(* ===== verification/Target_Props.thy ===== *)
theory Target_Props
  imports Flash_Props
begin

text \<open>
  What the rest of target.c guarantees: no memory access changes anything but the device; the
  chip found by detection is the one in the table; the register cache; the two states of the
  processor under every sequence of run commands; and the two breakpoint slots as a list.
\<close>

section \<open>Memory access changes only the device\<close>

lemma frame_on_adapter [frame_intros]: "(\<And>t w. f (t\<lparr>aw := w\<rparr>) = f t) \<Longrightarrow> frame f (on_adapter g)"
  by (simp add: frame_def on_adapter_def split: prod.splits)

lemma frame_oncd [frame_intros]:
  "(\<And>t w. f (t\<lparr>aw := w\<rparr>) = f t) \<Longrightarrow> frame f (oncd_write v r n)"
  "(\<And>t w. f (t\<lparr>aw := w\<rparr>) = f t) \<Longrightarrow> frame f (oncd_read r n)"
  "(\<And>t w. f (t\<lparr>aw := w\<rparr>) = f t) \<Longrightarrow> frame f get_oscr"
  "(\<And>t w. f (t\<lparr>aw := w\<rparr>) = f t) \<Longrightarrow> frame f (set_oscr v)"
  "(\<And>t w. f (t\<lparr>aw := w\<rparr>) = f t) \<Longrightarrow> frame f (upd_oscr g)"
  "(\<And>t w. f (t\<lparr>aw := w\<rparr>) = f t) \<Longrightarrow> frame f send_oscr"
  by (simp_all add: oncd_write_def oncd_read_def get_oscr_def set_oscr_def upd_oscr_def send_oscr_def
      frame_intros)

lemma frame_wait_rdym [frame_intros]:
  "(\<And>t w. f (t\<lparr>aw := w\<rparr>) = f t) \<Longrightarrow> frame f (wait_rdym n)"
  by (induction n) (auto intro!: frame_intros)

lemma frame_write_next [frame_intros]:
  "(\<And>t w. f (t\<lparr>aw := w\<rparr>) = f t) \<Longrightarrow> frame f (target_write_next a d)"
  unfolding target_write_next_def by (intro frame_intros)

lemma frame_write_word [frame_intros]:
  "(\<And>t w. f (t\<lparr>aw := w\<rparr>) = f t) \<Longrightarrow> frame f (target_write_word a d)"
  unfolding target_write_word_def Let_def by (intro frame_intros)

lemma frame_read_word [frame_intros]:
  "(\<And>t w. f (t\<lparr>aw := w\<rparr>) = f t) \<Longrightarrow> frame f (target_read_word a)"
  unfolding target_read_word_def target_read_start_def target_read_next_def Let_def
  by (intro frame_intros)

lemma frame_map_pairs:
  "(\<And>a d. frame f (g a d)) \<Longrightarrow> frame f (seqsM (map (\<lambda>(a, d). g a d) args))"
  by (induction args) (auto intro!: frame_intros)

lemma frame_write_nwords [frame_intros]:
  "(\<And>t w. f (t\<lparr>aw := w\<rparr>) = f t) \<Longrightarrow> frame f (target_write_nwords args)"
  unfolding target_write_nwords_def write_pairs_def
  by (auto intro!: frame_intros frame_map_pairs split: list.split)

lemma frame_write_byte [frame_intros]:
  "(\<And>t w. f (t\<lparr>aw := w\<rparr>) = f t) \<Longrightarrow> frame f (target_write_byte a d)"
  unfolding target_write_byte_def by (intro frame_intros)

lemma frame_write_many [frame_intros]:
  "(\<And>t w. f (t\<lparr>aw := w\<rparr>) = f t) \<Longrightarrow> frame f (write_bytes args)"
  "(\<And>t w. f (t\<lparr>aw := w\<rparr>) = f t) \<Longrightarrow> frame f (write_words args)"
  unfolding write_bytes_def write_words_def by (auto intro!: frame_map_pairs frame_intros)

lemma frame_read_ids [frame_intros]:
  "(\<And>t w. f (t\<lparr>aw := w\<rparr>) = f t) \<Longrightarrow> frame f (read_ids m base)"
  unfolding read_ids_def by (intro frame_intros)

section \<open>Detection\<close>

text \<open>What a successful detection leaves in the target and reports.\<close>

definition detected_ok :: "'w target \<Rightarrow> detected \<Rightarrow> bool" where
  "detected_ok t dt \<longleftrightarrow>
     (\<exists>bytes sector micron.
        chip_of (dt_dev dt) (flash_width t) (chip_width t) = Some (dt_chipname dt, bytes, sector, micron) \<and>
        flash_bytes t = of_nat bytes \<and> sector_size t = of_nat sector \<and>
        (micron \<longrightarrow> micron_com_set t)) \<and>
     dt_bytes dt = flash_bytes t \<and> dt_width dt = flash_width t \<and>
     dt_mfname dt = mfr_of (dt_mf dt) (dt_dev dt) (flash_width t) \<and>
     (flash_width t, chip_width t) \<in> {(32, 16), (64, 16), (32, 8), (8, 8)}"

lemma set_mode_widths: "(flash_width (set_mode m t), chip_width (set_mode m t)) \<in> {(32, 16), (64, 16), (32, 8), (8, 8)}"
  by (simp add: set_mode_def set_cmds16_def set_cmds8_def)

lemma frame_same:
  assumes "\<And>f :: 'w target \<Rightarrow> nat. (\<And>t w. f (t\<lparr>aw := w\<rparr>) = f t) \<Longrightarrow> frame f m"
    and "m t = (r, t')"
  shows "flash_width t' = flash_width t \<and> chip_width t' = chip_width t"
  using frameD [OF assms(1) assms(2), of flash_width] frameD [OF assms(1) assms(2), of chip_width]
  by simp

lemma detect_success_ok:
  assumes "detect_success base mf d name t = (Inr (Some dt), t')"
    and "chip_of d (flash_width t) (chip_width t) = Some (name, bytes, sector, micron)"
    and "flash_bytes t = of_nat bytes" and "sector_size t = of_nat sector"
    and "micron \<longrightarrow> micron_com_set t"
    and "(flash_width t, chip_width t) \<in> {(32, 16), (64, 16), (32, 8), (8, 8)}"
  shows "detected_ok t' dt"
proof -
  let ?m = "whenM (micron_com_set t) (target_write_word base 0xFFFFFFFF)"
  obtain u where m: "?m t = (Inr u, t')"
      and dt: "dt = \<lparr>dt_mf = mf, dt_dev = d, dt_mfname = mfr_of mf d (flash_width t),
        dt_chipname = name, dt_bytes = flash_bytes t, dt_width = flash_width t\<rparr>"
    using assms(1) by (auto simp: detect_success_def bindM_apply seqM_apply retM_apply
        split: prod.splits sum.splits)
  have keep: "frame f ?m" if "\<And>t w. f (t\<lparr>aw := w\<rparr>) = f t" for f :: "'a target \<Rightarrow> 'b"
    using that by (intro frame_intros)
  have "flash_width t' = flash_width t" "chip_width t' = chip_width t" "flash_bytes t' = flash_bytes t"
      "sector_size t' = sector_size t" "micron_com_set t' = micron_com_set t"
    by (rule frameD [OF keep m], simp)+
  then show ?thesis
    using assms(2-6) by (simp add: detected_ok_def dt)
qed

lemma detect_loop_ok:
  "detect_loop base n count t = (Inr (Some dt), t') \<Longrightarrow> detected_ok t' dt"
proof (induction n arbitrary: count t)
  case (Suc n)
  let ?t0 = "set_mode (count mod 6) t"
  obtain mf d t1 where ids: "read_ids (count mod 6) base ?t0 = (Inr (mf, d), t1)"
      and rest: "(case chip_of d (flash_width t1) (chip_width t1) of
         None \<Rightarrow> detect_loop base n (Suc count)
       | Some (name, bytes, sector, micron) \<Rightarrow>
           seqM (modM (keep_chip bytes sector micron)) (detect_success base mf d name)) t1 =
        (Inr (Some dt), t')"
    using Suc(2) by (auto simp: act_simps split: prod.splits sum.splits)
  have keep: "frame f (read_ids (count mod 6) base)" if "\<And>t w. f (t\<lparr>aw := w\<rparr>) = f t"
    for f :: "'a target \<Rightarrow> nat"
    using that by (intro frame_intros)
  have w: "flash_width t1 = flash_width ?t0" "chip_width t1 = chip_width ?t0"
    by (rule frameD [OF keep ids], simp)+
  show ?case
  proof (cases "chip_of d (flash_width t1) (chip_width t1)")
    case None
    then show ?thesis
      using rest Suc(1) by simp
  next
    case (Some c)
    obtain name bytes sector micron where c: "c = (name, bytes, sector, micron)"
      by (metis prod_cases4)
    have ds: "detect_success base mf d name (keep_chip bytes sector micron t1) = (Inr (Some dt), t')"
      using rest Some c by (simp add: seqM_apply)
    have "(flash_width t1, chip_width t1) \<in> {(32, 16), (64, 16), (32, 8), (8, 8)}"
      using w set_mode_widths [of "count mod 6" t] by simp
    then show ?thesis
      using Some c by (intro detect_success_ok [OF ds]; simp add: keep_chip_def; blast?)
  qed
qed (simp add: retM_apply)

section \<open>The register cache\<close>

definition reg_known :: "nat \<Rightarrow> 'w target \<Rightarrow> bool" where
  "reg_known r t \<longleftrightarrow>
     (if r \<le> 31 then valid t r else if r = 32 then valid_cp0 t CP0_STATUS
      else if r = 33 then valid_lo t else if r = 34 then valid_hi t
      else if r = 35 then valid_cp0 t CP0_BADVADDR else if r = 36 then valid_cp0 t CP0_CAUSE
      else if r = 37 then True else if r \<le> 69 then valid_fpu t (r - 38)
      else if r = 70 then valid_fcsr t else if r = 71 then valid_fir t else True)"

lemma cached_known: "is_valid t \<Longrightarrow> cached is_valid val fetch keep t = (Inr (val t), t)"
  by (simp add: cached_def act_simps)

lemma cached_run:
  "\<not> is_valid t \<Longrightarrow> cached is_valid val fetch keep t =
   (case fetch t of (Inl e, t') \<Rightarrow> (Inl e, t') | (Inr x, t') \<Rightarrow> (Inr (val (keep x t')), keep x t'))"
  by (simp add: cached_def act_simps split: prod.splits sum.splits)

lemma read_known:
  assumes "reg_known r t"
  shows "\<exists>x. target_read_register r t = (Inr x, t)"
  using assms
  by (auto simp: target_read_register_def reg_known_def cached_known read_cached_cp0_def retM_apply
      split: if_splits)

text \<open>A register that was read is known, with the value that was read.\<close>

lemma cached_then:
  assumes "cached is_valid val fetch keep t = (Inr x, t')"
    and "\<And>y s. is_valid (keep y s) \<and> val (keep y s) = y"
  shows "is_valid t' \<and> val t' = x"
  using assms by (cases "is_valid t") (auto simp: cached_known cached_run split: prod.splits sum.splits)

lemma reg_cases:
  fixes r :: nat
  obtains "r \<le> 31" | "r = 32" | "r = 33" | "r = 34" | "r = 35" | "r = 36" | "r = 37"
    | "38 \<le> r" "r \<le> 69" | "r = 70" | "r = 71" | "r > 71"
proof -
  have "r \<le> 31 \<or> r = 32 \<or> r = 33 \<or> r = 34 \<or> r = 35 \<or> r = 36 \<or> r = 37 \<or> (38 \<le> r \<and> r \<le> 69) \<or>
      r = 70 \<or> r = 71 \<or> r > 71"
    by presburger
  then show thesis
    using that by blast
qed

lemma seqM_modM_run: "seqM m (modM g) t = (Inr (), t') \<Longrightarrow> \<exists>s. t' = g s"
  by (auto simp: act_simps split: prod.splits sum.splits)

lemma frame_target_exec [frame_intros]:
  "(\<And>t w. f (t\<lparr>aw := w\<rparr>) = f t) \<Longrightarrow> frame f (target_exec i)"
  unfolding target_exec_def by (auto intro!: frame_intros)

lemma frame_seqs_Cons [frame_intros]:
  "frame f m \<Longrightarrow> frame f (seqsM ms) \<Longrightarrow> frame f (seqsM (m # ms))"
  by (simp add: frame_intros)

lemma frame_seqs_Nil [frame_intros]: "frame f (seqsM [])"
  by (simp add: frame_intros)

lemma frame_regf [frame_intros]:
  "(\<And>t w. f (t\<lparr>aw := w\<rparr>) = f t) \<Longrightarrow> frame f (regf_read g n)"
  "(\<And>t w. f (t\<lparr>aw := w\<rparr>) = f t) \<Longrightarrow> frame f (regf_write g n v)"
  unfolding regf_read_def regf_write_def Let_def by (intro frame_intros; simp)+

lemma frame_reg_access [frame_intros]:
  "(\<And>t w. f (t\<lparr>aw := w\<rparr>) = f t) \<Longrightarrow> frame f (target_read_reg n)"
  "(\<And>t w. f (t\<lparr>aw := w\<rparr>) = f t) \<Longrightarrow> frame f (target_write_reg n v)"
  unfolding target_read_reg_def target_write_reg_def by (intro frame_intros; simp)+

lemma keeps_flush_stage: "frame idcode flush_stage"
  unfolding flush_stage_def by (intro frame_intros; simp)

lemma frame_save_pipeline: "frame idcode save_pipeline"
  unfolding save_pipeline_def by (intro frame_intros; simp)

lemma frame_idcode_save:
  "frame idcode (bindM (getM pc_exec) (\<lambda>pc. whenM (pc \<noteq> 0) (seqsM [flush_stage, flush_stage, flush_stage])))"
  by (intro frame_intros keeps_flush_stage)

lemma seqM_split:
  assumes "seqM m n t = (Inr y, t')"
  obtains x t1 where "m t = (Inr x, t1)" "n t1 = (Inr y, t')"
  using assms by (auto simp: seqM_apply split: prod.splits sum.splits)

section \<open>Properties: detection and registers\<close>

text \<open>
  C32: when detection reports a chip, the name, size and sector size that
  it leaves in the target are those of the chip table for the device code read, on one of the
  four bus organisations; the size and width returned to the caller are the ones kept, and the
  manufacturer's name belongs to the codes read.
\<close>

theorem detection_from_table:
  assumes "target_flash_detect addr t = (Inr (Some dt), t')"
  shows "detected_ok t' dt"
  using assms
  by (auto simp: target_flash_detect_def compute_base_def act_simps intro: detect_loop_ok
      split: prod.splits sum.splits option.splits)

text \<open>
  C29: a register that was written reads back with the value written, from
  the cache: reading it does not touch the processor. BADVADDR and FIR cannot be written; the
  PC cannot be set to the mark for no exception.
\<close>

theorem register_read_back:
  assumes "target_write_register r v t = (Inr (), t')" and "r \<le> 70" and "r \<noteq> 35"
    and "r = 37 \<longrightarrow> v \<noteq> NO_EXCEPTION"
  shows "target_read_register r t' = (Inr v, t')"
proof -
  note defs = target_write_register_def target_read_register_def read_cached_cp0_def keep_reg_def
    keep_cp0_def keep_fpu_def
  show ?thesis
    using assms by (cases rule: reg_cases [of r]) (auto simp: defs cached_known dest!: seqM_modM_run)
qed

text \<open>
  Also: reading a register twice gives the same value, and the second read
  changes nothing.
\<close>

theorem register_read_stable:
  assumes "target_read_register r t = (Inr v, t')"
  shows "target_read_register r t' = (Inr v, t')"
proof -
  note defs = target_read_register_def read_cached_cp0_def keep_reg_def keep_cp0_def keep_fpu_def
  show ?thesis
    using assms
    by (cases rule: reg_cases [of r])
      (auto simp: defs retM_apply cached_known dest!: cached_then)
qed

text \<open>
  Also: after the processor was stopped again no register value of
  the time before is used: every register but the PC is unknown, so that the next read fetches
  it. (On the MC12 the two scratch registers are saved, and known, at once.)
\<close>

theorem save_state_forgets_registers:
  assumes "target_save_state t = (Inr (), t')" and "idcode t \<noteq> MC12_ID" and "r \<le> 71" and "r \<noteq> 37"
  shows "\<not> reg_known r t'"
proof -
  let ?pre = "seqsM [save_pipeline,
      bindM (getM pc_exec) (\<lambda>pc. whenM (pc \<noteq> 0) (seqsM [flush_stage, flush_stage, flush_stage])),
      upd_oscr (\<lambda>v. v AND NOT OSCR_NFEXP), upd_oscr (\<lambda>v. v OR OSCR_DBM), send_oscr]"
  let ?post = "seqsM [modM invalidate_regs, bindM (getM idcode) (\<lambda>id. whenM (id = MC12_ID) save_mc12)]"
  have "seqM ?pre ?post t = (Inr (), t')"
    using assms(1) unfolding target_save_state_def by (simp add: seqM_assoc)
  then obtain x t1 where pre: "?pre t = (Inr x, t1)" and post: "?post t1 = (Inr (), t')"
    by (rule seqM_split)
  have fr: "frame idcode ?pre"
    by (intro frame_intros frame_save_pipeline keeps_flush_stage) simp_all
  have "idcode t1 = idcode t"
    by (rule frameD [OF fr pre])
  then have "idcode (invalidate_regs t1) \<noteq> MC12_ID"
    using assms(2) by (simp add: invalidate_regs_def)
  then have "t' = invalidate_regs t1"
    using post by (simp add: act_simps)
  then show ?thesis
    using assms(3,4)
    by (cases rule: reg_cases [of r]) (auto simp: reg_known_def invalidate_regs_def)
qed

section \<open>The two states of the processor\<close>

text \<open>The run commands of the layer above, and what each is to do to the state \<open>is_running\<close>.\<close>

datatype run_cmd = Stop | Step | Resume | Restart | Run u32

fun do_cmd :: "run_cmd \<Rightarrow> ('w, unit) tact" where
  "do_cmd Stop = target_stop"
| "do_cmd Step = target_step"
| "do_cmd Resume = target_resume"
| "do_cmd Restart = target_restart"
| "do_cmd (Run a) = target_run a"

fun spec_cmd :: "run_cmd \<Rightarrow> bool \<Rightarrow> bool" where
  "spec_cmd Stop running = False"
| "spec_cmd Step running = running"
| "spec_cmd Resume running = True"
| "spec_cmd Restart running = True"
| "spec_cmd (Run a) running = True"

lemma frame_running_save [frame_intros]: "frame is_running target_save_state"
proof -
  have "frame is_running flush_stage" "frame is_running save_pipeline" "frame is_running save_mc12"
    unfolding flush_stage_def save_pipeline_def save_mc12_def
    by (intro frame_intros; simp add: keep_reg_def)+
  then show ?thesis
    unfolding target_save_state_def by (intro frame_intros; simp add: invalidate_regs_def)
qed

lemma frame_running_restore [frame_intros]: "frame is_running target_restore_state"
  unfolding target_restore_state_def by (intro frame_intros; simp)

lemma frame_running_cpu [frame_intros]: "frame is_running run_cpu"
  unfolding run_cpu_def by (intro frame_intros; simp)

lemma running_after:
  assumes "seqM m (seqM (modM (\<lambda>t. t\<lparr>is_running := b\<rparr>)) n) t = (Inr x, t')" and "frame is_running n"
  shows "is_running t' = b"
proof -
  obtain y t1 where "seqM (modM (\<lambda>t. t\<lparr>is_running := b\<rparr>)) n t1 = (Inr x, t')"
    using assms(1) by (rule seqM_split)
  then show ?thesis
    using frameD [OF assms(2)] by (fastforce simp: seqM_apply)
qed

lemma do_cmd_running:
  assumes "do_cmd c t = (Inr (), t')"
  shows "is_running t' = spec_cmd c (is_running t)"
proof (cases c)
  case Stop
  have fr: "frame is_running (seqsM [target_save_state,
      bindM (target_read_word MC_CSCON3) (\<lambda>v. modM (\<lambda>t. t\<lparr>cscon3 := v AND NOT (MC_CSCON3_ADDR 3)\<rparr>))])"
    by (intro frame_intros; simp)
  show ?thesis
    using assms Stop running_after [OF _ fr]
    by (cases "is_running t") (auto simp: target_stop_def bindM_apply retM_apply)
next
  case Step
  have "frame is_running target_step"
    unfolding target_step_def by (intro frame_intros; simp)
  then show ?thesis
    using assms Step frameD by fastforce
next
  case Resume
  then show ?thesis
    using assms running_after [OF _ frame_running_cpu]
    by (cases "is_running t") (auto simp: target_resume_def bindM_apply retM_apply)
next
  case Restart
  then have "seqM (seqM (bindM (getM is_running) (\<lambda>r. whenM (\<not> r) target_restore_state))
      (on_adapter a_reset_cpu)) (seqM (modM (\<lambda>t. t\<lparr>is_running := True\<rparr>)) (retM ())) t = (Inr (), t')"
    using assms by (simp add: target_restart_def seqM_assoc)
  from running_after [OF this frame_retM] show ?thesis
    using Restart by simp
next
  case (Run a)
  show ?thesis
  proof (cases "is_running t")
    case False
    then have "seqM (seqM (modM (\<lambda>t. t\<lparr>exception := a\<rparr>)) target_restore_state)
        (seqM (modM (\<lambda>t. t\<lparr>is_running := True\<rparr>)) run_cpu) t = (Inr (), t')"
      using assms Run by (simp add: target_run_def bindM_apply seqM_assoc)
    from running_after [OF this frame_running_cpu] show ?thesis
      using Run by simp
  qed (use assms Run in \<open>simp add: target_run_def bindM_apply retM_apply\<close>)
qed

primrec do_cmds :: "run_cmd list \<Rightarrow> ('w, unit) tact" where
  "do_cmds [] = retM ()"
| "do_cmds (c # cs) = seqM (do_cmd c) (do_cmds cs)"


section \<open>Breakpoints\<close>

text \<open>
  The breakpoints that the unit's registers stand for, at most two: the address and the control
  bits, moved to the places of slot 0.
\<close>

definition slot0 :: "chip \<Rightarrow> (u32 \<times> u32) list" where
  "slot0 c = (if obcr c AND OBCR_RW0_RW \<noteq> 0 then [(omlr0 c, obcr c AND 0x3d)] else [])"

definition slot1 :: "chip \<Rightarrow> (u32 \<times> u32) list" where
  "slot1 c = (if obcr c AND OBCR_RW1_RW \<noteq> 0
     then [(omlr1 c, (drop_bit 1 (obcr c) AND 1) OR (drop_bit 4 (obcr c) AND 0x3c))] else [])"

definition breaks :: "chip \<Rightarrow> (u32 \<times> u32) list" where
  "breaks c = slot0 c @ slot1 c"

text \<open>Slot 1 is used only when slot 0 is.\<close>

definition breaks_ok :: "chip \<Rightarrow> bool" where
  "breaks_ok c \<longleftrightarrow> (slot0 c = [] \<longrightarrow> slot1 c = [])"

definition break_kind :: "char \<Rightarrow> bool" where
  "break_kind k \<longleftrightarrow> k \<in> {CHR ''b'', CHR ''r'', CHR ''w'', CHR ''a''}"

text \<open>Removing the first breakpoint at an address.\<close>

fun remove_addr :: "u32 \<Rightarrow> (u32 \<times> u32) list \<Rightarrow> (u32 \<times> u32) list" where
  "remove_addr a [] = []"
| "remove_addr a ((b, k) # bs) = (if a = b then bs else (b, k) # remove_addr a bs)"

lemma word32_eqI: "(\<forall>n \<in> set [0..<32]. bit a n = bit b n) \<Longrightarrow> a = (b :: u32)"
  by (rule bit_word_eqI) simp

lemma bit_twice [simp]: "bit (w * 2 :: u32) (Suc 0) = bit w 0"
  using bit_double_iff [of w 1] by (simp add: mult.commute)

lemma move_up:
  fixes o' :: u32
  defines "n \<equiv> (push_bit 1 o' AND 2) OR (push_bit 4 o' AND 0x3c0)"
  shows "n AND 0x43d = 0" and "n AND 0xfff = n" and "n AND 0xc0 = push_bit 4 (o' AND 0xc)"
    and "(drop_bit 1 n AND 1) OR (drop_bit 4 n AND 0x3c) = o' AND 0x3d"
  unfolding n_def by (rule word32_eqI; simp add: upt_rec bit_simps)+

lemma move_down:
  fixes o' :: u32
  defines "n \<equiv> (drop_bit 1 o' AND 1) OR (drop_bit 4 o' AND 0x3c)"
  shows "n AND 0x3d = n" and "n AND 0xfff = n" and "n AND 0xc = drop_bit 4 (o' AND 0xc0)"
    and "n AND 0xc0 = 0"
  unfolding n_def by (rule word32_eqI; simp add: upt_rec bit_simps)+

lemma kind_bits:
  assumes "break_kind k"
  shows "break_bits k AND 0x3d = break_bits k" and "break_bits k AND 0xfff = break_bits k"
    and "break_bits k AND 0xc \<noteq> 0" and "break_bits k AND 0xc0 = 0"
    and "drop_bit 1 (break_bits k) AND 1 = 0" and "drop_bit 4 (break_bits k) AND 0x3c = 0"
proof -
  have "\<forall>k \<in> {CHR ''b'', CHR ''r'', CHR ''w'', CHR ''a''}.
      break_bits k AND 0x3d = break_bits k \<and> break_bits k AND 0xfff = break_bits k \<and>
      break_bits k AND 0xc \<noteq> 0 \<and> break_bits k AND 0xc0 = 0 \<and>
      drop_bit 1 (break_bits k) AND 1 = 0 \<and> drop_bit 4 (break_bits k) AND 0x3c = 0"
    by (simp add: break_bits_def)
  then show "break_bits k AND 0x3d = break_bits k" and "break_bits k AND 0xfff = break_bits k"
    and "break_bits k AND 0xc \<noteq> 0" and "break_bits k AND 0xc0 = 0"
    and "drop_bit 1 (break_bits k) AND 1 = 0" and "drop_bit 4 (break_bits k) AND 0x3c = 0"
    using assms unfolding break_kind_def by blast+
qed

lemma and_0_part: "(x :: u32) AND m = 0 \<Longrightarrow> j AND m = j \<Longrightarrow> x AND j = 0"
proof -
  assume x: "x AND m = 0" and j: "j AND m = j"
  have "x AND j = x AND (j AND m)"
    by (simp add: j)
  also have "\<dots> = (x AND m) AND j"
    by (simp only: ac_simps)
  finally show ?thesis
    by (simp add: x)
qed

text \<open>The new control word after adding a breakpoint, in both cases.\<close>

lemma add_bits_second:
  fixes o' :: u32
  assumes "break_kind k"
  defines "n \<equiv> ((push_bit 1 o' AND 2) OR (push_bit 4 o' AND 0x3c0)) OR break_bits k"
  shows "(n AND 0xfff) AND 0xc = break_bits k AND 0xc" and "(n AND 0xfff) AND 0x3d = break_bits k"
    and "(n AND 0xfff) AND 0xc0 = push_bit 4 (o' AND 0xc)"
    and "(drop_bit 1 (n AND 0xfff) AND 1) OR (drop_bit 4 (n AND 0xfff) AND 0x3c) = o' AND 0x3d"
    and "(n AND 0xfff) AND 0x400 = 0"
proof -
  let ?u = "(push_bit 1 o' AND 2) OR (push_bit 4 o' AND 0x3c0)"
  note u = move_up [of o']
  have parts: "?u AND 0xc = 0" "?u AND 0x3d = 0" "?u AND 0x400 = 0"
    by (rule and_0_part [OF u(1)], simp)+
  have n: "n AND 0xfff = ?u OR break_bits k"
    unfolding n_def using u(2) kind_bits(2) [OF assms(1)] by (simp only: bit.conj_disj_distrib2)
  have k4: "break_bits k AND 0x400 = 0"
    using assms(1) by (auto simp: break_kind_def break_bits_def)
  show "(n AND 0xfff) AND 0xc = break_bits k AND 0xc"
    unfolding n using parts by (simp only: bit.conj_disj_distrib2 or.left_neutral)
  show "(n AND 0xfff) AND 0x3d = break_bits k"
    unfolding n using parts kind_bits(1) [OF assms(1)]
    by (simp only: bit.conj_disj_distrib2 or.left_neutral)
  show "(n AND 0xfff) AND 0xc0 = push_bit 4 (o' AND 0xc)"
    unfolding n using u(3) kind_bits(4) [OF assms(1)]
    by (simp only: bit.conj_disj_distrib2 or.right_neutral)
  show "(n AND 0xfff) AND 0x400 = 0"
    unfolding n using parts(3) k4 by (simp only: bit.conj_disj_distrib2 or.right_neutral)
  have "drop_bit 1 (?u OR break_bits k) AND 1 = drop_bit 1 ?u AND 1"
    "drop_bit 4 (?u OR break_bits k) AND 0x3c = drop_bit 4 ?u AND 0x3c"
    using kind_bits(5,6) [OF assms(1)]
    by (simp_all only: drop_bit_or bit.conj_disj_distrib2 or.right_neutral)
  then show "(drop_bit 1 (n AND 0xfff) AND 1) OR (drop_bit 4 (n AND 0xfff) AND 0x3c) = o' AND 0x3d"
    unfolding n using u(4) by simp
qed

lemma add_bits_first:
  assumes "break_kind k"
  shows "((0x400 OR break_bits k) AND 0xfff) AND 0xc = break_bits k AND 0xc"
    and "((0x400 OR break_bits k) AND 0xfff) AND 0x3d = break_bits k"
    and "((0x400 OR break_bits k) AND 0xfff) AND 0xc0 = 0"
  using assms by (auto simp: break_kind_def break_bits_def)

lemma push_nonzero: "(w :: u32) AND 0xc \<noteq> 0 \<longleftrightarrow> push_bit 4 (w AND 0xc) \<noteq> 0"
proof -
  have "drop_bit 4 (push_bit 4 (w AND 0xc)) = w AND 0xc"
    by (rule word32_eqI) (simp add: upt_rec bit_simps)
  then show ?thesis
    by (metis drop_bit_of_0 push_bit_of_0)
qed

lemma drop_nonzero: "(w :: u32) AND 0xc0 \<noteq> 0 \<longleftrightarrow> drop_bit 4 (w AND 0xc0) \<noteq> 0"
proof -
  have "push_bit 4 (drop_bit 4 (w AND 0xc0)) = w AND 0xc0"
    by (rule word32_eqI, simp add: upt_rec bit_simps, simp add: eval_nat_numeral)
  then show ?thesis
    by (metis drop_bit_of_0 push_bit_of_0)
qed

text \<open>The target with another state of the device.\<close>

definition at_dev :: "'w target \<Rightarrow> 'w \<Rightarrow> 'w target" where
  "at_dev t d = t\<lparr>aw := (aw t)\<lparr>dev := d\<rparr>\<rparr>"

lemma at_dev_simps [simp]:
  "t_adapter (at_dev t d) = t_adapter t" "dev (aw (at_dev t d)) = d" "at_dev (at_dev t d) e = at_dev t e"
  "at_dev t (dev (aw t)) = t" "cfg (at_dev t d) = cfg t"
  by (simp_all add: at_dev_def)

lemma write_at:
  assumes "oncd_writes ok (t_adapter t) view r n f" and "ok d"
  obtains d' where "oncd_write v r n (at_dev t d) = (Inr (), at_dev t d')" "view d' = f v (view d)" "ok d'"
  using oncd_write_view [of ok "at_dev t d" view r n f v] assms by (auto simp: at_dev_def)

lemma read_at:
  assumes "oncd_reads ok (t_adapter t) view r n P" and "ok d"
  obtains x d' where "oncd_read r n (at_dev t d) = (Inr x, at_dev t d')" "view d' = view d" "P x (view d)" "ok d'"
  using oncd_read_view [of ok "at_dev t d" view r n P] assms by (auto simp: at_dev_def)

lemma write_breaks:
  assumes b: "oncd_breaks ok view (t_adapter t)" and ok: "ok d"
  shows "\<exists>d'. seqsM [oncd_write a OnCD_OMLR0 32, oncd_write l OnCD_OMLR1 32, oncd_write o' OnCD_OBCR 12,
      oncd_write 0 OnCD_OMBC 16] (at_dev t d) = (Inr (), at_dev t d') \<and>
    view d' = (view d)\<lparr>omlr0 := a, omlr1 := l, obcr := o' AND 0xfff\<rparr> \<and> ok d'"
proof -
  have w: "oncd_writes ok (t_adapter t) view OnCD_OMLR0 32 (\<lambda>v c. c\<lparr>omlr0 := v\<rparr>)"
      "oncd_writes ok (t_adapter t) view OnCD_OMLR1 32 (\<lambda>v c. c\<lparr>omlr1 := v\<rparr>)"
      "oncd_writes ok (t_adapter t) view OnCD_OBCR 12 (\<lambda>v c. c\<lparr>obcr := v AND 0xfff\<rparr>)"
      "oncd_writes ok (t_adapter t) view OnCD_OMBC 16 (\<lambda>v c. c)"
    using b by (simp_all add: oncd_breaks_def)
  obtain d1 where d1: "oncd_write a OnCD_OMLR0 32 (at_dev t d) = (Inr (), at_dev t d1)"
      "view d1 = (view d)\<lparr>omlr0 := a\<rparr>" "ok d1"
    by (rule write_at [OF w(1) ok])
  obtain d2 where d2: "oncd_write l OnCD_OMLR1 32 (at_dev t d1) = (Inr (), at_dev t d2)"
      "view d2 = (view d1)\<lparr>omlr1 := l\<rparr>" "ok d2"
    by (rule write_at [OF w(2) d1(3)])
  obtain d3 where d3: "oncd_write o' OnCD_OBCR 12 (at_dev t d2) = (Inr (), at_dev t d3)"
      "view d3 = (view d2)\<lparr>obcr := o' AND 0xfff\<rparr>" "ok d3"
    by (rule write_at [OF w(3) d2(3)])
  obtain d4 where d4: "oncd_write 0 OnCD_OMBC 16 (at_dev t d3) = (Inr (), at_dev t d4)"
      "view d4 = view d3" "ok d4"
    by (rule write_at [OF w(4) d3(3)])
  show ?thesis
    using d1 d2 d3 d4 by (intro exI [of _ d4]) (simp add: act_simps)
qed

lemma add_break_run:
  assumes b: "oncd_breaks ok view (t_adapter t)" and ok: "ok (dev (aw t))"
  shows "\<exists>d. target_add_break a k t = (Inr (), at_dev t d) \<and>
    view d = (let c = view (dev (aw t)) in
      if obcr c AND OBCR_RW0_RW \<noteq> 0
      then c\<lparr>omlr0 := a, omlr1 := omlr0 c,
        obcr := (((push_bit 1 (obcr c) AND 2) OR (push_bit 4 (obcr c) AND 0x3c0)) OR break_bits k) AND 0xfff\<rparr>
      else c\<lparr>omlr0 := a, omlr1 := 0, obcr := (0x400 OR break_bits k) AND 0xfff\<rparr>)"
proof -
  have r: "oncd_reads ok (t_adapter t) view OnCD_OBCR 12 (\<lambda>x c. x = obcr c)"
      "oncd_reads ok (t_adapter t) view OnCD_OMLR0 32 (\<lambda>x c. x = omlr0 c)"
    using b by (simp_all add: oncd_breaks_def)
  let ?c = "view (dev (aw t))"
  obtain x1 d1 where d1: "oncd_read OnCD_OBCR 12 t = (Inr x1, at_dev t d1)" "view d1 = ?c" "x1 = obcr ?c" "ok d1"
    using read_at [OF r(1) ok] by auto
  show ?thesis
  proof (cases "obcr ?c AND OBCR_RW0_RW \<noteq> 0")
    case True
    obtain x2 d2 where d2: "oncd_read OnCD_OMLR0 32 (at_dev t d1) = (Inr x2, at_dev t d2)"
        "view d2 = view d1" "x2 = omlr0 (view d1)" "ok d2"
      by (rule read_at [OF r(2) d1(4)])
    obtain d3 where "seqsM [oncd_write a OnCD_OMLR0 32, oncd_write (omlr0 ?c) OnCD_OMLR1 32,
        oncd_write (((push_bit 1 (obcr ?c) AND 2) OR (push_bit 4 (obcr ?c) AND 0x3c0)) OR break_bits k) OnCD_OBCR 12,
        oncd_write 0 OnCD_OMBC 16] (at_dev t d2) = (Inr (), at_dev t d3)"
        "view d3 = (view d2)\<lparr>omlr0 := a, omlr1 := omlr0 ?c,
          obcr := (((push_bit 1 (obcr ?c) AND 2) OR (push_bit 4 (obcr ?c) AND 0x3c0)) OR break_bits k) AND 0xfff\<rparr>"
      using write_breaks [OF b d2(4)] by blast
    then show ?thesis
      using d1 d2 True
      by (intro exI [of _ d3]) (simp add: target_add_break_def bindM_apply retM_apply Let_def del: seqsM.simps)
  next
    case False
    obtain d3 where "seqsM [oncd_write a OnCD_OMLR0 32, oncd_write 0 OnCD_OMLR1 32,
        oncd_write (0x400 OR break_bits k) OnCD_OBCR 12,
        oncd_write 0 OnCD_OMBC 16] (at_dev t d1) = (Inr (), at_dev t d3)"
        "view d3 = (view d1)\<lparr>omlr0 := a, omlr1 := 0, obcr := (0x400 OR break_bits k) AND 0xfff\<rparr>"
      using write_breaks [OF b d1(4)] by blast
    then show ?thesis
      using d1 False
      by (intro exI [of _ d3]) (simp add: target_add_break_def bindM_apply retM_apply Let_def del: seqsM.simps)
  qed
qed

text \<open>
  C9: for the debug unit, adding a breakpoint puts it in front of the list of
  at most two: the former first one moves to the second slot with its kind and address, and a
  third is dropped.
\<close>

theorem add_break_refines:
  assumes "oncd_breaks ok view (t_adapter t)" and "ok (dev (aw t))" and "breaks_ok (view (dev (aw t)))" and "break_kind k"
  shows "\<exists>t'. target_add_break a k t = (Inr (), t') \<and> cfg t' = cfg t \<and>
    breaks (view (dev (aw t'))) = take 2 ((a, break_bits k) # breaks (view (dev (aw t)))) \<and>
    breaks_ok (view (dev (aw t')))"
proof -
  let ?c = "view (dev (aw t))"
  obtain d where d: "target_add_break a k t = (Inr (), at_dev t d)"
      "view d = (let c = ?c in if obcr c AND OBCR_RW0_RW \<noteq> 0
        then c\<lparr>omlr0 := a, omlr1 := omlr0 c,
          obcr := (((push_bit 1 (obcr c) AND 2) OR (push_bit 4 (obcr c) AND 0x3c0)) OR break_bits k) AND 0xfff\<rparr>
        else c\<lparr>omlr0 := a, omlr1 := 0, obcr := (0x400 OR break_bits k) AND 0xfff\<rparr>)"
    using add_break_run [OF assms(1,2)] by blast
  have "breaks (view d) = take 2 ((a, break_bits k) # breaks ?c) \<and> breaks_ok (view d)"
  proof (cases "obcr ?c AND OBCR_RW0_RW \<noteq> 0")
    case True
    note bits = add_bits_second [OF assms(4), of "obcr ?c"]
    have "slot0 (view d) = [(a, break_bits k)]"
      using d(2) True bits(1,2) kind_bits(3) [OF assms(4)] by (simp add: slot0_def Let_def)
    moreover have "slot1 (view d) = [(omlr0 ?c, obcr ?c AND 0x3d)]"
      using d(2) True bits(3,4) push_nonzero [of "obcr ?c"] by (simp add: slot1_def Let_def)
    ultimately show ?thesis
      using True by (simp add: breaks_def breaks_ok_def slot0_def numeral_2_eq_2)
  next
    case False
    note bits = add_bits_first [OF assms(4)]
    have "slot0 (view d) = [(a, break_bits k)]" "slot1 (view d) = []"
      using d(2) False bits kind_bits(3) [OF assms(4)] by (simp_all add: slot0_def slot1_def Let_def)
    then show ?thesis
      using False assms(3) by (simp add: breaks_def breaks_ok_def slot0_def)
  qed
  then show ?thesis
    using d(1) by auto
qed

text \<open>
  Also: the first breakpoint is set with the condition to stop when any
  slot matches; adding a second one clears this bit, and the unit then stops only when both
  match at once (oncd.h: 0 - both, 1 - any).
\<close>

theorem second_break_needs_both:
  assumes "oncd_breaks ok view (t_adapter t)" and "ok (dev (aw t))" and "slot0 (view (dev (aw t))) \<noteq> []" and "break_kind k"
  shows "\<exists>t'. target_add_break a k t = (Inr (), t') \<and> length (breaks (view (dev (aw t')))) = 2 \<and>
    obcr (view (dev (aw t'))) AND OBCR_ANY = 0"
proof -
  let ?c = "view (dev (aw t))"
  obtain d where d: "target_add_break a k t = (Inr (), at_dev t d)"
      "view d = (let c = ?c in if obcr c AND OBCR_RW0_RW \<noteq> 0
        then c\<lparr>omlr0 := a, omlr1 := omlr0 c,
          obcr := (((push_bit 1 (obcr c) AND 2) OR (push_bit 4 (obcr c) AND 0x3c0)) OR break_bits k) AND 0xfff\<rparr>
        else c\<lparr>omlr0 := a, omlr1 := 0, obcr := (0x400 OR break_bits k) AND 0xfff\<rparr>)"
    using add_break_run [OF assms(1,2)] by blast
  have set: "obcr ?c AND OBCR_RW0_RW \<noteq> 0"
    using assms(3) by (auto simp: slot0_def)
  note bits = add_bits_second [OF assms(4), of "obcr ?c"]
  have "length (breaks (view d)) = 2" "obcr (view d) AND OBCR_ANY = 0"
    using d(2) set bits(1,3,5) kind_bits(3) [OF assms(4)] push_nonzero [of "obcr ?c"]
    by (simp_all add: breaks_def slot0_def slot1_def Let_def)
  then show ?thesis
    using d(1) by auto
qed

lemma clear_second:
  fixes o' :: u32
  shows "((o' AND NOT 0x3c2) AND 0xfff) AND 0x3d = o' AND 0x3d"
    and "((o' AND NOT 0x3c2) AND 0xfff) AND 0xc = o' AND 0xc"
    and "((o' AND NOT 0x3c2) AND 0xfff) AND 0xc0 = 0"
  by (simp_all add: and.assoc)

lemma remove_break_run:
  assumes b: "oncd_breaks ok view (t_adapter t)" and ok: "ok (dev (aw t))"
  shows "\<exists>d. target_remove_break a t = (Inr (), at_dev t d) \<and>
    view d = (let c = view (dev (aw t)) in case removed_break a (obcr c) (omlr0 c) (omlr1 c) of
       None \<Rightarrow> c
     | Some (ob, ol0, ol1) \<Rightarrow> c\<lparr>obcr := ob AND 0xfff, omlr0 := ol0, omlr1 := ol1\<rparr>)"
proof -
  have r: "oncd_reads ok (t_adapter t) view OnCD_OBCR 12 (\<lambda>x c. x = obcr c)"
      "oncd_reads ok (t_adapter t) view OnCD_OMLR0 32 (\<lambda>x c. x = omlr0 c)"
      "oncd_reads ok (t_adapter t) view OnCD_OMLR1 32 (\<lambda>x c. x = omlr1 c)"
    and w: "oncd_writes ok (t_adapter t) view OnCD_OBCR 12 (\<lambda>v c. c\<lparr>obcr := v AND 0xfff\<rparr>)"
      "oncd_writes ok (t_adapter t) view OnCD_OMLR0 32 (\<lambda>v c. c\<lparr>omlr0 := v\<rparr>)"
      "oncd_writes ok (t_adapter t) view OnCD_OMLR1 32 (\<lambda>v c. c\<lparr>omlr1 := v\<rparr>)"
    using b by (simp_all add: oncd_breaks_def)
  let ?c = "view (dev (aw t))"
  obtain x1 d1 where d1: "oncd_read OnCD_OBCR 12 t = (Inr x1, at_dev t d1)" "view d1 = ?c" "x1 = obcr ?c" "ok d1"
    using read_at [OF r(1) ok] by auto
  obtain x2 d2 where d2: "oncd_read OnCD_OMLR0 32 (at_dev t d1) = (Inr x2, at_dev t d2)"
      "view d2 = view d1" "x2 = omlr0 (view d1)" "ok d2"
    by (rule read_at [OF r(2) d1(4)])
  obtain x3 d3 where d3: "oncd_read OnCD_OMLR1 32 (at_dev t d2) = (Inr x3, at_dev t d3)"
      "view d3 = view d2" "x3 = omlr1 (view d2)" "ok d3"
    by (rule read_at [OF r(3) d2(4)])
  show ?thesis
  proof (cases "removed_break a (obcr ?c) (omlr0 ?c) (omlr1 ?c)")
    case None
    then show ?thesis
      using d1 d2 d3 by (intro exI [of _ d3]) (simp add: target_remove_break_def act_simps)
  next
    case (Some y)
    obtain ob ol0 ol1 where y: "y = (ob, ol0, ol1)"
      by (metis prod_cases3)
    obtain d4 where d4: "oncd_write ob OnCD_OBCR 12 (at_dev t d3) = (Inr (), at_dev t d4)"
        "view d4 = (view d3)\<lparr>obcr := ob AND 0xfff\<rparr>" "ok d4"
      by (rule write_at [OF w(1) d3(4)])
    obtain d5 where d5: "oncd_write ol0 OnCD_OMLR0 32 (at_dev t d4) = (Inr (), at_dev t d5)"
        "view d5 = (view d4)\<lparr>omlr0 := ol0\<rparr>" "ok d5"
      by (rule write_at [OF w(2) d4(3)])
    obtain d6 where d6: "oncd_write ol1 OnCD_OMLR1 32 (at_dev t d5) = (Inr (), at_dev t d6)"
        "view d6 = (view d5)\<lparr>omlr1 := ol1\<rparr>"
      by (rule write_at [OF w(3) d5(3)])
    show ?thesis
      using d1 d2 d3 d4 d5 d6 Some y
      by (intro exI [of _ d6]) (simp add: target_remove_break_def act_simps)
  qed
qed

text \<open>
  C10: removing a breakpoint takes the first one at the address out of the
  list; a second one moves to the first slot with its kind, and other breakpoints, or all of
  them when none is at the address, stay as they are.
\<close>

theorem remove_break_refines:
  assumes "oncd_breaks ok view (t_adapter t)" and "ok (dev (aw t))" and "breaks_ok (view (dev (aw t)))"
  shows "\<exists>t'. target_remove_break a t = (Inr (), t') \<and> cfg t' = cfg t \<and>
    breaks (view (dev (aw t'))) = remove_addr a (breaks (view (dev (aw t)))) \<and>
    breaks_ok (view (dev (aw t')))"
proof -
  let ?c = "view (dev (aw t))"
  obtain d where d: "target_remove_break a t = (Inr (), at_dev t d)"
      "view d = (case removed_break a (obcr ?c) (omlr0 ?c) (omlr1 ?c) of None \<Rightarrow> ?c
       | Some (ob, ol0, ol1) \<Rightarrow> ?c\<lparr>obcr := ob AND 0xfff, omlr0 := ol0, omlr1 := ol1\<rparr>)"
    using remove_break_run [OF assms(1,2), of a] by (auto simp: Let_def)
  note down = move_down [of "obcr ?c"] and clear = clear_second [of "obcr ?c"]
  have "breaks (view d) = remove_addr a (breaks ?c) \<and> breaks_ok (view d)"
  proof (cases "obcr ?c AND OBCR_RW0_RW = 0")
    case True
    then have "breaks ?c = []" "obcr ?c AND OBCR_RW1_RW = 0"
      using assms(3) by (auto simp: breaks_def breaks_ok_def slot0_def slot1_def split: if_splits)
    then show ?thesis
      using True d(2) assms(3) by (simp add: removed_break_def)
  next
    case s0: False
    show ?thesis
    proof (cases "omlr0 ?c = a")
      case True
      then show ?thesis
        using s0 d(2) down drop_nonzero [of "obcr ?c"]
        by (simp add: removed_break_def breaks_def breaks_ok_def slot0_def slot1_def)
    next
      case False
      then show ?thesis
        using s0 d(2) clear
        by (simp add: removed_break_def breaks_def breaks_ok_def slot0_def slot1_def)
    qed
  qed
  then show ?thesis
    using d(1) by auto
qed

section \<open>Witnesses\<close>

text \<open>
  The theorems applied to the simulated unit, on a bus where every word reads as the device
  code of a 29LV800B.
\<close>

definition sim_rd :: "bus_op list \<Rightarrow> u32 \<Rightarrow> u32" where
  "sim_rd h a = 0x225b225b"

lemmas sim_run = act_simps on_adapter_def oncd_write_def oncd_read_def sim_write_def sim_read_def
  sim_world_def get_oscr_def set_oscr_def upd_oscr_def send_oscr_def

lemma sim_adapter_basic [simp]:
  "a_oncd_write (sim_adapter rd) = sim_write rd" "a_oncd_read (sim_adapter rd) = sim_read"
  "a_step_cpu (sim_adapter rd) = None" "a_run_cpu (sim_adapter rd) = None"
  "a_stop_cpu (sim_adapter rd) = retM ()" "a_reset_cpu (sim_adapter rd) = retM ()"
  "a_close (sim_adapter rd) = retM ()" "a_cpu_stopped (sim_adapter rd) = retM True"
  by (simp_all add: sim_adapter_def)

theorem register_read_back_witness:
  "\<exists>t'. target_write_register 5 7 (sim_target sim_rd) = (Inr (), t') \<and>
    target_read_register 5 t' = (Inr 7, t')"
proof -
  have "\<exists>t'. target_write_register 5 7 (sim_target sim_rd) = (Inr (), t')"
    by (simp add: target_write_register_def target_write_reg_def regf_write_def sim_run)
  then show ?thesis
    using register_read_back [of 5 7 "sim_target sim_rd"] by auto
qed

lemma sim_wait:
  assumes "n > 0" and "t_adapter t = sim_adapter rd"
  shows "wait_rdym n t =
    (Inr True, t\<lparr>aw := (aw t)\<lparr>oscr := (c_oscr (dev (aw t)) AND 3) OR OSCR_RDYm\<rparr>\<rparr>)"
proof -
  obtain m where n: "n = Suc m"
    using assms(1) by (cases n) simp_all
  show ?thesis
    using assms(2) by (simp add: n sim_run bit.conj_disj_distrib2)
qed

text \<open>On the simulated unit no operation fails.\<close>

definition runs :: "(bus_op list \<Rightarrow> u32 \<Rightarrow> u32) \<Rightarrow> (chip, 'a) tact \<Rightarrow> bool" where
  "runs rd m \<longleftrightarrow> (\<forall>t. t_adapter t = sim_adapter rd \<longrightarrow>
     (\<exists>x t'. m t = (Inr x, t') \<and> t_adapter t' = sim_adapter rd))"

lemma runsI:
  "(\<And>t. t_adapter t = sim_adapter rd \<Longrightarrow> \<exists>x t'. m t = (Inr x, t') \<and> t_adapter t' = sim_adapter rd) \<Longrightarrow>
   runs rd m"
  by (simp add: runs_def)

lemma runsE:
  assumes "runs rd m" and "t_adapter t = sim_adapter rd"
  obtains x t' where "m t = (Inr x, t')" and "t_adapter t' = sim_adapter rd"
  using assms unfolding runs_def by blast

lemma runs_basic: "runs rd (retM x)" "runs rd (getM f)"
  by (auto simp: runs_def act_simps)

lemma runs_modM: "(\<And>t. t_adapter (g t) = t_adapter t) \<Longrightarrow> runs rd (modM g)"
  by (simp add: runs_def)

lemma runs_bindM:
  assumes m: "runs rd m" and k: "\<And>x. runs rd (k x)"
  shows "runs rd (bindM m k)"
proof (rule runsI)
  fix t :: "chip target"
  assume "t_adapter t = sim_adapter rd"
  from m this obtain x t1 where 1: "m t = (Inr x, t1)" "t_adapter t1 = sim_adapter rd"
    by (rule runsE)
  from k 1(2) obtain y t2 where "k x t1 = (Inr y, t2)" "t_adapter t2 = sim_adapter rd"
    by (rule runsE)
  then show "\<exists>x t'. bindM m k t = (Inr x, t') \<and> t_adapter t' = sim_adapter rd"
    using 1 by (simp add: bindM_apply)
qed

lemma runs_seqM: "runs rd m \<Longrightarrow> runs rd n \<Longrightarrow> runs rd (seqM m n)"
  unfolding seqM_def by (rule runs_bindM)

lemma runs_whenM: "runs rd m \<Longrightarrow> runs rd (whenM b m)"
  by (simp add: whenM_def runs_basic)

lemma runs_if: "runs rd m \<Longrightarrow> runs rd n \<Longrightarrow> runs rd (if b then m else n)"
  by simp

lemma runs_seqs_Cons: "runs rd m \<Longrightarrow> runs rd (seqsM ms) \<Longrightarrow> runs rd (seqsM (m # ms))"
  by (simp add: runs_seqM)

lemma runs_seqs_Nil: "runs rd (seqsM [])"
  by (simp add: runs_basic)

lemma runs_oncd: "runs rd (oncd_write v r w)" "runs rd (oncd_read r w)"
  by (simp_all add: runs_def oncd_write_def oncd_read_def on_adapter_def sim_write_def sim_read_def)

lemma runs_guard:
  assumes "n > 0" and k: "runs rd k"
  shows "runs rd (bindM (wait_rdym n) (\<lambda>ok. if ok then k else failM e))"
proof (rule runsI)
  fix t :: "chip target"
  assume t: "t_adapter t = sim_adapter rd"
  let ?t1 = "t\<lparr>aw := (aw t)\<lparr>oscr := (c_oscr (dev (aw t)) AND 3) OR OSCR_RDYm\<rparr>\<rparr>"
  have "t_adapter ?t1 = sim_adapter rd"
    using t by simp
  with k obtain x t2 where "k ?t1 = (Inr x, t2)" "t_adapter t2 = sim_adapter rd"
    by (rule runsE)
  then show "\<exists>x t'. bindM (wait_rdym n) (\<lambda>ok. if ok then k else failM e) t = (Inr x, t') \<and>
      t_adapter t' = sim_adapter rd"
    using sim_wait [OF assms(1) t] by (simp add: bindM_apply)
qed

lemmas runs_rules = runs_basic runs_modM runs_bindM runs_seqM runs_whenM runs_if
  runs_seqs_Cons runs_seqs_Nil runs_oncd

lemma runs_oscr: "runs rd (upd_oscr f)" "runs rd send_oscr" "runs rd (set_oscr v)"
  by (auto simp: upd_oscr_def send_oscr_def get_oscr_def set_oscr_def intro!: runs_rules)

lemma runs_exec: "runs rd (target_exec i)"
  unfolding target_exec_def by (intro runs_rules)

lemma runs_write_next: "runs rd (target_write_next a d)"
  unfolding target_write_next_def
  by (intro runs_seqM runs_oncd runs_bindM [OF runs_basic(2)] runs_if runs_guard runs_basic) simp

lemma runs_read_next: "runs rd (target_read_next a)"
  unfolding target_read_next_def by (intro runs_seqM runs_oncd runs_guard) simp

lemma runs_words: "runs rd (target_write_word a d)" "runs rd (target_read_word a)"
  by (auto simp: target_write_word_def target_read_word_def target_read_start_def get_oscr_def Let_def
      intro!: runs_rules runs_oscr runs_write_next runs_read_next)

lemma runs_regs: "runs rd (target_read_reg n)" "runs rd (target_write_reg n v)"
  by (auto simp: target_read_reg_def target_write_reg_def regf_read_def regf_write_def Let_def
      intro!: runs_rules runs_exec runs_words)

lemma runs_save: "runs rd target_save_state"
proof -
  have "runs rd save_pipeline" "runs rd save_mc12" "runs rd flush_stage"
    by (auto simp: save_pipeline_def save_mc12_def flush_stage_def keep_reg_def
        intro!: runs_rules runs_exec runs_oscr runs_words runs_regs)
  then show ?thesis
    unfolding target_save_state_def
    by (intro runs_rules runs_oscr; simp add: invalidate_regs_def)
qed

lemma runs_restore: "runs rd target_restore_state"
  unfolding target_restore_state_def by (intro runs_rules runs_exec runs_oscr runs_words runs_regs)

lemma runs_cpu: "runs rd run_cpu"
proof (rule runsI)
  fix t :: "chip target"
  assume t: "t_adapter t = sim_adapter rd"
  with runs_oncd(1) obtain x t' where
    "oncd_write 0 (OnCD_GO OR IRd_RESUME OR IRd_FLUSH_PIPE) 0 t = (Inr x, t')" "t_adapter t' = sim_adapter rd"
    by (rule runsE)
  then show "\<exists>x t'. run_cpu t = (Inr x, t') \<and> t_adapter t' = sim_adapter rd"
    using t by (simp add: run_cpu_def bindM_apply)
qed

lemma runsD: "runs rd m \<Longrightarrow> \<exists>x t'. m (sim_target rd) = (Inr x, t')"
  unfolding runs_def using sim_target_simps(1) by blast

lemma runs_cached:
  assumes m: "runs rd m" and g: "\<And>x t. t_adapter (h x t) = t_adapter t"
  shows "runs rd (cached f g m h)"
proof -
  have "runs rd (bindM m (\<lambda>x. modM (h x)))"
    using m g by (intro runs_bindM runs_modM)
  then show ?thesis
    unfolding cached_def by (intro runs_seqM runs_bindM [OF runs_basic(2)] runs_whenM runs_basic)
qed

theorem register_read_stable_witness:
  "\<exists>v t'. target_read_register 5 (sim_target sim_rd) = (Inr v, t') \<and>
    target_read_register 5 t' = (Inr v, t')"
proof -
  have "runs sim_rd (target_read_register 5)"
    unfolding target_read_register_def by (simp add: runs_cached runs_regs keep_reg_def)
  then have "\<exists>v t'. target_read_register 5 (sim_target sim_rd) = (Inr v, t')"
    by (rule runsD)
  then show ?thesis
    using register_read_stable [of 5 "sim_target sim_rd"] by blast
qed

theorem save_state_forgets_registers_witness:
  "\<exists>t'. target_save_state (sim_target sim_rd) = (Inr (), t') \<and> \<not> reg_known 5 t'"
proof -
  have "\<exists>t'. target_save_state (sim_target sim_rd) = (Inr (), t')"
    using runsD [OF runs_save] by simp
  then show ?thesis
    using save_state_forgets_registers [of "sim_target sim_rd" _ 5] by auto
qed


lemma sim_no_breaks: "breaks (dev sim_world) = []" "breaks_ok (dev sim_world)"
  by (simp_all add: breaks_def breaks_ok_def slot0_def slot1_def sim_world_def)

theorem add_break_refines_witness:
  "\<exists>t'. target_add_break 0x1000 CHR ''b'' (sim_target sim_rd) = (Inr (), t') \<and>
    breaks (dev (aw t')) = [(0x1000, break_bits CHR ''b'')]"
proof -
  have "oncd_breaks (\<lambda>_. True) (\<lambda>c. c) (t_adapter (sim_target sim_rd))"
    by (simp add: sim_oncd_breaks)
  from add_break_refines [OF this, of "CHR ''b''" "0x1000"] show ?thesis
    by (auto simp: sim_no_breaks break_kind_def)
qed

definition one_break :: "chip target" where
  "one_break = snd (target_add_break 0x1000 CHR ''b'' (sim_target sim_rd))"

lemma one_break_state:
  "t_adapter one_break = sim_adapter sim_rd" "obcr (dev (aw one_break)) = 0x418"
  "omlr0 (dev (aw one_break)) = 0x1000"
  by (simp_all add: one_break_def target_add_break_def break_bits_def sim_run)

theorem second_break_needs_both_witness:
  "\<exists>t'. target_add_break 0x2000 CHR ''w'' one_break = (Inr (), t') \<and>
    length (breaks (dev (aw t'))) = 2 \<and> obcr (dev (aw t')) AND OBCR_ANY = 0"
  using second_break_needs_both [of "\<lambda>_. True" "\<lambda>c. c" one_break "CHR ''w''" "0x2000"]
  by (simp add: one_break_state sim_oncd_breaks slot0_def break_kind_def)

theorem remove_break_refines_witness:
  "\<exists>t'. target_remove_break 0x1000 one_break = (Inr (), t') \<and> breaks (dev (aw t')) = []"
proof -
  have "oncd_breaks (\<lambda>_. True) (\<lambda>c. c) (t_adapter one_break)"
    by (simp add: one_break_state sim_oncd_breaks)
  moreover have "breaks (dev (aw one_break)) = [(0x1000, 0x18)]" "breaks_ok (dev (aw one_break))"
    by (simp_all add: breaks_def breaks_ok_def slot0_def slot1_def one_break_state)
  ultimately show ?thesis
    using remove_break_refines [of "\<lambda>_. True" "\<lambda>c. c" one_break "0x1000"] by auto
qed

abbreviation sim_chips :: "chip target" where
  "sim_chips \<equiv> (sim_target sim_rd)\<lparr>flash_base := (\<lambda>_. 0), flash_last := (\<lambda>_. 0xffffff)\<rparr>"

lemma sim_read_ids:
  "\<exists>t'. read_ids 0 0 (set_mode 0 sim_chips) = (Inr (0x225b225b, 0x225b225b), t') \<and>
    flash_width t' = 32 \<and> chip_width t' = 16 \<and> \<not> micron_com_set t'"
  by (simp add: read_ids_def set_mode_def set_cmds16_def unlock3_def write_words_def
      target_write_word_def target_write_next_def target_read_word_def target_read_start_def
      target_read_next_def Let_def sim_run sim_target_def new_target_def mem_access_def sim_rd_def
      phys_of_def sim_wait)

theorem detection_from_table_witness:
  "\<exists>dt t'. target_flash_detect 0 sim_chips = (Inr (Some dt), t') \<and> detected_ok t' dt"
proof -
  obtain t1 where t1: "read_ids 0 0 (set_mode 0 sim_chips) = (Inr (0x225b225b, 0x225b225b), t1)"
      "flash_width t1 = 32" "chip_width t1 = 16" "\<not> micron_com_set t1"
    using sim_read_ids by blast
  have "compute_base_loop sim_chips (phys_of 0) [0..<NFLASH] = Some 0"
    by (simp add: phys_of_def upt_conv_Cons)
  then have "target_flash_detect 0 sim_chips = detect_loop 0 (Suc 23) 0 sim_chips"
    by (simp add: target_flash_detect_def compute_base_def act_simps del: detect_loop.simps)
  moreover have "\<exists>dt t'. detect_loop 0 (Suc 23) 0 sim_chips = (Inr (Some dt), t')"
    using t1 by (simp only: detect_loop.simps)
      (simp add: act_simps chip_of_def detect_success_def keep_chip_def del: detect_loop.simps)
  ultimately show ?thesis
    using detection_from_table [of 0 sim_chips] by auto
qed

end
