(* ===== verification/Proxy_Handlers.thy ===== *)
theory Proxy_Handlers
  imports Proxy_Packet
begin

text \<open>
  The command handlers of gdbproxy.c over the interface \<open>rp_target\<close> of gdbproxy.h, a table of
  operations on the state \<open>'d\<close> of a debug target.

  The handlers work on the state of the proxy: the target, the connection, and the static
  variables of gdbproxy.c and of its \<open>main\<close>. A handler gets the packet \<open>inp\<close> as the
  buffer from its start on (text, NUL and whatever is behind it) with its length; it leaves the
  reply in \<open>out_buf\<close>, which was set to the empty reply before. Output parameters of a target
  operation are results; one that the operation may leave unset is an option, and using an
  unset one is \<open>Bad_access\<close>. Local arrays of the handlers hold old stack data, the fields
  \<open>stack_data\<close> and \<open>stack_avail\<close>. The log is left out.
\<close>

section \<open>The target interface\<close>

definition RP_PARAM_DATABYTES_MAX :: nat where
  "RP_PARAM_DATABYTES_MAX = 0x10000"

definition RP_VAL_DBG_PBUFSIZ :: nat where
  "RP_VAL_DBG_PBUFSIZ = 400"

type_synonym out_func = "string \<Rightarrow> (conn, unit) act"

text \<open>
  \<open>read_registers\<close> and \<open>read_single_register\<close> fill two arrays and give the number of bytes;
  \<open>read_mem\<close> gives the bytes it stored, \<open>*actual_size\<close> of them. \<open>connect\<close> and the wait
  functions get the old status string and give the new one.
\<close>

record 'd rp_target =
  rt_open :: "('d, retval) act"
  rt_close :: "('d, unit) act"
  rt_connect :: "string \<Rightarrow> nat \<Rightarrow> bool \<Rightarrow> ('d, retval \<times> string \<times> bool) act"
  rt_disconnect :: "('d, retval) act"
  rt_kill :: "('d, unit) act"
  rt_restart :: "('d, retval) act"
  rt_stop :: "('d, unit) act"
  rt_set_gen_thread :: "rp_thread_ref \<Rightarrow> ('d, retval) act"
  rt_set_ctrl_thread :: "rp_thread_ref \<Rightarrow> ('d, retval) act"
  rt_is_thread_alive :: "rp_thread_ref \<Rightarrow> ('d, retval \<times> bool option) act"
  rt_read_registers :: "u8 list \<Rightarrow> u8 list \<Rightarrow> ('d, retval \<times> u8 list \<times> u8 list \<times> nat) act"
  rt_write_registers :: "u8 list \<Rightarrow> ('d, retval) act"
  rt_read_single_register ::
    "u32 \<Rightarrow> u8 list \<Rightarrow> u8 list \<Rightarrow> ('d, retval \<times> u8 list \<times> u8 list \<times> nat) act"
  rt_write_single_register :: "u32 \<Rightarrow> u8 list \<Rightarrow> ('d, retval) act"
  rt_read_mem :: "u64 \<Rightarrow> nat \<Rightarrow> ('d, retval \<times> u8 list) act"
  rt_write_mem :: "u64 \<Rightarrow> u8 list \<Rightarrow> ('d, retval) act"
  rt_resume_from_current :: "bool \<Rightarrow> u32 \<Rightarrow> ('d, retval) act"
  rt_resume_from_addr :: "bool \<Rightarrow> u32 \<Rightarrow> u64 \<Rightarrow> ('d, retval) act"
  rt_go_waiting :: "u32 \<Rightarrow> ('d, retval) act"
  rt_wait_partial :: "bool \<Rightarrow> string \<Rightarrow> nat \<Rightarrow> out_func \<Rightarrow>
    ('d \<times> conn, retval \<times> string \<times> bool option \<times> bool option) act"
  rt_wait :: "string \<Rightarrow> nat \<Rightarrow> out_func \<Rightarrow> ('d \<times> conn, retval \<times> string \<times> bool option) act"
  rt_process_query ::
    "u32 \<Rightarrow> rp_thread_ref \<Rightarrow> rp_thread_info \<Rightarrow> ('d, retval \<times> u32 \<times> rp_thread_ref \<times> rp_thread_info) act"
  rt_list_query ::
    "bool \<Rightarrow> rp_thread_ref \<Rightarrow> nat \<Rightarrow> ('d, retval \<times> rp_thread_ref list \<times> bool) act"
  rt_current_thread_query :: "('d, retval \<times> rp_thread_ref) act"
  rt_offsets_query :: "('d, retval \<times> u64 \<times> u64 \<times> u64) act"
  rt_crc_query :: "u64 \<Rightarrow> nat \<Rightarrow> ('d, retval \<times> u32) act"
  rt_raw_query :: "string \<Rightarrow> nat \<Rightarrow> ('d, retval \<times> string) act"
  rt_remcmd :: "string \<Rightarrow> out_func \<Rightarrow> out_func \<Rightarrow> ('d \<times> conn, retval) act"
  rt_add_break :: "u32 \<Rightarrow> u64 \<Rightarrow> u32 \<Rightarrow> ('d, retval) act"
  rt_remove_break :: "u32 \<Rightarrow> u64 \<Rightarrow> u32 \<Rightarrow> ('d, retval) act"

section \<open>The state of the proxy\<close>

text \<open>
  \<open>pending\<close> is what the coming attempts to open a debugger connection give: a connection, or
  \<open>None\<close> for a failed \<open>dbg_sock_open\<close> or \<open>dbg_sock_accept\<close>.
\<close>

record 'd proxy =
  tgt :: 'd
  cn :: conn
  pending :: "conn option list"
  out_buf :: string
  status_string :: string
  extended_protocol :: bool
  can_restart :: bool
  rp_target_out_valid :: bool
  rp_target_running :: bool
  do_reinitialize :: bool
  do_connect :: bool
  input_error :: bool
  stack_data :: "u8 list"
  stack_avail :: "u8 list"
  stale_in :: string

type_synonym ('d, 'a) pact = "('d proxy, 'a) act"

definition on_tgt :: "('d, 'a) act \<Rightarrow> ('d, 'a) pact" where
  "on_tgt m = zoomM tgt (\<lambda>d p. p\<lparr>tgt := d\<rparr>) m"

definition on_conn :: "(conn, 'a) act \<Rightarrow> ('d, 'a) pact" where
  "on_conn m = zoomM cn (\<lambda>c p. p\<lparr>cn := c\<rparr>) m"

definition on_both :: "('d \<times> conn, 'a) act \<Rightarrow> ('d, 'a) pact" where
  "on_both m = zoomM (\<lambda>p. (tgt p, cn p)) (\<lambda>(d, c) p. p\<lparr>tgt := d, cn := c\<rparr>) m"

definition set_out :: "string \<Rightarrow> ('d, unit) pact" where
  "set_out s = modM (\<lambda>p. p\<lparr>out_buf := s\<rparr>)"

definition reply :: "retval \<Rightarrow> ('d, unit) pact" where
  "reply ret = set_out (rp_write_retval ret)"

text \<open>Sending the reply, and closing the socket, on which every read fails afterwards.\<close>

definition put_out :: "nat \<Rightarrow> ('d, unit) pact" where
  "put_out k = bindM (getM out_buf) (\<lambda>s. seqM (on_conn (rp_putpkt k s)) (retM ()))"

definition dbg_sock_close :: "('d, unit) pact" where
  "dbg_sock_close = on_conn (modM (\<lambda>c. c\<lparr>rx := [RxEof]\<rparr>))"

text \<open>A value that the target operation may not have set.\<close>

definition used :: "'a option \<Rightarrow> ('s, 'a) act" where
  "used x = (case x of None \<Rightarrow> failM Bad_access | Some v \<Rightarrow> retM v)"

text \<open>An encoder that does not fit leaves the output buffer as it was.\<close>

definition encode_out :: "fault + string option \<Rightarrow> ('d, unit) pact" where
  "encode_out r = bindM (liftM r) (\<lambda>x. case x of None \<Rightarrow> retM () | Some s \<Rightarrow> set_out s)"

definition starts :: "string \<Rightarrow> string \<Rightarrow> bool" where
  "starts pre s \<longleftrightarrow> take (length pre) s = pre"

text \<open>\<open>sprintf ("%x")\<close>: no leading zeros.\<close>

definition sprintf_Lx :: "u64 \<Rightarrow> string" where
  "sprintf_Lx v = (case dropWhile (\<lambda>c. c = CHR ''0'') (hex_digits 16 v) of [] \<Rightarrow> ''0'' | s \<Rightarrow> s)"

section \<open>Registers and memory\<close>

definition handle_search_memory_command :: "string \<Rightarrow> ('d, unit) pact" where
  "handle_search_memory_command inp = (case rp_decode_uint64 (tl inp) CHR '':'' of
     None \<Rightarrow> reply RP_ERR
   | Some (addr, i1) \<Rightarrow> (case rp_decode_uint32 i1 CHR '','' of
       None \<Rightarrow> reply RP_ERR
     | Some (pattern, i2) \<Rightarrow> (case rp_decode_uint32 i2 NUL of
         None \<Rightarrow> reply RP_ERR
       | Some _ \<Rightarrow> reply RP_NOSUPP)))"

definition handle_thread_commands :: "'d rp_target \<Rightarrow> string \<Rightarrow> nat \<Rightarrow> ('d, unit) pact" where
  "handle_thread_commands t inp in_len =
     (if in_len = 1 \<or> peek (drop 2 inp) = CHR ''-'' then retM ()
      else if peek (drop 1 inp) = CHR ''c'' then
        (case rp_decode_uint64 (drop 2 inp) NUL of
           None \<Rightarrow> reply RP_ERR
         | Some (ref, _) \<Rightarrow> bindM (on_tgt (rt_set_ctrl_thread t ref)) reply)
      else if peek (drop 1 inp) = CHR ''g'' then
        (case rp_decode_uint64 (drop 2 inp) NUL of
           None \<Rightarrow> reply RP_ERR
         | Some (ref, _) \<Rightarrow> bindM (on_tgt (rt_set_gen_thread t ref)) reply)
      else retM ())"

text \<open>What both register reads do with the answer of the target.\<close>

definition reply_regs :: "retval \<times> u8 list \<times> u8 list \<times> nat \<Rightarrow> ('d, unit) pact" where
  "reply_regs r = (case r of (ret, data, avail, len) \<Rightarrow>
     (case ret of
        RP_OK \<Rightarrow> seqM (assertM (len \<le> RP_PARAM_DATABYTES_MAX))
          (encode_out (rp_encode_regs (take len data) (take len avail) RP_PARAM_INOUTBUF_SIZE))
      | RP_ERR \<Rightarrow> reply RP_ERR
      | RP_NOSUPP \<Rightarrow> failM Assert_fail))"

definition handle_read_registers_command :: "'d rp_target \<Rightarrow> ('d, unit) pact" where
  "handle_read_registers_command t =
     bindM (getM stack_data) (\<lambda>data_buf. bindM (getM stack_avail) (\<lambda>avail_buf.
     bindM (on_tgt (rt_read_registers t data_buf avail_buf)) reply_regs))"

definition handle_write_registers_command :: "'d rp_target \<Rightarrow> string \<Rightarrow> ('d, unit) pact" where
  "handle_write_registers_command t inp =
     (case rp_decode_data (tl inp) RP_PARAM_DATABYTES_MAX of
        None \<Rightarrow> reply RP_ERR
      | Some data \<Rightarrow> bindM (on_tgt (rt_write_registers t data)) reply)"

definition handle_read_single_register_command :: "'d rp_target \<Rightarrow> string \<Rightarrow> ('d, unit) pact" where
  "handle_read_single_register_command t inp = (case rp_decode_uint32 (tl inp) NUL of
     None \<Rightarrow> reply RP_ERR
   | Some (reg_no, _) \<Rightarrow>
       bindM (getM stack_data) (\<lambda>data_buf. bindM (getM stack_avail) (\<lambda>avail_buf.
       bindM (on_tgt (rt_read_single_register t reg_no data_buf avail_buf)) reply_regs)))"

definition handle_write_single_register_command :: "'d rp_target \<Rightarrow> string \<Rightarrow> ('d, unit) pact" where
  "handle_write_single_register_command t inp =
     (case rp_decode_reg_assignment (tl inp) RP_PARAM_DATABYTES_MAX of
        None \<Rightarrow> reply RP_ERR
      | Some (reg_no, data) \<Rightarrow> seqM (assertM (length data < RP_PARAM_DATABYTES_MAX))
          (bindM (on_tgt (rt_write_single_register t reg_no data)) reply))"

definition handle_read_memory_command :: "'d rp_target \<Rightarrow> string \<Rightarrow> ('d, unit) pact" where
  "handle_read_memory_command t inp = (case rp_decode_mem (tl inp) of
     None \<Rightarrow> reply RP_ERR
   | Some (addr, len) \<Rightarrow>
       bindM (on_tgt (rt_read_mem t addr (min (unat len) ((RP_VAL_DBG_PBUFSIZ - 32) div 2))))
         (\<lambda>(ret, data). case ret of
            RP_OK \<Rightarrow> seqM (assertM (length data \<le> RP_PARAM_DATABYTES_MAX))
              (encode_out (rp_encode_data data RP_PARAM_INOUTBUF_SIZE))
          | RP_ERR \<Rightarrow> reply RP_ERR
          | RP_NOSUPP \<Rightarrow> failM Assert_fail))"

text \<open>\<open>strchr\<close> in a buffer: the text before the character and from it on.\<close>

definition strchr :: "string \<Rightarrow> char \<Rightarrow> (string \<times> string) option" where
  "strchr s c = (let pre = takeWhile (\<lambda>x. x \<noteq> c) (cstr s) in
     if length pre < length (cstr s) then Some (pre, drop (length pre) s) else None)"

definition handle_write_memory_command :: "'d rp_target \<Rightarrow> string \<Rightarrow> ('d, unit) pact" where
  "handle_write_memory_command t inp = (case strchr (tl inp) CHR '':'' of
     None \<Rightarrow> reply RP_ERR
   | Some (par, cp) \<Rightarrow> (case rp_decode_mem par of
       None \<Rightarrow> reply RP_ERR
     | Some (addr, len) \<Rightarrow>
         if unat len > RP_PARAM_DATABYTES_MAX then reply RP_ERR
         else (case rp_decode_data (tl cp) RP_PARAM_DATABYTES_MAX of
             None \<Rightarrow> reply RP_ERR
           | Some data \<Rightarrow>
               if unat len \<noteq> length data then reply RP_ERR
               else bindM (on_tgt (rt_write_mem t addr data)) reply)))"

section \<open>Running\<close>

definition not_running :: "'d proxy \<Rightarrow> 'd proxy" where
  "not_running p = p\<lparr>rp_target_out_valid := False, rp_target_running := False\<rparr>"

text \<open>
  The signal and the address pointer of a running command: an error, or the signal and the
  text of the address, if there is one.
\<close>

definition decode_running :: "string \<Rightarrow> (u32 \<times> string option) option" where
  "decode_running inp =
     (if peek inp \<in> {CHR ''C'', CHR ''S'', CHR ''W''} then
        (if CHR '';'' \<in> set (cstr (tl inp)) then
           (case rp_decode_uint32 (tl inp) CHR '';'' of
              None \<Rightarrow> None
            | Some (sig, rest) \<Rightarrow> Some (sig, Some rest))
         else (case rp_decode_uint32 (tl inp) NUL of
              None \<Rightarrow> None
            | Some (sig, _) \<Rightarrow> Some (sig, None)))
      else Some (0, if peek (tl inp) \<noteq> NUL then Some (tl inp) else None))"

text \<open>Waiting for the target after it was started.\<close>

definition strcpy_status :: "('d, unit) pact" where
  "strcpy_status = bindM (getM status_string) (\<lambda>s.
     seqM (assertM (length s < RP_PARAM_INOUTBUF_SIZE)) (set_out s))"

definition wait_started :: "nat \<Rightarrow> 'd rp_target \<Rightarrow> ('d, unit) pact" where
  "wait_started k t =
     seqM (modM (\<lambda>p. p\<lparr>rp_target_running := True, rp_target_out_valid := True\<rparr>))
    (bindM (getM status_string) (\<lambda>st.
     bindM (on_both (rt_wait_partial t True st RP_PARAM_INOUTBUF_SIZE (rp_console_output k True)))
       (\<lambda>(ret, st', implemented, more).
     seqM (modM (\<lambda>p. p\<lparr>status_string := st'\<rparr>))
       (if ret \<noteq> RP_OK then seqM (reply ret) (modM not_running)
        else bindM (used implemented) (\<lambda>imp.
          if \<not> imp then
            bindM (on_both (rt_wait t st' RP_PARAM_INOUTBUF_SIZE (rp_console_output k True)))
              (\<lambda>(ret2, st2, imp2).
            seqM (modM (\<lambda>p. p\<lparr>status_string := st2\<rparr>))
           (bindM (used imp2) (\<lambda>i2. seqM (assertM i2)
             (seqM (if ret2 = RP_OK then strcpy_status else reply ret2) (modM not_running)))))
          else bindM (used more) (\<lambda>m.
            whenM (\<not> m) (seqM strcpy_status (modM not_running))))))))"

definition handle_running_commands :: "nat \<Rightarrow> 'd rp_target \<Rightarrow> string \<Rightarrow> ('d, unit) pact" where
  "handle_running_commands k t inp =
     (let c = peek inp; step = (c = CHR ''S'' \<or> c = CHR ''s''); go = (c = CHR ''W'' \<or> c = CHR ''w'') in
      case decode_running inp of
        None \<Rightarrow> reply RP_ERR
      | Some (sig, addr_ptr) \<Rightarrow>
          let run = (\<lambda>m. bindM (on_tgt m) (\<lambda>ret.
            if ret \<noteq> RP_OK then reply ret else wait_started k t)) in
          if go then run (rt_go_waiting t sig)
          else (case addr_ptr of
              Some a \<Rightarrow> (case rp_decode_uint64 a NUL of
                  None \<Rightarrow> reply RP_ERR
                | Some (addr, _) \<Rightarrow> run (rt_resume_from_addr t step sig addr))
            | None \<Rightarrow> run (rt_resume_from_current t step sig)))"

section \<open>Sessions\<close>

text \<open>The result is the value that \<open>main\<close> assigns to \<open>do_connect\<close>.\<close>

definition handle_kill_command :: "nat \<Rightarrow> 'd rp_target \<Rightarrow> ('d, int) pact" where
  "handle_kill_command k t = seqM (on_tgt (rt_kill t))
    (bindM (getM extended_protocol) (\<lambda>ext. bindM (getM can_restart) (\<lambda>cr.
     if \<not> ext then
       seqM (on_tgt (rt_close t)) (seqM dbg_sock_close
         (if \<not> cr then failM (Exit 0 ''session killed'') else retM 0))
     else if \<not> cr then retM (-1)
     else bindM (on_tgt (rt_restart t)) (\<lambda>ret.
       seqM (assertM (ret \<noteq> RP_NOSUPP))
        (if ret \<noteq> RP_OK then
           seqM (on_tgt (rt_close t)) (seqM (reply RP_ERR) (seqM (put_out k) (seqM dbg_sock_close (retM 0))))
         else retM 1)))))"

definition handle_thread_alive_command :: "'d rp_target \<Rightarrow> string \<Rightarrow> ('d, unit) pact" where
  "handle_thread_alive_command t inp = (case rp_decode_uint64 (tl inp) NUL of
     None \<Rightarrow> reply RP_ERR
   | Some (ref, _) \<Rightarrow> bindM (on_tgt (rt_is_thread_alive t ref)) (\<lambda>(ret, alive).
       if ret \<noteq> RP_OK then reply ret
       else bindM (used alive) (\<lambda>a. reply (if a then RP_OK else RP_ERR))))"

definition handle_restart_target_command :: "nat \<Rightarrow> 'd rp_target \<Rightarrow> ('d, int) pact" where
  "handle_restart_target_command k t = bindM (getM extended_protocol) (\<lambda>ext.
     if \<not> ext then retM 0
     else bindM (getM can_restart) (\<lambda>cr. seqM (assertM cr)
       (bindM (on_tgt (rt_restart t)) (\<lambda>ret.
         if ret \<noteq> RP_OK then
           seqM (on_tgt (rt_close t)) (seqM (reply RP_ERR) (seqM (put_out k) (seqM dbg_sock_close (retM (-1)))))
         else retM 1))))"

definition handle_detach_command :: "nat \<Rightarrow> 'd rp_target \<Rightarrow> ('d, unit) pact" where
  "handle_detach_command k t =
     seqM (seqM (on_tgt (rt_disconnect t)) (on_tgt (rt_close t)))
    (seqM (put_out k) (seqM dbg_sock_close
    (bindM (getM can_restart) (\<lambda>cr.
       if \<not> cr then failM (Exit 0 ''debugger detached'') else retM ()))))"

section \<open>Queries and breakpoints\<close>

definition unsupported_queries :: "string list" where
  "unsupported_queries = [''Symbol:'', ''TStatus:'', ''ThreadExtraInfo,'', ''fThreadInfo:'',
     ''sThreadInfo:'', ''fProcessInfo'', ''sProcessInfo'']"

definition query_list :: "'d rp_target \<Rightarrow> string \<Rightarrow> ('d, unit) pact" where
  "query_list t inp = (case rp_decode_list_query (drop 2 inp) of
     None \<Rightarrow> reply RP_ERR
   | Some (first, max_found, arg) \<Rightarrow>
       if unat max_found > 255 then reply RP_ERR
       else bindM (on_tgt (rt_list_query t first arg (unat max_found))) (\<lambda>(ret, found, dn).
         if ret \<noteq> RP_OK \<or> length found > unat max_found then reply ret
         else bindM (liftM (rp_encode_list_query_response dn arg found RP_PARAM_INOUTBUF_SIZE))
           (\<lambda>r. case r of None \<Rightarrow> reply RP_ERR | Some s \<Rightarrow> set_out s)))"

definition query_process :: "'d rp_target \<Rightarrow> string \<Rightarrow> ('d, unit) pact" where
  "query_process t inp = (case rp_decode_process_query (drop 2 inp) of
     (msk, ref) \<Rightarrow>
       bindM (on_tgt (rt_process_query t msk ref
         \<lparr>thread_id = 0, exists = 0, display = [], thread_name = [], more_display = []\<rparr>))
         (\<lambda>(ret, msk', ref', info).
         if ret \<noteq> RP_OK then reply ret
         else bindM (liftM (rp_encode_process_query_response msk' ref' info RP_PARAM_INOUTBUF_SIZE))
           (\<lambda>r. case r of None \<Rightarrow> reply RP_ERR | Some s \<Rightarrow> set_out s)))"

definition handle_query_command :: "nat \<Rightarrow> 'd rp_target \<Rightarrow> string \<Rightarrow> nat \<Rightarrow> ('d, unit) pact" where
  "handle_query_command k t inp in_len =
     (if in_len = 1 then retM ()
      else if starts ''Offsets'' (tl inp) then
        bindM (on_tgt (rt_offsets_query t)) (\<lambda>(ret, txt, dat, bss).
          if ret = RP_OK then
            set_out (''Text='' @ sprintf_Lx txt @ '';Data='' @ sprintf_Lx dat @ '';Bss='' @ sprintf_Lx bss)
          else reply ret)
      else if starts ''CRC:'' (tl inp) then
        (case rp_decode_uint64 (drop 5 inp) CHR '','' of
           None \<Rightarrow> reply RP_ERR
         | Some (addr, rest) \<Rightarrow> (case rp_decode_uint32 rest NUL of
             None \<Rightarrow> reply RP_ERR
           | Some (len, _) \<Rightarrow> bindM (on_tgt (rt_crc_query t addr (unat len))) (\<lambda>(ret, val).
               if ret = RP_OK then set_out (CHR ''C'' # sprintf_Lx (ucast val)) else reply ret)))
      else if list_ex (\<lambda>q. starts q (tl inp)) unsupported_queries then reply RP_NOSUPP
      else if starts ''Rcmd,'' (tl inp) then
        seqM (modM (\<lambda>p. p\<lparr>rp_target_out_valid := True\<rparr>))
       (bindM (on_both (rt_remcmd t (drop 6 inp) (rp_console_output k True) (rp_data_output k True)))
         (\<lambda>ret. seqM (modM (\<lambda>p. p\<lparr>rp_target_out_valid := False\<rparr>)) (reply ret)))
      else if peek (tl inp) = CHR ''C'' then
        bindM (on_tgt (rt_current_thread_query t)) (\<lambda>(ret, ref).
          if ret = RP_OK then set_out (''QC'' @ sprintf_Lx ref) else reply ret)
      else if peek (tl inp) = CHR ''L'' then query_list t inp
      else if peek (tl inp) = CHR ''P'' then query_process t inp
      else bindM (on_tgt (rt_raw_query t inp RP_PARAM_INOUTBUF_SIZE)) (\<lambda>(ret, out).
        if ret \<noteq> RP_OK then reply ret else set_out out))"

definition handle_breakpoint_command :: "'d rp_target \<Rightarrow> string \<Rightarrow> ('d, unit) pact" where
  "handle_breakpoint_command t inp = (case rp_decode_break inp of
     None \<Rightarrow> reply RP_ERR
   | Some (type, addr, len) \<Rightarrow>
       bindM (on_tgt (if peek inp = CHR ''Z'' then rt_add_break t type addr len
                      else rt_remove_break t type addr len)) reply)"

end
