(* ===== verification/Proxy_Main.thy ===== *)
theory Proxy_Main
  imports Proxy_Handlers
begin

text \<open>
  The loop of \<open>main\<close> in gdbproxy.c: one round opens the target and waits for a debugger where
  that is due, connects to the target, receives one packet and dispatches it. The parameter
  \<open>k\<close> bounds the rounds of the loops that wait for the outside (opening the target, the two
  loops of \<open>rp_putpkt\<close>).
\<close>

section \<open>One round\<close>

text \<open>The part for an input error.\<close>

definition close_session :: "'d rp_target \<Rightarrow> ('d, unit) pact" where
  "close_session t = bindM (getM input_error) (\<lambda>err. whenM err
     (seqM (modM (\<lambda>p. p\<lparr>input_error := False\<rparr>))
     (seqM (on_tgt (rt_close t))
     (seqM dbg_sock_close (modM (\<lambda>p. p\<lparr>do_reinitialize := True\<rparr>))))))"

text \<open>\<open>do ret = open (); while (ret == ERR)\<close>, then the test of the value.\<close>

primrec open_target :: "nat \<Rightarrow> 'd rp_target \<Rightarrow> ('d, unit) pact" where
  "open_target 0 t = failM Out_of_fuel"
| "open_target (Suc k) t = bindM (on_tgt (rt_open t)) (\<lambda>ret. case ret of
     RP_ERR \<Rightarrow> open_target k t
   | RP_OK \<Rightarrow> retM ()
   | RP_NOSUPP \<Rightarrow> failM (Exit 0 ''target does not support repeated opens''))"

fun next_conn :: "conn option list \<Rightarrow> (conn \<times> conn option list) option" where
  "next_conn [] = None"
| "next_conn (None # cs) = next_conn cs"
| "next_conn (Some c # cs) = Some (c, cs)"

definition accept_debugger :: "('d, unit) pact" where
  "accept_debugger = bindM (getM pending) (\<lambda>cs. case next_conn cs of
     None \<Rightarrow> failM Blocked
   | Some (c, rest) \<Rightarrow> modM (\<lambda>p. p\<lparr>cn := c, pending := rest\<rparr>))"

definition reinitialize :: "nat \<Rightarrow> 'd rp_target \<Rightarrow> ('d, unit) pact" where
  "reinitialize k t = bindM (getM do_reinitialize) (\<lambda>b. whenM b
     (seqM (modM (\<lambda>p. p\<lparr>do_reinitialize := False\<rparr>))
     (seqM (open_target k t)
     (seqM (modM (\<lambda>p. p\<lparr>extended_protocol := False\<rparr>))
     (seqM accept_debugger (modM (\<lambda>p. p\<lparr>do_connect := True\<rparr>)))))))"

text \<open>\<open>False\<close> is the \<open>continue\<close> after a target that could not be connected.\<close>

definition connect_target :: "'d rp_target \<Rightarrow> ('d, bool) pact" where
  "connect_target t = bindM (getM id) (\<lambda>p.
     if \<not> do_connect p then retM True
     else seqM (modM (\<lambda>p. p\<lparr>do_connect := False\<rparr>))
       (bindM (on_tgt (rt_connect t (status_string p) RP_PARAM_INOUTBUF_SIZE (can_restart p)))
         (\<lambda>(ret, st, cr). seqM (modM (\<lambda>p. p\<lparr>status_string := st, can_restart := cr\<rparr>))
           (if ret \<noteq> RP_OK then
              seqM (on_tgt (rt_close t)) (seqM dbg_sock_close
                (seqM (modM (\<lambda>p. p\<lparr>do_reinitialize := True\<rparr>)) (retM False)))
            else retM True))))"

text \<open>A timeout while the target runs: look whether it stopped.\<close>

definition poll_target :: "nat \<Rightarrow> 'd rp_target \<Rightarrow> ('d, unit) pact" where
  "poll_target k t = bindM (getM id) (\<lambda>p. whenM (rp_target_running p)
     (bindM (on_both (rt_wait_partial t False (status_string p) RP_PARAM_INOUTBUF_SIZE
         (rp_console_output k (rp_target_out_valid p))))
       (\<lambda>(ret, st, implemented, more).
     seqM (modM (\<lambda>p. p\<lparr>status_string := st\<rparr>))
    (bindM (used implemented) (\<lambda>imp. seqM (assertM imp)
    (bindM (if ret \<noteq> RP_OK then retM False else used more) (\<lambda>m.
       whenM (ret \<noteq> RP_OK \<or> \<not> m)
         (seqM (modM (\<lambda>p. p\<lparr>rp_target_running := False\<rparr>))
         (seqM (if ret = RP_OK then strcpy_status else reply ret)
         (seqM (modM (\<lambda>p. p\<lparr>rp_target_out_valid := False\<rparr>)) (put_out k)))))))))))"

text \<open>
  The \<open>switch\<close> on the first character; \<open>True\<close> goes on to the reply, \<open>False\<close> is a
  \<open>continue\<close>.
\<close>

definition extended_operation :: "('d, unit) pact" where
  "extended_operation = bindM (getM can_restart) (\<lambda>cr. whenM cr
     (seqM (modM (\<lambda>p. p\<lparr>extended_protocol := True\<rparr>)) (reply RP_OK)))"

definition and_reply :: "('d, unit) pact \<Rightarrow> ('d, bool) pact" where
  "and_reply m = seqM m (retM True)"

definition dispatch :: "nat \<Rightarrow> 'd rp_target \<Rightarrow> string \<Rightarrow> nat \<Rightarrow> ('d, bool) pact" where
  "dispatch k t inp in_len = (let c = peek inp in
     if c = CHR ''!'' then and_reply extended_operation
     else if c = CHR ''?'' then and_reply (bindM (getM status_string) set_out)
     else if c = CHR ''A'' then retM True
     else if c \<in> {CHR ''C'', CHR ''S'', CHR ''W'', CHR ''c'', CHR ''s'', CHR ''w''} then
       seqM (handle_running_commands k t inp) (getM (\<lambda>p. \<not> rp_target_running p))
     else if c = CHR ''D'' then
       seqM (handle_detach_command k t)
         (seqM (modM (\<lambda>p. p\<lparr>do_reinitialize := True\<rparr>)) (retM False))
     else if c = CHR ''g'' then and_reply (handle_read_registers_command t)
     else if c = CHR ''G'' then and_reply (handle_write_registers_command t inp)
     else if c = CHR ''H'' then and_reply (handle_thread_commands t inp in_len)
     else if c = CHR ''k'' then
       bindM (handle_kill_command k t) (\<lambda>r.
         seqM (modM (\<lambda>p. p\<lparr>do_connect := r \<noteq> 0, input_error := input_error p \<or> r = -1,
           do_reinitialize := do_reinitialize p \<or> r = 0\<rparr>)) (retM False))
     else if c = CHR ''m'' then and_reply (handle_read_memory_command t inp)
     else if c = CHR ''M'' then and_reply (handle_write_memory_command t inp)
     else if c = CHR ''p'' then and_reply (handle_read_single_register_command t inp)
     else if c = CHR ''P'' then and_reply (handle_write_single_register_command t inp)
     else if c = CHR ''q'' then and_reply (handle_query_command k t inp in_len)
     else if c = CHR ''R'' then
       bindM (handle_restart_target_command k t) (\<lambda>r.
         seqM (modM (\<lambda>p. p\<lparr>do_connect := r \<noteq> 0,
           do_reinitialize := do_reinitialize p \<or> r = -1\<rparr>)) (retM (r = 0)))
     else if c = CHR ''t'' then and_reply (handle_search_memory_command inp)
     else if c = CHR ''T'' then and_reply (handle_thread_alive_command t inp)
     else if c = CHR ''Z'' \<or> c = CHR ''z'' then and_reply (handle_breakpoint_command t inp)
     else retM True)"

text \<open>
  A packet: \<open>in_buf\<close> has the text, NUL, and what earlier packets left (\<open>stale_in\<close>).
\<close>

definition handle_packet :: "nat \<Rightarrow> 'd rp_target \<Rightarrow> string \<Rightarrow> ('d, unit) pact" where
  "handle_packet k t pkt = bindM (getM stale_in) (\<lambda>stale.
     let inp = pkt @ NUL # stale in
     seqM (assertM (length pkt = length (cstr inp)))
    (seqM (reply RP_NOSUPP)
    (seqM (modM (\<lambda>p. p\<lparr>rp_target_out_valid := False\<rparr>))
    (bindM (dispatch k t inp (length pkt)) (\<lambda>send.
     bindM (getM input_error) (\<lambda>err. whenM (send \<and> \<not> err) (put_out k)))))))"

definition receive :: "nat \<Rightarrow> 'd rp_target \<Rightarrow> ('d, unit) pact" where
  "receive k t = bindM (getM rp_target_running) (\<lambda>running.
     bindM (on_conn (rp_getpkt RP_PARAM_INOUTBUF_SIZE running)) (\<lambda>ret. case ret of
       Rx_error \<Rightarrow> modM (\<lambda>p. p\<lparr>input_error := True\<rparr>)
     | Rx_ctrl_c \<Rightarrow> whenM running (on_tgt (rt_stop t))
     | Rx_timeout \<Rightarrow> poll_target k t
     | Rx_ack \<Rightarrow> retM ()
     | Rx_nak \<Rightarrow> retM ()
     | Rx_packet pkt \<Rightarrow> handle_packet k t pkt))"

definition main_step :: "nat \<Rightarrow> 'd rp_target \<Rightarrow> ('d, unit) pact" where
  "main_step k t = seqM (close_session t) (seqM (reinitialize k t)
     (bindM (connect_target t) (\<lambda>go. whenM go (receive k t))))"

text \<open>The start of the loop, and a number of rounds.\<close>

definition start_state :: "'d \<Rightarrow> conn option list \<Rightarrow> u8 list \<Rightarrow> u8 list \<Rightarrow> string \<Rightarrow> 'd proxy" where
  "start_state d cs data avail stale = \<lparr>tgt = d, cn = \<lparr>rx = [RxEof], tx = [], wr = []\<rparr>, pending = cs,
     out_buf = [], status_string = [], extended_protocol = False, can_restart = False,
     rp_target_out_valid = False, rp_target_running = False, do_reinitialize = True,
     do_connect = True, input_error = False, stack_data = data, stack_avail = avail,
     stale_in = stale\<rparr>"

primrec rounds :: "nat \<Rightarrow> 'd rp_target \<Rightarrow> nat \<Rightarrow> ('d, unit) pact" where
  "rounds k t 0 = retM ()"
| "rounds k t (Suc n) = seqM (main_step k t) (rounds k t n)"

text \<open>The rounds as a transition system.\<close>

inductive main_steps :: "nat \<Rightarrow> 'd rp_target \<Rightarrow> 'd proxy \<Rightarrow> 'd proxy \<Rightarrow> bool" for k t where
  ms_start: "main_steps k t p p"
| ms_step: "main_steps k t p q \<Longrightarrow> main_step k t q = (Inr (), r) \<Longrightarrow> main_steps k t p r"

inductive_cases main_stepsE: "main_steps k t p q"

lemma main_steps_trans: "main_steps k t q r \<Longrightarrow> main_steps k t p q \<Longrightarrow> main_steps k t p r"
  by (induction rule: main_steps.induct) (auto intro: ms_step)

lemma rounds_steps: "rounds k t n p = (Inr (), q) \<Longrightarrow> main_steps k t p q"
proof (induction n arbitrary: p)
  case 0
  then show ?case
    by (simp add: retM_apply ms_start)
next
  case (Suc n)
  then obtain r where r: "main_step k t p = (Inr (), r)" "main_steps k t r q"
    by (auto simp: seqM_apply split: prod.splits sum.splits)
  show ?case
    by (rule main_steps_trans [OF r(2) ms_step [OF ms_start r(1)]])
qed

end
