(* ===== verification/Elvees.thy ===== *)
theory Elvees
  imports Proxy_Main Target_Run
begin

text \<open>
  remote-elvees.c: the operations of \<open>rp_target\<close> for an Elvees processor, over the target layer
  of target.c. The host is little-endian, as the code assumes where it takes the bytes of an
  \<open>unsigned\<close> apart.

  The state is \<open>target.device\<close>: \<open>Closed\<close> while the pointer is NULL (with the adapter hardware
  that the first open will find), and the target afterwards. A byte buffer with a length is a
  byte list, except for the register reads, which fill arrays of the caller.
\<close>

section \<open>The device\<close>

datatype 'w elvees = Closed "'w aworld" | Device "'w target"

type_synonym ('w, 'a) eact = "('w elvees, 'a) act"

text \<open>\<open>assert (target.device != 0)\<close> and the rest of an operation.\<close>

definition with_device :: "('w, 'a) tact \<Rightarrow> ('w, 'a) eact" where
  "with_device m s = (case s of
     Closed w \<Rightarrow> (Inl Assert_fail, s)
   | Device t \<Rightarrow> (case m t of (r, t') \<Rightarrow> (r, Device t')))"

definition RP_ELVEES_NUM_REGS :: nat where "RP_ELVEES_NUM_REGS = 72"
definition RP_ELVEES_REG_BYTES :: nat where "RP_ELVEES_REG_BYTES = RP_ELVEES_NUM_REGS * 4"
definition RP_ELVEES_REGNUM_FP0 :: nat where "RP_ELVEES_REGNUM_FP0 = 38"
definition RP_ELVEES_MAX_ADDRESS :: u64 where "RP_ELVEES_MAX_ADDRESS = 0xFFFFFFFF"

section \<open>Sessions\<close>

text \<open>
  \<open>opts_ok\<close>: the target options on the command line are known; \<open>found\<close> are the results of
  the adapter open functions.
\<close>

definition elvees_open :: "bool \<Rightarrow> 'w adapter option list \<Rightarrow> ('w, retval) eact" where
  "elvees_open opts_ok found s =
     (if \<not> opts_ok then (Inr RP_ERR, s)
      else case s of
        Closed w \<Rightarrow> (case target_open found w of
            (Inl e, w') \<Rightarrow> (Inl e, Closed w')
          | (Inr t, _) \<Rightarrow> (Inr RP_OK, Device t))
      | Device t \<Rightarrow> (Inr RP_OK, s))"

definition elvees_close :: "('w, unit) eact" where
  "elvees_close = with_device target_resume"

text \<open>One register in the form of a status reply, least significant byte first.\<close>

definition elvees_out_treg :: "nat \<Rightarrow> ('w, string) tact" where
  "elvees_out_treg reg_no = seqM (assertM (reg_no < RP_ELVEES_NUM_REGS))
     (bindM (target_read_register reg_no) (\<lambda>v. retM
       ([hex_char (reg_no div 16 mod 16), hex_char (reg_no mod 16), CHR '':''] @
        concat (map (\<lambda>i. [hex_char (unat (drop_bit (i + 4) v AND 0xf)), hex_char (unat (drop_bit i v AND 0xf))])
          [0, 8, 16, 24]) @ '';'')))"

definition status_of :: "nat \<Rightarrow> ('w, string) tact" where
  "status_of sig = bindM (elvees_out_treg 37) (\<lambda>pc. bindM (elvees_out_treg 30) (\<lambda>fp.
     retM (CHR ''T'' # hex_char (sig div 10) # hex_char (sig mod 10) # pc @ fp)))"

definition elvees_connect :: "string \<Rightarrow> nat \<Rightarrow> bool \<Rightarrow> ('w, retval \<times> string \<times> bool) eact" where
  "elvees_connect st len can = with_device (seqM (assertM (len \<ge> 34))
     (seqM target_stop (bindM (status_of 5) (\<lambda>s. retM (RP_OK, s, True)))))"

definition elvees_disconnect :: "('w, retval) eact" where
  "elvees_disconnect = retM RP_OK"

definition elvees_kill :: "('w, unit) eact" where
  "elvees_kill = retM ()"

definition elvees_restart :: "('w, retval) eact" where
  "elvees_restart = with_device (seqM target_restart (retM RP_OK))"

definition elvees_stop :: "('w, unit) eact" where
  "elvees_stop = with_device target_stop"

definition elvees_set_gen_thread :: "rp_thread_ref \<Rightarrow> ('w, retval) eact" where
  "elvees_set_gen_thread ref = retM RP_NOSUPP"

definition elvees_set_ctrl_thread :: "rp_thread_ref \<Rightarrow> ('w, retval) eact" where
  "elvees_set_ctrl_thread ref = retM RP_NOSUPP"

text \<open>\<open>*alive\<close> is not set.\<close>

definition elvees_is_thread_alive :: "rp_thread_ref \<Rightarrow> ('w, retval \<times> bool option) eact" where
  "elvees_is_thread_alive ref = retM (RP_OK, None)"

section \<open>Registers\<close>

text \<open>\<open>memcpy (buf + off, bytes, n)\<close>.\<close>

definition put_bytes :: "nat \<Rightarrow> u8 list \<Rightarrow> u8 list \<Rightarrow> u8 list" where
  "put_bytes off bs bfr = take off bfr @ bs @ drop (off + length bs) bfr"

fun fill_regs :: "nat list \<Rightarrow> u8 list \<Rightarrow> u8 list \<Rightarrow> ('w, u8 list \<times> u8 list) tact" where
  "fill_regs [] data avail = retM (data, avail)"
| "fill_regs (i # is) data avail = bindM (target_read_register i) (\<lambda>val.
     fill_regs is (put_bytes (i * 4) (le_bytes val) data) (put_bytes (i * 4) [1, 1, 1, 1] avail))"

definition elvees_read_registers ::
  "u8 list \<Rightarrow> u8 list \<Rightarrow> ('w, retval \<times> u8 list \<times> u8 list \<times> nat) eact" where
  "elvees_read_registers data avail = with_device
     (seqM (assertM (length data \<ge> RP_ELVEES_REG_BYTES))
     (bindM (fill_regs [0..<RP_ELVEES_REGNUM_FP0] data avail) (\<lambda>(d, a).
       retM (RP_OK, d, a, RP_ELVEES_REG_BYTES))))"

fun write_regs :: "nat list \<Rightarrow> u8 list \<Rightarrow> ('w, unit) tact" where
  "write_regs [] bfr = retM ()"
| "write_regs (i # is) bfr =
     (if i * 4 + 4 > length bfr then retM ()
      else seqM (target_write_register i (le_word (take 4 (drop (i * 4) bfr)))) (write_regs is bfr))"

definition elvees_write_registers :: "u8 list \<Rightarrow> ('w, retval) eact" where
  "elvees_write_registers bfr = with_device
     (seqM (assertM (length bfr > 0)) (seqM (assertM (length bfr \<le> RP_ELVEES_REG_BYTES))
     (seqM (write_regs [0..<RP_ELVEES_NUM_REGS] bfr) (retM RP_OK))))"

definition elvees_read_single_register ::
  "u32 \<Rightarrow> u8 list \<Rightarrow> u8 list \<Rightarrow> ('w, retval \<times> u8 list \<times> u8 list \<times> nat) eact" where
  "elvees_read_single_register reg_no data avail = with_device
     (seqM (assertM (length data \<ge> RP_ELVEES_REG_BYTES))
     (if unat reg_no \<ge> RP_ELVEES_NUM_REGS then retM (RP_ERR, data, avail, 0)
      else bindM (target_read_register (unat reg_no)) (\<lambda>val.
        retM (RP_OK, put_bytes 0 (le_bytes val) data, put_bytes 0 [1, 1, 1, 1] avail, 4))))"

definition elvees_write_single_register :: "u32 \<Rightarrow> u8 list \<Rightarrow> ('w, retval) eact" where
  "elvees_write_single_register reg_no bfr = with_device
     (seqM (assertM (length bfr = 4))
     (if unat reg_no \<ge> RP_ELVEES_NUM_REGS then retM RP_ERR
      else seqM (target_write_register (unat reg_no) (le_word bfr)) (retM RP_OK)))"

section \<open>Memory\<close>

text \<open>The bytes of a word that a read which starts inside it delivers.\<close>

definition head_bytes :: "nat \<Rightarrow> nat \<Rightarrow> u32 \<Rightarrow> u8 list" where
  "head_bytes offset nbytes data =
     (if offset = 1 then ucast (drop_bit 8 data) #
        (if nbytes > 1 then [ucast (drop_bit 16 data)] else []) @
        (if nbytes > 2 then [ucast (drop_bit 24 data)] else [])
      else if offset = 2 then ucast (drop_bit 16 data) #
        (if nbytes > 1 then [ucast (drop_bit 24 data)] else [])
      else [ucast (drop_bit 24 data)])"

text \<open>The aligned part of a read: whole words, then the bytes of a last one.\<close>

definition read_aligned :: "u64 \<Rightarrow> nat \<Rightarrow> ('w, u8 list) tact" where
  "read_aligned addr req =
     bindM (if req \<ge> 4 then bindM (target_read_block (ucast addr) (req div 4)) (\<lambda>ws.
              retM (concat (map le_bytes ws)))
            else retM []) (\<lambda>bs.
     if req mod 4 = 0 then retM bs
     else bindM (target_read_word (ucast (addr + of_nat (req div 4 * 4)))) (\<lambda>w.
       retM (bs @ take (req mod 4) (le_bytes w))))"

definition read_bytes :: "u64 \<Rightarrow> nat \<Rightarrow> ('w, u8 list) tact" where
  "read_bytes addr req = (let offset = unat (addr AND 3); nbytes = min (4 - offset) req in
     if offset = 0 then read_aligned addr req
     else bindM (target_read_word (ucast (addr AND NOT 3))) (\<lambda>data.
       let bs = head_bytes offset nbytes data in
       if req - nbytes = 0 then retM bs
       else bindM (read_aligned (addr + of_nat nbytes) (req - nbytes)) (\<lambda>rest. retM (bs @ rest))))"

definition elvees_read_mem :: "u64 \<Rightarrow> nat \<Rightarrow> ('w, retval \<times> u8 list) eact" where
  "elvees_read_mem addr req_size = with_device
     (seqM (assertM (req_size > 0))
     (if addr > RP_ELVEES_MAX_ADDRESS then retM (RP_ERR, [])
      else let req = (if addr + of_nat req_size > RP_ELVEES_MAX_ADDRESS + 1
                      then unat (RP_ELVEES_MAX_ADDRESS + 1 - addr) else req_size) in
        bindM (read_bytes addr req) (\<lambda>bs. retM (RP_OK, bs))))"

text \<open>A word with \<open>nbytes\<close> bytes of \<open>bfr\<close> in it from the byte \<open>offset\<close> on.\<close>

definition put_byte :: "nat \<Rightarrow> u8 \<Rightarrow> u32 \<Rightarrow> u32" where
  "put_byte i b data = (data AND NOT (push_bit (8 * i) 0xff)) OR push_bit (8 * i) (ucast b)"

definition head_word :: "nat \<Rightarrow> nat \<Rightarrow> u8 list \<Rightarrow> u32 \<Rightarrow> u32" where
  "head_word offset nbytes bfr data =
     (if offset = 1 then
        (let d1 = put_byte 1 (bfr ! 0) data;
             d2 = (if nbytes > 1 then put_byte 2 (bfr ! 1) d1 else d1)
         in if nbytes > 2 then put_byte 3 (bfr ! 2) d2 else d2)
      else if offset = 2 then
        (let d1 = put_byte 2 (bfr ! 0) data
         in if nbytes > 1 then put_byte 3 (bfr ! 1) d1 else d1)
      else put_byte 3 (bfr ! 0) data)"

definition write_aligned :: "u64 \<Rightarrow> u8 list \<Rightarrow> ('w, unit) tact" where
  "write_aligned addr bfr = (let size = length bfr; nwords = size div 4 in
     seqM (whenM (size \<ge> 4) (target_write_block (ucast addr) nwords (le_words bfr)))
       (if size mod 4 = 0 then retM ()
        else bindM (target_read_word (ucast (addr + of_nat (nwords * 4)))) (\<lambda>data.
          target_write_word (ucast (addr + of_nat (nwords * 4)))
            (le_word (drop (nwords * 4) bfr @ drop (size mod 4) (le_bytes data))))))"

definition write_bytes_at :: "u64 \<Rightarrow> u8 list \<Rightarrow> ('w, unit) tact" where
  "write_bytes_at addr bfr = (let offset = unat (addr AND 3); nbytes = min (4 - offset) (length bfr) in
     if offset = 0 then write_aligned addr bfr
     else bindM (target_read_word (ucast (addr AND NOT 3))) (\<lambda>data.
       seqM (target_write_word (ucast (addr AND NOT 3)) (head_word offset nbytes bfr data))
         (if length bfr - nbytes = 0 then retM ()
          else write_aligned (addr + of_nat nbytes) (drop nbytes bfr))))"

definition elvees_write_mem :: "u64 \<Rightarrow> u8 list \<Rightarrow> ('w, retval) eact" where
  "elvees_write_mem addr bfr = with_device
     (if length bfr = 0 then retM RP_OK
      else if addr > RP_ELVEES_MAX_ADDRESS then retM RP_ERR
      else if addr + of_nat (length bfr) - 1 > RP_ELVEES_MAX_ADDRESS then retM RP_ERR
      else seqM (write_bytes_at addr bfr) (retM RP_OK))"

section \<open>Running\<close>

definition elvees_resume_from_current :: "bool \<Rightarrow> u32 \<Rightarrow> ('w, retval) eact" where
  "elvees_resume_from_current step sig =
     with_device (seqM (if step then target_step else target_resume) (retM RP_OK))"

definition elvees_resume_from_addr :: "bool \<Rightarrow> u32 \<Rightarrow> u64 \<Rightarrow> ('w, retval) eact" where
  "elvees_resume_from_addr step sig addr = with_device (seqM (target_run (ucast addr)) (retM RP_OK))"

definition elvees_go_waiting :: "u32 \<Rightarrow> ('w, retval) eact" where
  "elvees_go_waiting sig = retM RP_NOSUPP"

text \<open>An operation that may also print; the device comes with the connection.\<close>

definition dev_part :: "('d, 'a) act \<Rightarrow> ('d \<times> 'c, 'a) act" where
  "dev_part m = zoomM fst (\<lambda>d (_, c). (d, c)) m"

definition conn_part :: "('c, 'a) act \<Rightarrow> ('d \<times> 'c, 'a) act" where
  "conn_part m = zoomM snd (\<lambda>c (d, _). (d, c)) m"

definition elvees_wait_partial :: "bool \<Rightarrow> string \<Rightarrow> nat \<Rightarrow> out_func \<Rightarrow>
    ('w elvees \<times> conn, retval \<times> string \<times> bool option \<times> bool option) act" where
  "elvees_wait_partial first st len outf = dev_part (with_device (seqM (assertM (len \<ge> 34))
     (bindM target_is_stopped (\<lambda>(stopped, aborted).
       if \<not> stopped then retM (RP_OK, st, Some True, Some True)
       else bindM (status_of (if aborted then 6 else 5)) (\<lambda>s.
         retM (RP_OK, s, Some True, Some False))))))"

definition elvees_wait ::
  "string \<Rightarrow> nat \<Rightarrow> out_func \<Rightarrow> ('w elvees \<times> conn, retval \<times> string \<times> bool option) act" where
  "elvees_wait st len outf = retM (RP_NOSUPP, st, Some False)"

section \<open>Queries\<close>

definition elvees_process_query ::
  "u32 \<Rightarrow> rp_thread_ref \<Rightarrow> rp_thread_info \<Rightarrow>
   ('w, retval \<times> u32 \<times> rp_thread_ref \<times> rp_thread_info) eact" where
  "elvees_process_query msk arg info = retM (RP_NOSUPP, msk, arg, info)"

definition elvees_list_query ::
  "bool \<Rightarrow> rp_thread_ref \<Rightarrow> nat \<Rightarrow> ('w, retval \<times> rp_thread_ref list \<times> bool) eact" where
  "elvees_list_query first arg n = retM (RP_NOSUPP, [], False)"

definition elvees_current_thread_query :: "('w, retval \<times> rp_thread_ref) eact" where
  "elvees_current_thread_query = retM (RP_NOSUPP, 0)"

definition elvees_offsets_query :: "('w, retval \<times> u64 \<times> u64 \<times> u64) eact" where
  "elvees_offsets_query = with_device (retM (RP_OK, 0, 0, 0))"

text \<open>\<open>RP_ELVEES_MAX_ADDRESS + 1\<close> is computed in 32 bits here.\<close>

definition elvees_crc_query :: "u64 \<Rightarrow> nat \<Rightarrow> ('w, retval \<times> u32) eact" where
  "elvees_crc_query addr len = with_device
     (if addr > RP_ELVEES_MAX_ADDRESS \<or>
         addr + of_nat len > ucast ((ucast RP_ELVEES_MAX_ADDRESS :: u32) + 1)
      then retM (RP_ERR, 0) else retM (RP_ERR, 0))"

definition elvees_raw_query :: "string \<Rightarrow> nat \<Rightarrow> ('w, retval \<times> string) eact" where
  "elvees_raw_query inp n = retM (RP_NOSUPP, [])"

section \<open>Remote commands\<close>

definition tohex :: "string \<Rightarrow> string" where
  "tohex t = concat (map (\<lambda>c. rp_encode_byte (of_char c)) t)"

text \<open>The nibble is unsigned, so the test always succeeds.\<close>

definition remote_decode_nibble :: "string \<Rightarrow> u32 option" where
  "remote_decode_nibble inp = (let nib = word_of_int (rp_hex_nibble (peek inp)) :: u32 in
     if nib \<ge> 0 then Some nib else None)"

definition remote_decode_byte :: "string \<Rightarrow> u32 option" where
  "remote_decode_byte inp = (case remote_decode_nibble inp of
     None \<Rightarrow> None
   | Some ms_nibble \<Rightarrow> (case remote_decode_nibble (tl inp) of
       None \<Rightarrow> None
     | Some ls_nibble \<Rightarrow> Some (push_bit 4 ms_nibble + ls_nibble)))"

text \<open>
  The loop that turns the hex text into characters in a buffer of 1001; \<open>None\<close> stands for
  the return of an error.
\<close>

function remcmd_text :: "string \<Rightarrow> string \<Rightarrow> fault + string option" where
  "remcmd_text ptr s =
     (if peek ptr = NUL then (if length s < 1001 then Inr (Some s) else Inl Bad_access)
      else case remote_decode_byte ptr of
        None \<Rightarrow> Inr None
      | Some ch \<Rightarrow> if length s < 1001 then remcmd_text (drop 2 ptr) (s @ [char_of (unat ch)])
          else Inl Bad_access)"
  by auto
termination
  by (relation "measure (\<lambda>(ptr, s). length ptr)") (auto simp: peek_def split: list.splits)

declare remcmd_text.simps [simp del]

text \<open>The split at the spaces, with \<open>count\<close> arguments found before; at most four are allowed.\<close>

fun split_args :: "string \<Rightarrow> string \<Rightarrow> nat \<Rightarrow> string list option" where
  "split_args [] cur count = Some [cur]"
| "split_args (c # cs) cur count =
     (if c = CHR '' ''
      then (if count \<ge> 4 then None else map_option ((#) cur) (split_args cs [] (Suc count)))
      else split_args cs (cur @ [c]) count)"

definition elvees_rcmd_erase :: "out_func \<Rightarrow> (conn, retval) act" where
  "elvees_rcmd_erase outf = seqM (outf (tohex ''Erasing target flash - ''))
     (seqM (outf (tohex ('' Erased OK'' @ [CHR 0x0A]))) (retM RP_OK))"

definition remote_commands :: "(string \<times> string) list" where
  "remote_commands = [(''help'', ''This help text''), (''erase'', ''Erase target flash memory'')]"

text \<open>\<open>snprintf ("%-10s %s\n")\<close> into 1000 characters.\<close>

definition help_line :: "string \<times> string \<Rightarrow> string" where
  "help_line nh = take 999 (fst nh @ replicate (10 - length (fst nh)) CHR '' '' @ '' '' @ snd nh @ [CHR 0x0A])"

definition elvees_rcmd_help :: "out_func \<Rightarrow> (conn, retval) act" where
  "elvees_rcmd_help outf = seqM (outf (tohex (''Remote command help:'' @ [CHR 0x0A])))
     (seqM (seqsM (map (\<lambda>nh. outf (tohex (help_line nh))) remote_commands)) (retM RP_OK))"

definition elvees_remcmd :: "string \<Rightarrow> out_func \<Rightarrow> out_func \<Rightarrow> ('w elvees \<times> conn, retval) act" where
  "elvees_remcmd in_buf outf df =
     (if cstr in_buf = [] then retM RP_ERR
      else bindM (liftM (remcmd_text in_buf [])) (\<lambda>r. case r of
        None \<Rightarrow> retM RP_ERR
      | Some txt \<Rightarrow> (case split_args (cstr txt) [] 1 of
          None \<Rightarrow> retM RP_ERR
        | Some args \<Rightarrow>
            if hd args = ''help'' then conn_part (elvees_rcmd_help outf)
            else if hd args = ''erase'' then conn_part (elvees_rcmd_erase outf)
            else retM RP_NOSUPP)))"

section \<open>Breakpoints\<close>

definition elvees_add_break :: "u32 \<Rightarrow> u64 \<Rightarrow> u32 \<Rightarrow> ('w, retval) eact" where
  "elvees_add_break type addr len = with_device
     (if type = 1 then seqM (target_add_break (ucast addr) CHR ''b'') (retM RP_OK)
      else if type = 2 then seqM (target_add_break (ucast addr) CHR ''w'') (retM RP_OK)
      else if type = 3 then seqM (target_add_break (ucast addr) CHR ''r'') (retM RP_OK)
      else if type = 4 then seqM (target_add_break (ucast addr) CHR ''a'') (retM RP_OK)
      else retM RP_NOSUPP)"

definition elvees_remove_break :: "u32 \<Rightarrow> u64 \<Rightarrow> u32 \<Rightarrow> ('w, retval) eact" where
  "elvees_remove_break type addr len =
     with_device (seqM (target_remove_break (ucast addr)) (retM RP_OK))"

section \<open>The table\<close>

definition elvees_target :: "bool \<Rightarrow> 'w adapter option list \<Rightarrow> 'w elvees rp_target" where
  "elvees_target opts_ok found = \<lparr>
     rt_open = elvees_open opts_ok found,
     rt_close = elvees_close,
     rt_connect = elvees_connect,
     rt_disconnect = elvees_disconnect,
     rt_kill = elvees_kill,
     rt_restart = elvees_restart,
     rt_stop = elvees_stop,
     rt_set_gen_thread = elvees_set_gen_thread,
     rt_set_ctrl_thread = elvees_set_ctrl_thread,
     rt_is_thread_alive = elvees_is_thread_alive,
     rt_read_registers = elvees_read_registers,
     rt_write_registers = elvees_write_registers,
     rt_read_single_register = elvees_read_single_register,
     rt_write_single_register = elvees_write_single_register,
     rt_read_mem = elvees_read_mem,
     rt_write_mem = elvees_write_mem,
     rt_resume_from_current = elvees_resume_from_current,
     rt_resume_from_addr = elvees_resume_from_addr,
     rt_go_waiting = elvees_go_waiting,
     rt_wait_partial = elvees_wait_partial,
     rt_wait = elvees_wait,
     rt_process_query = elvees_process_query,
     rt_list_query = elvees_list_query,
     rt_current_thread_query = elvees_current_thread_query,
     rt_offsets_query = elvees_offsets_query,
     rt_crc_query = elvees_crc_query,
     rt_raw_query = elvees_raw_query,
     rt_remcmd = elvees_remcmd,
     rt_add_break = elvees_add_break,
     rt_remove_break = elvees_remove_break\<rparr>"

end
