(* ===== verification/Elvees_Mem.thy ===== *)
theory Elvees_Mem
  imports Elvees Flash_Props
begin

text \<open>
  Byte access to the memory of the target: what \<open>elvees_read_mem\<close> and \<open>elvees_write_mem\<close> do
  when the memory bus behaves as RAM, for adapters with block functions or without.
\<close>

section \<open>Block transfers\<close>

lemma bus_read_words_add:
  "bus_read_words rd addr (m + n) =
   bindM (bus_read_words rd addr m) (\<lambda>ws.
     bindM (bus_read_words rd (addr + of_nat m * 4) n) (\<lambda>rest. retM (ws @ rest)))"
  by (induction m arbitrary: addr) (simp_all add: bindM_assoc algebra_simps)

lemma does_read_chunks:
  assumes f: "\<And>n addr. phys_range addr n \<Longrightarrow> refines_op (live rd view (t_adapter c)) view (f n addr) (bus_read_words rd addr n)"
    and "0 < bw" and "phys_range addr n"
  shows "does rd view c (read_chunks f bw addr n) (bus_read_words rd addr n)"
  using assms(3)
proof (induction n arbitrary: addr rule: less_induct)
  case (less n)
  show ?case
  proof (cases "n = 0")
    case True
    then show ?thesis
      by (simp add: read_chunks.simps [of f bw addr 0] does_intros)
  next
    case False
    define k where "k = min n bw"
    have k: "n - k < n" "n = k + (n - k)" "k \<le> n"
      using False assms(2) by (auto simp: k_def)
    note range = phys_range_take [OF less.prems k(3)] phys_range_drop [OF less.prems k(3)]
    have "does rd view c (read_chunks f bw addr n)
      (bindM (bus_read_words rd addr k) (\<lambda>ws.
        bindM (bus_read_words rd (addr + of_nat k * 4) (n - k)) (\<lambda>rest. retM (ws @ rest))))"
      using False assms(2)
      unfolding read_chunks.simps [of f bw addr n] Let_def k_def [symmetric]
      by simp (intro does_bindM does_on_adapter f less.IH k(1) does_retM range)
    then show ?thesis
      using bus_read_words_add [of rd addr k "n - k"] k(2) by simp
  qed
qed

lemma block_pairs_add:
  assumes "m + n \<le> length data"
  shows "block_pairs addr (m + n) data = block_pairs addr m data @ block_pairs (addr + of_nat m * 4) n (drop m data)"
proof (rule nth_equalityI)
  fix i
  assume "i < length (block_pairs addr (m + n) data)"
  then have i: "i < m + n"
    by (simp add: block_pairs_def)
  show "block_pairs addr (m + n) data ! i =
      (block_pairs addr m data @ block_pairs (addr + of_nat m * 4) n (drop m data)) ! i"
  proof (cases "i < m")
    case True
    then show ?thesis
      by (simp add: block_pairs_def nth_append)
  next
    case False
    then obtain j where j: "i = m + j" "j < n"
      using i by (metis le_add_diff_inverse nat_add_left_cancel_less not_less)
    then show ?thesis
      using assms by (simp add: block_pairs_def nth_append distrib_right add.assoc)
  qed
qed (simp add: block_pairs_def)

lemma block_pairs_take: "n \<le> m \<Longrightarrow> block_pairs addr n (take m data) = block_pairs addr n data"
  by (simp add: block_pairs_def)

lemma does_write_chunks:
  assumes f: "\<And>n addr data. phys_range addr n \<Longrightarrow> n \<le> length data \<Longrightarrow>
      refines_op (live rd view (t_adapter c)) view (f n addr data) (bus_writes (block_pairs addr n data))"
    and "0 < bw" and "n \<le> length data" and "phys_range addr n"
  shows "does rd view c (write_chunks f bw addr n data) (bus_writes (block_pairs addr n data))"
  using assms(3,4)
proof (induction n arbitrary: addr data rule: less_induct)
  case (less n)
  show ?case
  proof (cases "n = 0")
    case True
    then show ?thesis
      by (simp add: write_chunks.simps [of f bw addr 0] block_pairs_def does_intros)
  next
    case False
    define k where "k = min n bw"
    have k: "n - k < n" "k + (n - k) = n" "k \<le> length data" "n - k \<le> length (drop k data)" "k \<le> n"
      using False assms(2) less(2) by (auto simp: k_def)
    note range = phys_range_take [OF less(3) k(5)] phys_range_drop [OF less(3) k(5)]
    have "does rd view c (write_chunks f bw addr n data)
      (seqM (bus_writes (block_pairs addr k data))
         (bus_writes (block_pairs (addr + of_nat k * 4) (n - k) (drop k data))))"
      using False assms(2)
      unfolding write_chunks.simps [of f bw addr n] Let_def k_def [symmetric]
      by simp (intro does_seqM does_on_adapter f less.IH k range)
    then show ?thesis
      using block_pairs_add [of k "n - k" data addr] k less(2) by (simp add: bus_writes_append)
  qed
qed

lemma does_live:
  assumes "\<And>d. live rd view (t_adapter c) d \<Longrightarrow> does rd view c m B"
  shows "does rd view c m B"
proof (rule doesI)
  fix t
  assume t: "good rd view t" "cfg t = cfg c"
  then have "does rd view c m B"
    using assms [of "dev (aw t)"] cfg_fields(1) [OF t(2)] by (simp add: good_def)
  then show "\<exists>t'. m t = (fst (B (bus_hist view t)), t') \<and> bus_hist view t' = snd (B (bus_hist view t)) \<and>
      cfg t' = cfg c \<and> good rd view t'"
    using t by (rule doesE) blast
qed

lemma does_read_block':
  assumes "phys_range (phys_of addr) n"
  shows "does rd view c (target_read_block addr n) (bus_read_words rd (phys_of addr) n)"
proof (cases "a_read_block (t_adapter c)")
  case None
  then show ?thesis
    by (rule does_read_block)
next
  case (Some f)
  show ?thesis
  proof (rule does_live)
    fix d
    assume "live rd view (t_adapter c) d"
    from live_block_words(1) [OF this Some]
    have "does rd view c (read_chunks f (a_block_words (t_adapter c)) (phys_of addr) n)
        (bus_read_words rd (phys_of addr) n)"
      using assms by (intro does_read_chunks live_blocks(1) Some)
    with Some show "does rd view c (target_read_block addr n) (bus_read_words rd (phys_of addr) n)"
      unfolding target_read_block_def by (intro does_getM) (auto dest: cfg_fields(1))
  qed
qed

lemma does_write_block':
  assumes "0 < n" and "n \<le> length data" and "phys_range (phys_of addr) n"
  shows "does rd view c (target_write_block addr n data) (bus_writes (block_pairs (phys_of addr) n data))"
proof (cases "a_write_block (t_adapter c)")
  case None
  then show ?thesis
    using assms(1,2) by (rule does_write_block)
next
  case (Some f)
  show ?thesis
  proof (rule does_live)
    fix d
    assume "live rd view (t_adapter c) d"
    from live_block_words(2) [OF this Some]
    have "does rd view c (write_chunks f (a_block_words (t_adapter c)) (phys_of addr) n data)
        (bus_writes (block_pairs (phys_of addr) n data))"
      using assms by (intro does_write_chunks live_blocks(2) Some)
    with Some show "does rd view c (target_write_block addr n data) (bus_writes (block_pairs (phys_of addr) n data))"
      unfolding target_write_block_def by (intro does_getM) (auto dest: cfg_fields(1))
  qed
qed

section \<open>Bytes and words\<close>

lemma le_bytes_word: "le_bytes (le_word [a, b, c, d]) = [a, b, c, d]"
proof -
  have "ucast (drop_bit (8 * i) (le_word [a, b, c, d])) = [a, b, c, d] ! i" if "i \<in> {0, 1, 2, 3}" for i
    using that by (auto simp: le_word_def intro!: bit_word_eqI)
      (auto simp: bit_simps dest: bit_imp_le_length)
  from this [of 0] this [of 1] this [of 2] this [of 3] show ?thesis
    by (simp add: le_bytes_def)
qed

lemma le_bytes_word_list: "length bs = 4 \<Longrightarrow> le_bytes (le_word bs) = bs"
  using le_bytes_word by (auto simp: length_Suc_conv numeral_eq_Suc)

lemma put_byte_bytes:
  assumes i: "i < 4"
  shows "le_bytes (put_byte i b w) = (le_bytes w)[i := b]"
proof -
  have m: "(0xff :: u32) = mask 8"
    by (simp add: mask_eq_exp_minus_1)
  have "ucast (drop_bit (8 * j) (put_byte i b w)) = (if j = i then b else ucast (drop_bit (8 * j) w))"
    if "j < 4" for j
  proof (rule bit_word_eqI)
    fix n
    assume n: "n < LENGTH(8)"
    have "bit b (8 * j + n - 8 * i) \<Longrightarrow> 8 * i \<le> 8 * j + n \<Longrightarrow> i = j"
      using bit_imp_le_length [of b "8 * j + n - 8 * i"] n by simp
    then show "bit (ucast (drop_bit (8 * j) (put_byte i b w)) :: u8) n =
        bit (if j = i then b else ucast (drop_bit (8 * j) w)) n"
      using i that n by (auto simp: put_byte_def m bit_simps)
  qed
  from this [of 0] this [of 1] this [of 2] this [of 3] show ?thesis
    using i by (auto simp: le_bytes_def numeral_eq_Suc less_Suc_eq)
qed

text \<open>The byte at a physical address, and whole words and parts of words as bytes.\<close>

definition mbyte :: "(u32 \<Rightarrow> u32) \<Rightarrow> nat \<Rightarrow> u8" where
  "mbyte mem q = le_bytes (mem (of_nat (4 * (q div 4)))) ! (q mod 4)"

lemma mbyte_part:
  assumes "p mod 4 = 0" and "off + k \<le> 4"
  shows "map (mbyte mem) [p + off..<p + off + k] = take k (drop off (le_bytes (mem (of_nat p))))"
proof (rule nth_equalityI)
  obtain r where r: "p = 4 * r"
    using assms(1) by blast
  fix i
  assume "i < length (map (mbyte mem) [p + off..<p + off + k])"
  then have i: "i < k"
    by simp
  then have "(p + off + i) div 4 = r" "(p + off + i) mod 4 = off + i"
    using assms(2) by (simp_all add: r add.assoc)
  then show "map (mbyte mem) [p + off..<p + off + k] ! i = take k (drop off (le_bytes (mem (of_nat p)))) ! i"
    using assms(2) i by (simp add: mbyte_def r)
qed (use assms in simp)

lemma mbyte_word: "p mod 4 = 0 \<Longrightarrow> map (mbyte mem) [p..<p + 4] = le_bytes (mem (of_nat p))"
  using mbyte_part [of p 0 4 mem] by simp

lemma mbyte_words:
  "p mod 4 = 0 \<Longrightarrow> map (mbyte mem) [p..<p + 4 * n] =
   concat (map (\<lambda>i. le_bytes (mem (of_nat (p + 4 * i)))) [0..<n])"
proof (induction n)
  case (Suc n)
  have "(p + 4 * n) mod 4 = 0"
    using Suc(2) by simp
  then have "map (mbyte mem) [p + 4 * n..<p + 4 * n + 4] = le_bytes (mem (of_nat (p + 4 * n)))"
    by (rule mbyte_word)
  moreover have "[p..<p + 4 * Suc n] = [p..<p + 4 * n] @ [p + 4 * n..<p + 4 * n + 4]"
    using upt_add_eq_append [of p "p + 4 * n" 4] by (simp add: algebra_simps)
  ultimately show ?case
    using Suc by simp
qed simp

lemma head_bytes_eq:
  assumes "0 < off" and "off < 4" and "0 < k" and "off + k \<le> 4"
  shows "head_bytes off k w = take k (drop off (le_bytes w))"
proof -
  have "off = 1 \<and> k = 1 \<or> off = 1 \<and> k = 2 \<or> off = 1 \<and> k = 3 \<or> off = 2 \<and> k = 1 \<or>
      off = 2 \<and> k = 2 \<or> off = 3 \<and> k = 1"
    using assms by arith
  then show ?thesis
    by (auto simp: head_bytes_def le_bytes_def numeral_eq_Suc)
qed

text \<open>A word in which some bytes were replaced.\<close>

definition patch :: "nat \<Rightarrow> u8 list \<Rightarrow> u8 list \<Rightarrow> u8 list" where
  "patch off bs ws = take off ws @ bs @ drop (off + length bs) ws"

lemma head_word_bytes:
  assumes "0 < off" and "off < 4" and "0 < k" and "off + k \<le> 4" and "k \<le> length bfr"
  shows "le_bytes (head_word off k bfr w) = patch off (take k bfr) (le_bytes w)"
proof -
  have "off = 1 \<and> k = 1 \<or> off = 1 \<and> k = 2 \<or> off = 1 \<and> k = 3 \<or> off = 2 \<and> k = 1 \<or>
      off = 2 \<and> k = 2 \<or> off = 3 \<and> k = 1"
    using assms by arith
  moreover obtain a b c d where "le_bytes w = [a, b, c, d]"
    by (simp add: le_bytes_def)
  moreover obtain x rest where "bfr = x # rest"
    using assms by (cases bfr) simp_all
  ultimately show ?thesis
    using assms(5) by (cases rest; cases "tl rest")
      (auto simp: head_word_def patch_def put_byte_bytes numeral_eq_Suc Let_def)
qed

section \<open>The segments\<close>

text \<open>Addresses as numbers; a range that lies in one of the segments kuseg, kseg0 or kseg1.\<close>

definition phys_nat :: "nat \<Rightarrow> nat" where
  "phys_nat a = (if a \<ge> 0xA0000000 then a - 0xA0000000 else if a \<ge> 0x80000000 then a - 0x80000000 else a)"

definition in_segment :: "nat \<Rightarrow> nat \<Rightarrow> bool" where
  "in_segment a n \<longleftrightarrow> a + n \<le> 0x80000000 \<or> (0x80000000 \<le> a \<and> a + n \<le> 0xA0000000) \<or>
     (0xA0000000 \<le> a \<and> a + n \<le> 0x100000000)"

lemma unat_nat32: "a < 0x100000000 \<Longrightarrow> unat (of_nat a :: u32) = a"
  by (simp add: unsigned_of_nat take_bit_nat_eq_self)

lemma phys_of_nat:
  assumes "a < 0x100000000"
  shows "phys_of (of_nat a) = of_nat (phys_nat a)"
proof -
  have ge: "(0xA0000000 :: u32) \<le> of_nat a \<longleftrightarrow> 0xA0000000 \<le> a" "(0x80000000 :: u32) \<le> of_nat a \<longleftrightarrow> 0x80000000 \<le> a"
    using unat_nat32 [OF assms] by (simp_all add: word_le_nat_alt)
  have "(of_nat a - 0xA0000000 :: u32) = of_nat (a - 0xA0000000)" if "0xA0000000 \<le> a"
    using that by (simp add: of_nat_diff)
  moreover have "(of_nat a - 0x80000000 :: u32) = of_nat (a - 0x80000000)" if "0x80000000 \<le> a"
    using that by (simp add: of_nat_diff)
  ultimately show ?thesis
    by (auto simp: phys_of_def phys_nat_def ge)
qed

lemma phys_nat_add: "in_segment a n \<Longrightarrow> i < n \<Longrightarrow> phys_nat (a + i) = phys_nat a + i"
  by (auto simp: in_segment_def phys_nat_def)

lemma phys_nat_bound: "in_segment a n \<Longrightarrow> 0 < n \<Longrightarrow> phys_nat a + n \<le> 0x80000000 \<and> a + n \<le> 0x100000000"
  by (auto simp: in_segment_def phys_nat_def)

lemma phys_nat_mod: "phys_nat a mod 4 = a mod 4"
proof -
  have "(a - 4 * c) mod 4 = a mod 4" if "4 * c \<le> a" for c :: nat
    using that by (metis le_add_diff_inverse mod_mult_self4 add.commute mult.commute)
  from this [of "0x28000000"] this [of "0x20000000"] show ?thesis
    by (simp add: phys_nat_def)
qed

lemma phys_nat_align: "phys_nat (4 * (a div 4)) = 4 * (phys_nat a div 4)"
proof -
  have d: "(a - 4 * c) div 4 = a div 4 - c" and l: "4 * c \<le> 4 * (a div 4) \<longleftrightarrow> 4 * c \<le> a" for c :: nat
    by presburger+
  show ?thesis
    using d [of "0x28000000"] d [of "0x20000000"] l [of "0x28000000"] l [of "0x20000000"]
    by (simp add: phys_nat_def diff_mult_distrib2)
qed

lemma phys_of_phys_nat: "in_segment a n \<Longrightarrow> i < n \<Longrightarrow> phys_of (of_nat (phys_nat a + i)) = of_nat (phys_nat a + i)"
  using phys_nat_bound [of a n] unat_nat32 [of "phys_nat a + i"] by (intro phys_of_small) simp

section \<open>Runs on plain memory\<close>

text \<open>
  The bus reads back what was written, and the block functions, if there are any, are right.
  \<open>mem_now\<close> is the content of the memory.
\<close>

definition plain :: "(u32 \<Rightarrow> u32) \<Rightarrow> ('w \<Rightarrow> chip) \<Rightarrow> 'w target \<Rightarrow> bool" where
  "plain m view t \<longleftrightarrow> good (ram m) view t"

definition mem_now :: "(u32 \<Rightarrow> u32) \<Rightarrow> ('w \<Rightarrow> chip) \<Rightarrow> 'w target \<Rightarrow> u32 \<Rightarrow> u32" where
  "mem_now m view t = ram m (bus_hist view t)"

definition kept :: "(u32 \<Rightarrow> u32) \<Rightarrow> ('w \<Rightarrow> chip) \<Rightarrow> 'w target \<Rightarrow> 'w target \<Rightarrow> bool" where
  "kept m view t t' \<longleftrightarrow> plain m view t' \<and> cfg t' = cfg t \<and> mem_now m view t' = mem_now m view t"

text \<open>The bytes \<open>bs\<close> were stored at \<open>p\<close>, and nothing else changed in the memory.\<close>

definition stored ::
  "(u32 \<Rightarrow> u32) \<Rightarrow> ('w \<Rightarrow> chip) \<Rightarrow> 'w target \<Rightarrow> nat \<Rightarrow> u8 list \<Rightarrow> 'w target \<Rightarrow> bool" where
  "stored m view t p bs t' \<longleftrightarrow> plain m view t' \<and> cfg t' = cfg t \<and>
     (\<forall>q < 0x80000000. mbyte (mem_now m view t') q =
        (if p \<le> q \<and> q < p + length bs then bs ! (q - p) else mbyte (mem_now m view t) q))"

lemma plain_cfg: "good (ram m) view t' \<Longrightarrow> cfg t' = cfg t \<Longrightarrow> plain m view t \<Longrightarrow> plain m view t'"
  by (simp add: plain_def cfg_fields(1) [of t' t])

lemma kept_refl: "plain m view t \<Longrightarrow> kept m view t t"
  by (simp add: kept_def)

lemma kept_trans: "kept m view t t1 \<Longrightarrow> kept m view t1 t2 \<Longrightarrow> kept m view t t2"
  by (simp add: kept_def)

lemma kept_stored: "kept m view t t1 \<Longrightarrow> stored m view t1 p bs t2 \<Longrightarrow> stored m view t p bs t2"
  by (simp add: kept_def stored_def)

lemma stored_append:
  assumes "stored m view t p bs t1" and "stored m view t1 (p + length bs) cs t2"
  shows "stored m view t p (bs @ cs) t2"
  using assms by (auto simp: stored_def nth_append)

lemma stored_Nil: "plain m view t \<Longrightarrow> stored m view t p [] t"
  by (auto simp: stored_def)

lemma read_word_run:
  assumes "plain m view t"
  shows "\<exists>t'. target_read_word a t = (Inr (mem_now m view t (phys_of a)), t') \<and> kept m view t t'"
proof -
  have g: "good (ram m) view t"
    using assms by (simp add: plain_def)
  obtain t' where "target_read_word a t = (fst (bus_read (ram m) a (bus_hist view t)), t')"
      "bus_hist view t' = snd (bus_read (ram m) a (bus_hist view t))" "cfg t' = cfg t" "good (ram m) view t'"
    by (rule doesE [OF does_read_word g refl])
  then show ?thesis
    using assms ram_reads [of m "bus_hist view t" "[phys_of a]"]
    by (auto simp: bus_read_def mem_now_def kept_def intro: plain_cfg)
qed

lemma phys_range_nat:
  assumes "a < 0x100000000" and "in_segment a (4 * n)"
  shows "phys_range (phys_of (of_nat a)) n"
  unfolding phys_range_def phys_of_nat [OF assms(1)]
proof (intro allI impI)
  fix i
  assume "i < n"
  then show "phys_of (of_nat (phys_nat a) + of_nat i * 4) = of_nat (phys_nat a) + of_nat i * 4"
    using phys_of_phys_nat [OF assms(2), of "4 * i"] by (simp add: mult.commute)
qed

lemma read_block_run:
  assumes "plain m view t" and "a < 0x100000000" and "in_segment a (4 * n)"
  shows "\<exists>t'. target_read_block (of_nat a) n t =
      (Inr (map (\<lambda>i. mem_now m view t (of_nat (phys_nat a + 4 * i))) [0..<n]), t') \<and> kept m view t t'"
proof -
  have g: "good (ram m) view t"
    using assms(1) by (simp add: plain_def)
  have range: "phys_range (phys_of (of_nat a)) n"
    using phys_range_nat [OF assms(2,3)] .
  let ?B = "bus_read_words (ram m) (phys_of (of_nat a)) n (bus_hist view t)"
  obtain t' where t': "target_read_block (of_nat a) n t = (fst ?B, t')"
      "bus_hist view t' = snd ?B" "cfg t' = cfg t" "good (ram m) view t'"
    by (rule doesE [OF does_read_block' [OF range] g refl])
  have "phys_of (phys_of (of_nat a) + of_nat i * 4) = of_nat (phys_nat a + 4 * i)" if "i < n" for i
    using phys_of_phys_nat [OF assms(3), of "4 * i"] that
    by (simp add: phys_of_nat [OF assms(2)] mult.commute)
  then have "fst ?B = Inr (map (\<lambda>i. mem_now m view t (of_nat (phys_nat a + 4 * i))) [0..<n])"
    by (simp add: bus_read_words_ram mem_now_def)
  moreover have "mem_now m view t' = mem_now m view t"
    using t'(2) ram_reads [of m "bus_hist view t" "map (\<lambda>i. phys_of (phys_of (of_nat a) + of_nat i * 4)) [0..<n]"]
    by (simp add: mem_now_def bus_read_words_ram o_def)
  ultimately show ?thesis
    using t' assms(1) by (auto simp: kept_def intro: plain_cfg)
qed

text \<open>Writing a word, whole or with a part of its old bytes.\<close>

lemma nat_word_eq: "x < 0x100000000 \<Longrightarrow> y < 0x100000000 \<Longrightarrow> (of_nat x :: u32) = of_nat y \<longleftrightarrow> x = y"
  using unat_nat32 by metis

lemma mbyte_upd:
  assumes "p mod 4 = 0" and "p < 0x80000000" and "q < 0x80000000"
    and "le_bytes w = patch off bs (le_bytes (mem (of_nat p)))" and "off + length bs \<le> 4"
  shows "mbyte (mem(of_nat p := w)) q =
    (if p + off \<le> q \<and> q < p + off + length bs then bs ! (q - (p + off)) else mbyte mem q)"
proof -
  obtain r where r: "p = 4 * r"
    using assms(1) by blast
  show ?thesis
  proof (cases "q div 4 = r")
    case True
    then obtain i where q: "q = p + i" "i < 4"
      using r by (metis mult_div_mod_eq mod_less_divisor zero_less_numeral)
    then have "q mod 4 = i"
      by (simp add: r)
    then show ?thesis
      using q assms(4,5) True r by (auto simp: mbyte_def patch_def nth_append)
  next
    case False
    have "\<not> (p \<le> q \<and> q < p + 4)"
      using False r by auto
    moreover have "(of_nat (4 * (q div 4)) :: u32) \<noteq> of_nat p"
      using False r assms(2,3) by (subst nat_word_eq) auto
    ultimately show ?thesis
      using assms(5) by (auto simp: mbyte_def)
  qed
qed

lemma write_word_run:
  assumes "plain m view t" and "a < 0x100000000" and "a mod 4 = 0"
    and "le_bytes w = patch off bs (le_bytes (mem_now m view t (of_nat (phys_nat a))))"
    and "off + length bs \<le> 4"
  shows "\<exists>t'. target_write_word (of_nat a) w t = (Inr (), t') \<and> stored m view t (phys_nat a + off) bs t'"
proof -
  have g: "good (ram m) view t"
    using assms(1) by (simp add: plain_def)
  let ?B = "bus_write (of_nat a) w (bus_hist view t)"
  obtain t' where t': "target_write_word (of_nat a) w t = (fst ?B, t')"
      "bus_hist view t' = snd ?B" "cfg t' = cfg t" "good (ram m) view t'"
    by (rule doesE [OF does_write_word g refl])
  have p: "phys_nat a < 0x80000000" "phys_nat a mod 4 = 0"
    using assms(2,3) phys_nat_mod [of a] by (auto simp: phys_nat_def)
  have "mem_now m view t' = (mem_now m view t)(of_nat (phys_nat a) := w)"
    using t'(2) by (auto simp: mem_now_def bus_write_def phys_of_nat [OF assms(2)])
  then show ?thesis
    using t' assms(1,4,5) p mbyte_upd [OF p(2,1)]
    by (auto simp: stored_def bus_write_def intro: plain_cfg)
qed

section \<open>Reading bytes\<close>

lemma ucast_nat64 [simp]: "(ucast (of_nat a :: u64) :: u32) = of_nat a"
  by (rule bit_word_eqI) (simp add: bit_simps)

lemma ucast_add64 [simp]: "(ucast (of_nat a + of_nat b :: u64) :: u32) = of_nat (a + b)"
  by (metis ucast_nat64 of_nat_add)

text \<open>The piece of a transfer that ends inside a word.\<close>

lemma read_tail_run:
  assumes "plain m view t" and "a mod 4 = 0" and "in_segment a n" and "0 < n" and "n < 4"
  shows "\<exists>t'. target_read_word (of_nat a) t = (Inr (mem_now m view t (of_nat (phys_nat a))), t') \<and>
    kept m view t t' \<and>
    take n (le_bytes (mem_now m view t (of_nat (phys_nat a)))) = map (mbyte (mem_now m view t)) [phys_nat a..<phys_nat a + n]"
proof -
  have "a < 0x100000000" "phys_nat a mod 4 = 0"
    using assms phys_nat_bound [of a n] phys_nat_mod [of a] by auto
  then show ?thesis
    using read_word_run [OF assms(1), of "of_nat a"] mbyte_part [of "phys_nat a" 0 n] assms(5)
    by (simp add: phys_of_nat)
qed

lemma in_segment_drop: "in_segment a n \<Longrightarrow> k < n \<Longrightarrow> in_segment (a + k) (n - k)"
  by (auto simp: in_segment_def)

lemma read_aligned_run:
  fixes view :: "'w \<Rightarrow> chip"
  assumes p: "plain m view t" and a: "a mod 4 = 0" and seg: "in_segment a n" and n: "0 < n"
  shows "\<exists>t'. read_aligned (of_nat a) n t =
      (Inr (map (mbyte (mem_now m view t)) [phys_nat a..<phys_nat a + n]), t') \<and> kept m view t t'"
proof -
  define k where "k = n div 4"
  define r where "r = n mod 4"
  have nkr: "n = 4 * k + r" "r < 4"
    by (simp_all add: k_def r_def)
  have lt: "a < 0x100000000" and pm: "phys_nat a mod 4 = 0"
    using seg n phys_nat_bound [of a n] a phys_nat_mod [of a] by auto
  let ?mem = "mem_now m view t"
  define blk :: "('w, u8 list) tact" where "blk = (if n \<ge> 4 then bindM (target_read_block (of_nat a) k) (\<lambda>ws. retM (concat (map le_bytes ws)))
      else retM [])"
  have "\<exists>t1. blk t = (Inr (map (mbyte ?mem) [phys_nat a..<phys_nat a + 4 * k]), t1) \<and> kept m view t t1"
  proof (cases "n \<ge> 4")
    case True
    have "in_segment a (4 * k)"
      using seg nkr by (auto simp: in_segment_def)
    from read_block_run [OF p lt this] True show ?thesis
      by (auto simp: blk_def act_simps mbyte_words [OF pm] o_def)
  next
    case False
    then have "k = 0"
      by (simp add: k_def)
    with False show ?thesis
      using kept_refl [OF p] by (simp add: blk_def retM_apply)
  qed
  then obtain t1 where t1: "blk t = (Inr (map (mbyte ?mem) [phys_nat a..<phys_nat a + 4 * k]), t1)"
      "kept m view t t1"
    by blast
  have unf: "read_aligned (of_nat a) n = bindM blk (\<lambda>bs. if r = 0 then retM bs
      else bindM (target_read_word (of_nat (a + 4 * k))) (\<lambda>w. retM (bs @ take r (le_bytes w))))"
    unfolding read_aligned_def blk_def ucast_nat64 ucast_add64 k_def r_def
    by (simp only: mult.commute [of "n div 4" 4])
  show ?thesis
  proof (cases "r = 0")
    case True
    then have "read_aligned (of_nat a) n t = (Inr (map (mbyte ?mem) [phys_nat a..<phys_nat a + 4 * k]), t1)"
      using t1 by (simp add: unf bindM_apply retM_apply)
    then show ?thesis
      using t1(2) nkr(1) True by auto
  next
    case False
    have k: "4 * k < n" "n - 4 * k = r" "(a + 4 * k) mod 4 = 0"
      using False nkr a by auto
    have pa: "phys_nat (a + 4 * k) = phys_nat a + 4 * k"
      using phys_nat_add [OF seg k(1)] .
    have seg': "in_segment (a + 4 * k) r"
      using in_segment_drop [OF seg k(1)] k(2) by simp
    have p1: "plain m view t1" and m1: "mem_now m view t1 = ?mem"
      using t1(2) by (simp_all add: kept_def)
    obtain t2 where t2: "target_read_word (of_nat (a + 4 * k)) t1 =
          (Inr (?mem (of_nat (phys_nat (a + 4 * k)))), t2)" "kept m view t1 t2"
        "take r (le_bytes (?mem (of_nat (phys_nat (a + 4 * k))))) =
         map (mbyte ?mem) [phys_nat a + 4 * k..<phys_nat a + n]"
      using read_tail_run [OF p1 k(3) seg' _ nkr(2)] False nkr(1) pa by (auto simp: m1 add.assoc)
    have "[phys_nat a..<phys_nat a + n] = [phys_nat a..<phys_nat a + 4 * k] @ [phys_nat a + 4 * k..<phys_nat a + n]"
      using upt_add_eq_append [of "phys_nat a" "phys_nat a + 4 * k" r] nkr(1) by (simp add: add.assoc)
    then show ?thesis
      using t1 t2 False kept_trans [OF t1(2) t2(2)] by (simp add: unf bindM_apply retM_apply del: of_nat_add)
  qed
qed

lemma and_not_3: "(of_nat a :: u64) AND NOT 3 = of_nat (4 * (a div 4))"
proof -
  have m: "(3 :: u64) = mask 2"
    by (simp add: mask_eq_exp_minus_1)
  have n: "4 * (a div 4) = push_bit 2 (drop_bit 2 a)"
    by (simp add: push_bit_eq_mult drop_bit_eq_div)
  show ?thesis
    unfolding m n
  proof (rule bit_word_eqI)
    fix i
    have "2 \<le> i \<Longrightarrow> Suc (Suc (i - 2)) = i"
      by arith
    then show "bit ((of_nat a :: u64) AND NOT (mask 2)) i = bit (of_nat (push_bit 2 (drop_bit 2 a)) :: u64) i"
      by (auto simp: bit_simps bit_of_nat_iff_bit)
  qed
qed

lemma and_3: "unat ((of_nat a :: u64) AND 3) = a mod 4"
proof -
  have m: "(3 :: u64) = mask 2"
    by (simp add: mask_eq_exp_minus_1)
  have "unat (take_bit 2 (of_nat a :: u64)) = take_bit 2 (take_bit 64 a)"
    by (simp only: unsigned_take_bit_eq unsigned_of_nat) simp
  then show ?thesis
    unfolding m take_bit_eq_mask [symmetric] by (simp add: take_bit_take_bit) (simp add: take_bit_eq_mod)
qed

lemma head_split:
  fixes a n :: nat
  defines "off \<equiv> a mod 4" and "k \<equiv> min (4 - a mod 4) n"
  assumes "in_segment a n" and "0 < n" and "off \<noteq> 0"
  shows "a = 4 * (a div 4) + off" and "0 < off" and "off < 4" and "0 < k" and "off + k \<le> 4" and "k \<le> n"
    and "phys_nat (4 * (a div 4)) + off = phys_nat a"
    and "k < n \<Longrightarrow> (a + k) mod 4 = 0 \<and> in_segment (a + k) (n - k) \<and> phys_nat (a + k) = phys_nat a + k"
proof -
  show "a = 4 * (a div 4) + off" "0 < off" "off < 4" "0 < k" "off + k \<le> 4" "k \<le> n"
    using assms by (auto simp: off_def k_def)
  show "phys_nat (4 * (a div 4)) + off = phys_nat a"
    using phys_nat_mod [of a] mult_div_mod_eq [of 4 "phys_nat a"] by (simp only: phys_nat_align off_def)
  assume lt: "k < n"
  then have "k = 4 - a mod 4"
    by (auto simp: k_def)
  then have "(a + k) mod 4 = 0"
    using \<open>off < 4\<close> by (simp add: off_def) presburger
  then show "(a + k) mod 4 = 0 \<and> in_segment (a + k) (n - k) \<and> phys_nat (a + k) = phys_nat a + k"
    using lt assms(3) by (simp add: in_segment_drop phys_nat_add)
qed

lemma read_bytes_run:
  fixes view :: "'w \<Rightarrow> chip"
  assumes p: "plain m view t" and seg: "in_segment a n" and n: "0 < n"
  shows "\<exists>t'. read_bytes (of_nat a) n t =
      (Inr (map (mbyte (mem_now m view t)) [phys_nat a..<phys_nat a + n]), t') \<and> kept m view t t'"
proof (cases "a mod 4 = 0")
  case True
  then show ?thesis
    using read_aligned_run [OF p True seg n] by (simp add: read_bytes_def and_3)
next
  case False
  let ?mem = "mem_now m view t"
  define k where "k = min (4 - a mod 4) n"
  note hs = head_split [OF seg n False, folded k_def]
  have lt: "4 * (a div 4) < 0x100000000"
    using phys_nat_bound [OF seg n] n by linarith
  obtain t1 where t1: "target_read_word (of_nat (4 * (a div 4))) t = (Inr (?mem (of_nat (phys_nat (4 * (a div 4))))), t1)"
      "kept m view t t1"
    using read_word_run [OF p, of "of_nat (4 * (a div 4))"] phys_of_nat [OF lt] by auto
  have hb: "head_bytes (a mod 4) k (?mem (of_nat (phys_nat (4 * (a div 4))))) =
      map (mbyte ?mem) [phys_nat a..<phys_nat a + k]"
    using head_bytes_eq [OF hs(2-5)] mbyte_part [of "phys_nat (4 * (a div 4))" "a mod 4" k ?mem] hs(5,7)
    by (simp add: phys_nat_align)
  have unf: "read_bytes (of_nat a) n = bindM (target_read_word (of_nat (4 * (a div 4)))) (\<lambda>data.
      if n - k = 0 then retM (head_bytes (a mod 4) k data)
      else bindM (read_aligned (of_nat (a + k)) (n - k)) (\<lambda>rest. retM (head_bytes (a mod 4) k data @ rest)))"
    using False unfolding read_bytes_def and_3 and_not_3 ucast_nat64 Let_def k_def of_nat_add [symmetric]
    by (simp only: if_False)
  show ?thesis
  proof (cases "k < n")
    case False
    then have "k = n"
      using hs(6) by simp
    then show ?thesis
      using t1 hb by (simp add: unf bindM_apply retM_apply del: of_nat_mult)
  next
    case True
    note rest = hs(8) [OF True]
    have p1: "plain m view t1" and m1: "mem_now m view t1 = ?mem"
      using t1(2) by (simp_all add: kept_def)
    obtain t2 where t2: "read_aligned (of_nat (a + k)) (n - k) t1 =
        (Inr (map (mbyte ?mem) [phys_nat a + k..<phys_nat a + n]), t2)" "kept m view t1 t2"
      using read_aligned_run [OF p1, of "a + k" "n - k"] rest True by (auto simp: m1)
    have "[phys_nat a..<phys_nat a + n] = [phys_nat a..<phys_nat a + k] @ [phys_nat a + k..<phys_nat a + n]"
      using upt_add_eq_append [of "phys_nat a" "phys_nat a + k" "n - k"] True by simp
    then show ?thesis
      using t1 t2 hb True kept_trans [OF t1(2) t2(2)]
      by (simp add: unf bindM_apply retM_apply del: of_nat_mult of_nat_add)
  qed
qed

section \<open>Writing bytes\<close>

lemma patch_all: "length bs = length ws \<Longrightarrow> patch 0 bs ws = bs"
  by (simp add: patch_def)

lemma mbyte_block:
  assumes "p mod 4 = 0"
  shows "p + 4 * n \<le> 0x80000000 \<Longrightarrow> n \<le> length ws \<Longrightarrow> q < 0x80000000 \<Longrightarrow>
    mbyte (ram m (h @ bw_all (block_pairs (of_nat p) n ws))) q =
    (if p \<le> q \<and> q < p + 4 * n then concat (map le_bytes (take n ws)) ! (q - p) else mbyte (ram m h) q)"
proof (induction n)
  case (Suc n)
  let ?h = "h @ bw_all (block_pairs (of_nat p) n ws)"
  let ?p = "p + 4 * n"
  have p: "?p mod 4 = 0" "?p < 0x80000000"
    using assms Suc(2) by simp_all
  have len: "length (concat (map le_bytes (take n ws))) = 4 * n"
    using Suc(3) by (simp add: length_concat o_def sum_list_triv)
  have "phys_of (of_nat ?p) = of_nat ?p"
    using p(2) unat_nat32 [of ?p] by (intro phys_of_small) simp
  moreover have "block_pairs (of_nat p) (Suc n) ws = block_pairs (of_nat p) n ws @ [(of_nat ?p, ws ! n)]"
    by (simp add: block_pairs_def mult.commute)
  ultimately have "h @ bw_all (block_pairs (of_nat p) (Suc n) ws) = ?h @ [BW (of_nat ?p) (ws ! n)]"
    by simp
  then have "ram m (h @ bw_all (block_pairs (of_nat p) (Suc n) ws)) = (ram m ?h)(of_nat ?p := ws ! n)"
    by (intro ext) (simp del: append_assoc)
  then have "mbyte (ram m (h @ bw_all (block_pairs (of_nat p) (Suc n) ws))) q =
      (if ?p \<le> q \<and> q < ?p + 4 then le_bytes (ws ! n) ! (q - ?p) else mbyte (ram m ?h) q)"
    using mbyte_upd [OF p Suc(4), of "ws ! n" 0 "le_bytes (ws ! n)" "ram m ?h"] by (simp add: patch_all)
  moreover have "take (Suc n) ws = take n ws @ [ws ! n]"
    using Suc(3) by (simp add: take_Suc_conv_app_nth)
  ultimately show ?case
    using Suc(1) [OF _ _ Suc(4)] Suc(2,3) len by (auto simp: nth_append)
qed (auto simp: block_pairs_def)

lemma write_block_run:
  assumes "plain m view t" and "a < 0x100000000" and "a mod 4 = 0" and "in_segment a (4 * n)"
    and "0 < n" and "n \<le> length ws"
  shows "\<exists>t'. target_write_block (of_nat a) n ws t = (Inr (), t') \<and>
    stored m view t (phys_nat a) (concat (map le_bytes (take n ws))) t'"
proof -
  have g: "good (ram m) view t"
    using assms(1) by (simp add: plain_def)
  obtain t' where t': "target_write_block (of_nat a) n ws t = (Inr (), t')"
      "bus_hist view t' = bus_hist view t @ bw_all (block_pairs (of_nat (phys_nat a)) n ws)"
      "cfg t' = cfg t" "good (ram m) view t'"
    using does_writes_run [OF does_write_block' [OF assms(5,6) phys_range_nat [OF assms(2,4)]] g]
    by (auto simp: phys_of_nat [OF assms(2)])
  have len: "length (concat (map le_bytes (take n ws))) = 4 * n"
    using assms(6) by (simp add: length_concat o_def sum_list_triv)
  have "phys_nat a + 4 * n \<le> 0x80000000" "phys_nat a mod 4 = 0"
    using phys_nat_bound [OF assms(4)] assms(3,5) phys_nat_mod [of a] by simp_all
  then show ?thesis
    using t' assms(1,6) by (auto simp: stored_def mem_now_def len mbyte_block intro: plain_cfg)
qed

lemma le_words_bytes: "concat (map le_bytes (le_words bs)) = take (4 * (length bs div 4)) bs"
proof (induction bs rule: le_words.induct)
  case (1 a b c d bs)
  have "(4 + length bs) div 4 = Suc (length bs div 4)"
    by simp
  moreover have "take (4 + k) (a # b # c # d # bs) = a # b # c # d # take k bs" for k
    by (simp add: eval_nat_numeral)
  ultimately show ?case
    using 1 by (simp add: le_bytes_word)
qed simp_all

lemma length_le_words [simp]: "length (le_words bs) = length bs div 4"
  by (induction bs rule: le_words.induct) simp_all

lemma write_aligned_run:
  fixes view :: "'w \<Rightarrow> chip"
  assumes p: "plain m view t" and a: "a mod 4 = 0" and seg: "in_segment a (length bs)" and n: "bs \<noteq> []"
  shows "\<exists>t'. write_aligned (of_nat a) bs t = (Inr (), t') \<and> stored m view t (phys_nat a) bs t'"
proof -
  define k where "k = length bs div 4"
  define r where "r = length bs mod 4"
  have nkr: "length bs = 4 * k + r" "r < 4"
    by (simp_all add: k_def r_def)
  have n0: "0 < length bs"
    using n by simp
  have lt: "a < 0x100000000"
    using phys_nat_bound [OF seg n0] n0 by linarith
  define blk :: "('w, unit) tact" where
    "blk = whenM (length bs \<ge> 4) (target_write_block (of_nat a) k (le_words bs))"
  have "\<exists>t1. blk t = (Inr (), t1) \<and> stored m view t (phys_nat a) (take (4 * k) bs) t1"
  proof (cases "length bs \<ge> 4")
    case True
    then have "0 < k"
      by (simp add: k_def)
    moreover have "in_segment a (4 * k)"
      using seg nkr(1) by (auto simp: in_segment_def)
    ultimately show ?thesis
      using write_block_run [OF p lt a, of k "le_words bs"] True
      by (auto simp: blk_def whenM_apply k_def le_words_bytes)
  next
    case False
    then have "k = 0"
      by (simp add: k_def)
    with False show ?thesis
      using stored_Nil [OF p] by (simp add: blk_def whenM_apply)
  qed
  then obtain t1 where t1: "blk t = (Inr (), t1)" "stored m view t (phys_nat a) (take (4 * k) bs) t1"
    by blast
  have unf: "write_aligned (of_nat a) bs = seqM blk (if r = 0 then retM ()
      else bindM (target_read_word (of_nat (a + 4 * k))) (\<lambda>data.
        target_write_word (of_nat (a + 4 * k)) (le_word (drop (4 * k) bs @ drop r (le_bytes data)))))"
    unfolding write_aligned_def blk_def ucast_nat64 ucast_add64 k_def r_def Let_def
    by (simp only: mult.commute [of "length bs div 4" 4])
  show ?thesis
  proof (cases "r = 0")
    case True
    then have "take (4 * k) bs = bs"
      using nkr by simp
    then show ?thesis
      using t1 True by (simp add: unf)
  next
    case False
    have k: "4 * k < length bs" "(a + 4 * k) mod 4 = 0"
      using False nkr a by auto
    have pa: "phys_nat (a + 4 * k) = phys_nat a + 4 * k"
      using phys_nat_add [OF seg k(1)] .
    have lt2: "a + 4 * k < 0x100000000"
      using phys_nat_bound [OF seg n0] k(1) by simp
    have p1: "plain m view t1"
      using t1(2) by (simp add: stored_def)
    let ?old = "mem_now m view t1 (of_nat (phys_nat (a + 4 * k)))"
    let ?w = "le_word (drop (4 * k) bs @ drop r (le_bytes ?old))"
    obtain t2 where t2: "target_read_word (of_nat (a + 4 * k)) t1 = (Inr ?old, t2)" "kept m view t1 t2"
      using read_word_run [OF p1, of "of_nat (a + 4 * k)"] phys_of_nat [OF lt2] by auto
    have p2: "plain m view t2" and m2: "mem_now m view t2 = mem_now m view t1"
      using t2(2) by (simp_all add: kept_def)
    have len: "length (drop (4 * k) bs) = r"
      using nkr by simp
    have "le_bytes ?w = patch 0 (drop (4 * k) bs) (le_bytes ?old)"
      using len nkr(2) by (simp add: patch_def le_bytes_word_list)
    then obtain t3 where t3: "target_write_word (of_nat (a + 4 * k)) ?w t2 = (Inr (), t3)"
        "stored m view t2 (phys_nat (a + 4 * k)) (drop (4 * k) bs) t3"
      using write_word_run [OF p2 lt2 k(2), of ?w 0 "drop (4 * k) bs"] len nkr(2) by (auto simp: m2)
    have "stored m view t (phys_nat a) (take (4 * k) bs @ drop (4 * k) bs) t3"
      using kept_stored [OF t2(2) t3(2)] t1(2) k(1) pa by (intro stored_append) simp_all
    then show ?thesis
      using t1(1) t2(1) t3(1) False by (simp add: unf seqM_apply bindM_apply del: of_nat_add)
  qed
qed

lemma write_bytes_run:
  fixes view :: "'w \<Rightarrow> chip"
  assumes p: "plain m view t" and seg: "in_segment a (length bs)" and n: "bs \<noteq> []"
  shows "\<exists>t'. write_bytes_at (of_nat a) bs t = (Inr (), t') \<and> stored m view t (phys_nat a) bs t'"
proof (cases "a mod 4 = 0")
  case True
  then show ?thesis
    using write_aligned_run [OF p True seg n] by (simp add: write_bytes_at_def and_3)
next
  case False
  define k where "k = min (4 - a mod 4) (length bs)"
  have n0: "0 < length bs"
    using n by simp
  note hs = head_split [OF seg n0 False, folded k_def]
  have lt: "4 * (a div 4) < 0x100000000"
    using phys_nat_bound [OF seg n0] n0 by linarith
  let ?old = "mem_now m view t (of_nat (phys_nat (4 * (a div 4))))"
  let ?w = "head_word (a mod 4) k bs ?old"
  obtain t1 where t1: "target_read_word (of_nat (4 * (a div 4))) t = (Inr ?old, t1)" "kept m view t t1"
    using read_word_run [OF p, of "of_nat (4 * (a div 4))"] phys_of_nat [OF lt] by auto
  have p1: "plain m view t1" and m1: "mem_now m view t1 = mem_now m view t"
    using t1(2) by (simp_all add: kept_def)
  have "le_bytes ?w = patch (a mod 4) (take k bs) (le_bytes ?old)"
    by (rule head_word_bytes [OF hs(2-6)])
  then obtain t2 where t2: "target_write_word (of_nat (4 * (a div 4))) ?w t1 = (Inr (), t2)"
      "stored m view t1 (phys_nat a) (take k bs) t2"
    using write_word_run [OF p1 lt, of ?w "a mod 4" "take k bs"] hs(5,6,7) by (auto simp: m1)
  have s2: "stored m view t (phys_nat a) (take k bs) t2"
    using kept_stored [OF t1(2) t2(2)] .
  have unf: "write_bytes_at (of_nat a) bs = bindM (target_read_word (of_nat (4 * (a div 4)))) (\<lambda>data.
      seqM (target_write_word (of_nat (4 * (a div 4))) (head_word (a mod 4) k bs data))
        (if length bs - k = 0 then retM () else write_aligned (of_nat (a + k)) (drop k bs)))"
    using False unfolding write_bytes_at_def and_3 and_not_3 ucast_nat64 Let_def k_def of_nat_add [symmetric]
    by (simp only: if_False)
  show ?thesis
  proof (cases "k < length bs")
    case False
    then have "length bs \<le> k"
      using hs(6) by simp
    then show ?thesis
      using t1 t2(1) s2 by (simp add: unf bindM_apply seqM_apply retM_apply del: of_nat_mult)
  next
    case True
    note rest = hs(8) [OF True]
    have p2: "plain m view t2"
      using s2 by (simp add: stored_def)
    obtain t3 where t3: "write_aligned (of_nat (a + k)) (drop k bs) t2 = (Inr (), t3)"
        "stored m view t2 (phys_nat a + k) (drop k bs) t3"
      using write_aligned_run [OF p2, of "a + k" "drop k bs"] rest True by auto
    have "stored m view t (phys_nat a) (take k bs @ drop k bs) t3"
      using s2 t3(2) True by (intro stored_append) simp_all
    then show ?thesis
      using t1(1) t2(1) t3(1) True
      by (simp add: unf bindM_apply seqM_apply del: of_nat_mult of_nat_add)
  qed
qed

section \<open>Properties\<close>

lemma range64:
  assumes "in_segment a n" and "0 < n"
  shows "\<not> (of_nat a :: u64) > RP_ELVEES_MAX_ADDRESS"
    and "\<not> (of_nat a :: u64) + of_nat n > RP_ELVEES_MAX_ADDRESS + 1"
    and "\<not> (of_nat a :: u64) + of_nat n - 1 > RP_ELVEES_MAX_ADDRESS"
proof -
  have b: "a + n \<le> 0x100000000"
    using phys_nat_bound [OF assms] by simp
  have u: "unat (of_nat x :: u64) = x" if "x \<le> 0x100000000" for x
    using that by (simp add: unsigned_of_nat take_bit_nat_eq_self)
  have "(of_nat a :: u64) + of_nat n = of_nat (a + n)" "(of_nat a :: u64) + of_nat n - 1 = of_nat (a + n - 1)"
    using assms(2) by (simp_all add: of_nat_diff)
  then show "\<not> (of_nat a :: u64) > RP_ELVEES_MAX_ADDRESS"
      "\<not> (of_nat a :: u64) + of_nat n > RP_ELVEES_MAX_ADDRESS + 1"
      "\<not> (of_nat a :: u64) + of_nat n - 1 > RP_ELVEES_MAX_ADDRESS"
    using u [of a] u [of "a + n"] u [of "a + n - 1"] b assms(2)
    by (simp_all only: RP_ELVEES_MAX_ADDRESS_def word_less_nat_alt) simp_all
qed

lemma elvees_read_run:
  assumes "plain m view t" and "in_segment a n" and "0 < n"
  shows "\<exists>t'. elvees_read_mem (of_nat a) n (Device t) =
      (Inr (RP_OK, map (mbyte (mem_now m view t)) [phys_nat a..<phys_nat a + n]), Device t') \<and>
    kept m view t t'"
  using read_bytes_run [OF assms] assms(3) range64 [OF assms(2,3)]
  by (auto simp: elvees_read_mem_def with_device_def act_simps)

lemma elvees_write_run:
  assumes "plain m view t" and "in_segment a (length bs)" and "bs \<noteq> []"
  shows "\<exists>t'. elvees_write_mem (of_nat a) bs (Device t) = (Inr RP_OK, Device t') \<and>
    stored m view t (phys_nat a) bs t'"
proof -
  have "0 < length bs"
    using assms(3) by simp
  from range64 [OF assms(2) this] write_bytes_run [OF assms] show ?thesis
    using assms(3) by (auto simp: elvees_write_mem_def with_device_def act_simps)
qed

text \<open>
  C7: on plain memory a read request, at any alignment and of any length
  within one address segment, delivers exactly the bytes of the memory from that address on, in
  order, and changes neither the memory nor the state of the target.
\<close>

theorem elvees_read_mem_bytes:
  assumes "plain m view t" and "in_segment a n" and "0 < n"
  shows "\<exists>t'. elvees_read_mem (of_nat a) n (Device t) =
      (Inr (RP_OK, map (mbyte (mem_now m view t)) [phys_nat a..<phys_nat a + n]), Device t') \<and>
    kept m view t t'"
  using assms by (rule elvees_read_run)

text \<open>
  C6: on plain memory a write request, at any alignment and of any length
  within one address segment, stores exactly the given bytes at that address: every other byte
  of the memory, also in the words that are written in part, keeps its value.
\<close>

theorem elvees_write_mem_bytes:
  assumes "plain m view t" and "in_segment a (length bs)" and "bs \<noteq> []"
  shows "\<exists>t'. elvees_write_mem (of_nat a) bs (Device t) = (Inr RP_OK, Device t') \<and>
    stored m view t (phys_nat a) bs t'"
  using assms by (rule elvees_write_run)

lemma sim_plain: "plain m (\<lambda>c. c) (sim_target (ram m))"
  by (simp add: plain_def sim_good)

lemma sim_mem_now: "mem_now m (\<lambda>c. c) (sim_target (ram m)) = m"
  by (rule ext) (simp add: mem_now_def)

theorem elvees_read_mem_bytes_witness:
  "\<exists>t'. elvees_read_mem 0x80001001 6 (Device (sim_target (ram (\<lambda>_. 0x44332211)))) =
    (Inr (RP_OK, [0x22, 0x33, 0x44, 0x11, 0x22, 0x33]), Device t')"
proof -
  have "map (mbyte (\<lambda>_. 0x44332211)) [4097..<4103] = [0x22, 0x33, 0x44, 0x11, 0x22, 0x33]"
    by (simp add: upt_rec mbyte_def le_bytes_def)
  then show ?thesis
    using elvees_read_mem_bytes [OF sim_plain [of "\<lambda>_. 0x44332211"], of "0x80001001" 6]
    by (auto simp: in_segment_def phys_nat_def sim_mem_now)
qed

theorem elvees_write_mem_bytes_witness:
  "\<exists>t'. elvees_write_mem 0x1003 [7, 8] (Device (sim_target (ram (\<lambda>_. 0x44332211)))) = (Inr RP_OK, Device t') \<and>
    mbyte (mem_now (\<lambda>_. 0x44332211) (\<lambda>c. c) t') 0x1003 = 7 \<and>
    mbyte (mem_now (\<lambda>_. 0x44332211) (\<lambda>c. c) t') 0x1002 = 0x33"
  using elvees_write_mem_bytes [OF sim_plain [of "\<lambda>_. 0x44332211"], of "0x1003" "[7, 8]"]
  by (auto simp: in_segment_def phys_nat_def sim_mem_now stored_def)
    (simp_all add: mbyte_def le_bytes_def)

end
