(* ===== verification/Proxy_Safe.thy ===== *)
theory Proxy_Safe
  imports Proxy_Main Safety
begin

text \<open>
  When the proxy survives a packet. A false assertion or an access outside an object ends the
  process in a way that the code does not mean to happen; \<open>safe P m R\<close> (see Safety) says that \<open>m\<close>, from a
  state with the invariant \<open>P\<close>, never ends like that, keeps \<open>P\<close>, and returns only values with
  \<open>R\<close>. The locale \<open>rp_contract\<close> states what the handlers need of the operations of a target;
  its lemmas show that every handler is safe then.
\<close>

section \<open>The packet layer\<close>

text \<open>No new packet is on its way: the debugger waits for a reply.\<close>

definition quiet :: "conn \<Rightarrow> bool" where
  "quiet c \<longleftrightarrow> RxChar CHR ''$'' \<notin> set (rx c)"

lemma getpkt_quiet:
  "state r = 0 \<Longrightarrow> RxChar CHR ''$'' \<notin> set es \<Longrightarrow> getpkt_loop n timed r es = (res, es', sent) \<Longrightarrow>
   set es' \<subseteq> set es \<and> (case res of Inl e \<Rightarrow> calm_fault e | Inr x \<Rightarrow> \<forall>p. x \<noteq> Rx_packet p)"
proof (induction n timed r es rule: getpkt_loop.induct)
  case (5 n timed r c es)
  then show ?case
    by (auto simp: rx_step_def rx_switch_def rx_idle_def split: if_splits)
qed (auto split: if_splits)

lemma safe_getpkt: "6 < n \<Longrightarrow> safe quiet (rp_getpkt n timed) (\<lambda>x. \<forall>p. x \<noteq> Rx_packet p)"
proof (rule safeI)
  fix s r s'
  assume n: "6 < n" and s: "quiet s" and r: "rp_getpkt n timed s = (r, s')"
  obtain res es' sent where g: "getpkt_loop n timed (rx_start n) (rx s) = (res, es', sent)"
    by (metis prod_cases3)
  have "set es' \<subseteq> set (rx s) \<and> (case res of Inl e \<Rightarrow> calm_fault e | Inr x \<Rightarrow> \<forall>p. x \<noteq> Rx_packet p)"
    using getpkt_quiet [OF _ _ g] s by (simp add: rx_start_def quiet_def)
  then show "quiet s' \<and> (case r of Inl e \<Rightarrow> calm_fault e | Inr x \<Rightarrow> \<forall>p. x \<noteq> Rx_packet p)"
    using n r g s by (auto simp: rp_getpkt_def quiet_def)
qed

lemmas safe_getpkt_any = safe_getpkt [THEN safe_any]

lemma INOUTBUF_SIZE_val [simp]: "RP_PARAM_INOUTBUF_SIZE = 131104"
  by (simp add: RP_PARAM_INOUTBUF_SIZE_def)

lemma safe_flush: "safe quiet (flush_loop k) (\<lambda>_. True)"
  by (induction k) (auto intro!: safe_intros safe_getpkt_any)

lemma safe_sock_write: "safe quiet (dbg_sock_write t) (\<lambda>_. True)"
  by (rule safeI) (auto simp: dbg_sock_write_def quiet_def split: list.splits)

lemma safe_send: "safe quiet (send_loop k t) (\<lambda>_. True)"
  by (induction k) (auto intro!: safe_intros safe_getpkt_any safe_sock_write)

lemma length_cstr: "length (cstr s) \<le> length s"
  unfolding cstr_def by (rule length_takeWhile_le)

lemma safe_putpkt: "length s < RP_PARAM_INOUTBUF_SIZE \<Longrightarrow> safe quiet (rp_putpkt k s) (\<lambda>_. True)"
  using length_cstr [of s] unfolding rp_putpkt_def Let_def
  by (auto intro!: safe_intros safe_flush safe_send)

lemma safe_output: "length pre < 1000 \<Longrightarrow> safe quiet (output_loop k pre s m) (\<lambda>_. True)"
  by (induction m arbitrary: s) (auto intro!: safe_intros safe_putpkt)

lemma safe_console: "safe quiet (rp_console_output k v s) (\<lambda>_. True)"
    and safe_data: "safe quiet (rp_data_output k v s) (\<lambda>_. True)"
  unfolding rp_console_output_def rp_data_output_def by (auto intro!: safe_intros safe_output simp del: output_loop.simps)

section \<open>What the codec delivers\<close>

lemma decode_data_loop_bound:
  "decode_data_loop n inp out = Some d \<Longrightarrow> length d \<le> n + length out"
  by (induction n inp out rule: decode_data_loop.induct) (auto split: if_splits option.splits)

lemma decode_assignment_bound:
  "rp_decode_reg_assignment inp n = Some (r, d) \<Longrightarrow> 9 < n \<Longrightarrow> length d < n"
  by (auto simp: rp_decode_reg_assignment_def rp_decode_data_def dest!: decode_data_loop_bound
      split: option.splits)

lemma encode_data_fits:
  "rp_encode_data d n = Inr (Some s) \<Longrightarrow> length s < n"
  by (auto simp: rp_encode_data_def length_concat o_def sum_list_triv split: if_splits)

lemma encode_regs_fits:
  "rp_encode_regs d a n = Inr (Some s) \<Longrightarrow> length s < n"
proof -
  assume h: "rp_encode_regs d a n = Inr (Some s)"
  have "length (concat (map (\<lambda>(d, a). if a \<noteq> 0 then rp_encode_byte d else ''xx'') xs)) = 2 * length xs"
    for xs :: "(u8 \<times> u8) list"
    by (induction xs) auto
  then show ?thesis
    using h by (auto simp: rp_encode_regs_def split: if_splits)
qed

lemma encode_calm: "d \<noteq> [] \<Longrightarrow> 0 < n \<Longrightarrow> rp_encode_regs d a n \<noteq> Inl e"
    "d \<noteq> [] \<Longrightarrow> 0 < n \<Longrightarrow> rp_encode_data d n \<noteq> Inl e"
  by (simp_all add: rp_encode_regs_def rp_encode_data_def)

lemma length_retval: "length (rp_write_retval r) < 4"
  by (cases r) (simp_all add: rp_write_retval_def)

lemma listq_found_size: "listq_found fs out room = Some s \<Longrightarrow> length s < length out + room \<or> fs = []"
  by (induction fs arbitrary: out room) (fastforce simp: sprintf_016Lx_def split: if_splits)+

lemma encode_list_fits:
  assumes "rp_encode_list_query_response dn arg fs 131104 = Inr (Some s)"
  shows "length s < 131104"
proof -
  have "length s < 21 + 131083 \<or> fs = []"
    using assms listq_found_size [of fs _ _ s]
    by (fastforce simp: rp_encode_list_query_response_def sprintf_016Lx_def split: if_splits)
  then show ?thesis
    using assms by (auto simp: rp_encode_list_query_response_def sprintf_016Lx_def split: if_splits)
qed

lemma encode_process_run:
  "rp_encode_process_query_response msk ref info 131104 =
   Inr (Some (''qQ'' @ sprintf_08x msk @ sprintf_016Lx ref))"
  by (simp add: rp_encode_process_query_response_def procq_loop_0)

lemma length_sprintf_Lx: "length (sprintf_Lx v) \<le> 16"
proof -
  have "length (dropWhile (\<lambda>c. c = CHR ''0'') (hex_digits 16 v)) \<le> 16"
    using length_dropWhile_le [of "\<lambda>c. c = CHR ''0''" "hex_digits 16 v"] by simp
  then show ?thesis
    by (auto simp: sprintf_Lx_def split: list.splits)
qed

section \<open>The invariant of the proxy\<close>

text \<open>
  Besides the target and the connection: the strings fit their buffers, the stack buffers have
  their size, and the extended protocol is only on when the target can restart.
\<close>

definition pinv :: "('d \<Rightarrow> bool) \<Rightarrow> 'd proxy \<Rightarrow> bool" where
  "pinv D p \<longleftrightarrow> D (tgt p) \<and> quiet (cn p) \<and> length (status_string p) < RP_PARAM_INOUTBUF_SIZE \<and>
     length (out_buf p) < RP_PARAM_INOUTBUF_SIZE \<and> length (stack_data p) = RP_PARAM_DATABYTES_MAX \<and>
     length (stack_avail p) = RP_PARAM_DATABYTES_MAX \<and> (extended_protocol p \<longrightarrow> can_restart p)"

lemma safe_on_tgt [safe_intros]: "safe D m R \<Longrightarrow> safe (pinv D) (on_tgt m) R"
  unfolding on_tgt_def by (rule safe_zoomM) (auto simp: pinv_def)

lemma safe_on_conn [safe_intros]: "safe quiet m R \<Longrightarrow> safe (pinv D) (on_conn m) R"
  unfolding on_conn_def by (rule safe_zoomM) (auto simp: pinv_def)

lemma safe_on_both: "safe (\<lambda>(d, c). D d \<and> quiet c) m R \<Longrightarrow> safe (pinv D) (on_both m) R"
  unfolding on_both_def by (erule safe_zoomM) (auto simp: pinv_def)

lemma safe_set_out [safe_intros]: "length s < RP_PARAM_INOUTBUF_SIZE \<Longrightarrow> safe (pinv D) (set_out s) (\<lambda>_. True)"
  unfolding set_out_def by (intro safe_intros) (auto simp: pinv_def)

lemma safe_reply [safe_intros]: "safe (pinv D) (reply r) (\<lambda>_. True)"
  using length_retval [of r] unfolding reply_def by (intro safe_intros) simp

lemma safe_put_out [safe_intros]: "safe (pinv D) (put_out k) (\<lambda>_. True)"
  unfolding put_out_def by (intro safe_intros safe_putpkt) (auto simp: pinv_def)

lemma safe_sock_close [safe_intros]: "safe (pinv D) dbg_sock_close (\<lambda>_. True)"
  unfolding dbg_sock_close_def by (intro safe_intros) (auto simp: quiet_def)

lemma safe_used: "x \<noteq> None \<Longrightarrow> safe P (used x) (\<lambda>y. x = Some y)"
  by (auto simp: used_def intro!: safe_intros)

lemma used_Some [simp]: "used (Some x) = retM x"
  by (simp add: used_def)

lemma safe_encode_out:
  assumes "\<And>s. r = Inr (Some s) \<Longrightarrow> length s < RP_PARAM_INOUTBUF_SIZE" and "\<And>e. r = Inl e \<Longrightarrow> calm_fault e"
  shows "safe (pinv D) (encode_out r) (\<lambda>_. True)"
  unfolding encode_out_def
  by (rule safe_bindM [where R = "\<lambda>x. r = Inr x"]) (use assms in \<open>auto intro!: safe_intros safe_liftM\<close>)

lemma safe_encode_reply:
  assumes "\<And>s. r = Inr (Some s) \<Longrightarrow> length s < RP_PARAM_INOUTBUF_SIZE" and "\<And>e. r = Inl e \<Longrightarrow> calm_fault e"
  shows "safe (pinv D) (bindM (liftM r) (\<lambda>x. case x of None \<Rightarrow> reply RP_ERR | Some s \<Rightarrow> set_out s)) (\<lambda>_. True)"
  by (rule safe_bindM [where R = "\<lambda>x. r = Inr x"]) (use assms in \<open>auto intro!: safe_intros safe_liftM\<close>)

lemma safe_strcpy_status [safe_intros]: "safe (pinv D) strcpy_status (\<lambda>_. True)"
  unfolding strcpy_status_def by (intro safe_intros) (auto simp: pinv_def)

lemma safe_not_running [safe_intros]: "safe (pinv D) (modM not_running) (\<lambda>_. True)"
  by (intro safe_intros) (auto simp: pinv_def not_running_def)

lemma safe_and_reply [safe_intros]: "safe P m (\<lambda>_. True) \<Longrightarrow> safe P (and_reply m) (\<lambda>_. True)"
  unfolding and_reply_def by (intro safe_intros) simp_all

section \<open>The contract of a target\<close>

text \<open>
  What the target accepts: the data of a write of all registers and of one register, the text
  of a remote command, and whether it can tell if a thread is alive. \<open>packet_ok\<close> is what a
  packet has to respect.
\<close>

definition packet_ok ::
  "(u8 list \<Rightarrow> bool) \<Rightarrow> (u8 list \<Rightarrow> bool) \<Rightarrow> (string \<Rightarrow> bool) \<Rightarrow> bool \<Rightarrow> string \<Rightarrow> bool" where
  "packet_ok regs_ok reg_ok cmd_ok thread_ok inp \<longleftrightarrow> (let c = peek inp in
     (c = CHR ''G'' \<longrightarrow> pred_option regs_ok (rp_decode_data (tl inp) RP_PARAM_DATABYTES_MAX)) \<and>
     (c = CHR ''P'' \<longrightarrow> pred_option (\<lambda>(r, d). reg_ok d) (rp_decode_reg_assignment (tl inp) RP_PARAM_DATABYTES_MAX)) \<and>
     (c = CHR ''m'' \<longrightarrow> pred_option (\<lambda>(a, n). n \<noteq> 0) (rp_decode_mem (tl inp))) \<and>
     (c = CHR ''T'' \<longrightarrow> thread_ok \<or> rp_decode_uint64 (tl inp) NUL = None) \<and>
     (c = CHR ''q'' \<longrightarrow> starts ''Rcmd,'' (tl inp) \<longrightarrow> cmd_ok (drop 6 inp)))"

locale rp_contract =
  fixes t :: "'d rp_target" and D :: "'d \<Rightarrow> bool" and regs_ok :: "u8 list \<Rightarrow> bool"
    and reg_ok :: "u8 list \<Rightarrow> bool" and cmd_ok :: "string \<Rightarrow> bool" and thread_ok :: bool
  assumes close: "safe D (rt_close t) (\<lambda>_. True)"
    and disconnect: "safe D (rt_disconnect t) (\<lambda>_. True)"
    and kill: "safe D (rt_kill t) (\<lambda>_. True)"
    and restart: "safe D (rt_restart t) (\<lambda>r. r \<noteq> RP_NOSUPP)"
    and stop: "safe D (rt_stop t) (\<lambda>_. True)"
    and set_gen_thread: "safe D (rt_set_gen_thread t ref) (\<lambda>_. True)"
    and set_ctrl_thread: "safe D (rt_set_ctrl_thread t ref) (\<lambda>_. True)"
    and is_thread_alive: "thread_ok \<Longrightarrow> safe D (rt_is_thread_alive t ref) (\<lambda>(r, a). r = RP_OK \<longrightarrow> a \<noteq> None)"
    and read_registers: "length data = RP_PARAM_DATABYTES_MAX \<Longrightarrow> length avail = RP_PARAM_DATABYTES_MAX \<Longrightarrow>
      safe D (rt_read_registers t data avail) (\<lambda>(r, d, a, n). r \<noteq> RP_NOSUPP \<and>
        (r = RP_OK \<longrightarrow> 0 < n \<and> n \<le> RP_PARAM_DATABYTES_MAX \<and> length d = RP_PARAM_DATABYTES_MAX))"
    and write_registers: "regs_ok data \<Longrightarrow> safe D (rt_write_registers t data) (\<lambda>_. True)"
    and read_single_register: "length data = RP_PARAM_DATABYTES_MAX \<Longrightarrow> length avail = RP_PARAM_DATABYTES_MAX \<Longrightarrow>
      safe D (rt_read_single_register t reg data avail) (\<lambda>(r, d, a, n). r \<noteq> RP_NOSUPP \<and>
        (r = RP_OK \<longrightarrow> 0 < n \<and> n \<le> RP_PARAM_DATABYTES_MAX \<and> length d = RP_PARAM_DATABYTES_MAX))"
    and write_single_register: "reg_ok data \<Longrightarrow> safe D (rt_write_single_register t reg data) (\<lambda>_. True)"
    and read_mem: "0 < n \<Longrightarrow> n \<le> 184 \<Longrightarrow> safe D (rt_read_mem t addr n)
      (\<lambda>(r, bs). r \<noteq> RP_NOSUPP \<and> (r = RP_OK \<longrightarrow> bs \<noteq> [] \<and> length bs \<le> n))"
    and write_mem: "safe D (rt_write_mem t addr bs) (\<lambda>_. True)"
    and resume_from_current: "safe D (rt_resume_from_current t step sig) (\<lambda>_. True)"
    and resume_from_addr: "safe D (rt_resume_from_addr t step sig addr) (\<lambda>_. True)"
    and go_waiting: "safe D (rt_go_waiting t sig) (\<lambda>_. True)"
    and wait_partial: "(\<And>s. safe quiet (out s) (\<lambda>_. True)) \<Longrightarrow> length st < RP_PARAM_INOUTBUF_SIZE \<Longrightarrow>
      safe (\<lambda>(d, c). D d \<and> quiet c) (rt_wait_partial t first st RP_PARAM_INOUTBUF_SIZE out)
        (\<lambda>(r, st', imp, more). length st' < RP_PARAM_INOUTBUF_SIZE \<and> imp = Some True \<and> (r = RP_OK \<longrightarrow> more \<noteq> None))"
    and process_query: "safe D (rt_process_query t msk ref info) (\<lambda>_. True)"
    and list_query: "safe D (rt_list_query t first ref n) (\<lambda>_. True)"
    and current_thread_query: "safe D (rt_current_thread_query t) (\<lambda>_. True)"
    and offsets_query: "safe D (rt_offsets_query t) (\<lambda>_. True)"
    and crc_query: "safe D (rt_crc_query t addr n) (\<lambda>_. True)"
    and raw_query: "safe D (rt_raw_query t inp n) (\<lambda>(r, out). r = RP_OK \<longrightarrow> length out < n)"
    and remcmd: "cmd_ok inp \<Longrightarrow> (\<And>s. safe quiet (o1 s) (\<lambda>_. True)) \<Longrightarrow> (\<And>s. safe quiet (o2 s) (\<lambda>_. True)) \<Longrightarrow>
      safe (\<lambda>(d, c). D d \<and> quiet c) (rt_remcmd t inp o1 o2) (\<lambda>_. True)"
    and add_break: "safe D (rt_add_break t type addr len) (\<lambda>_. True)"
    and remove_break: "safe D (rt_remove_break t type addr len) (\<lambda>_. True)"
begin

lemmas ops = close disconnect kill restart [THEN safe_any] stop set_gen_thread set_ctrl_thread write_mem
  resume_from_current resume_from_addr go_waiting process_query list_query current_thread_query
  offsets_query crc_query add_break remove_break

lemma search_safe: "safe (pinv D) (handle_search_memory_command inp) (\<lambda>_. True)"
  unfolding handle_search_memory_command_def by (intro safe_intros)

lemma thread_safe: "safe (pinv D) (handle_thread_commands t inp n) (\<lambda>_. True)"
  unfolding handle_thread_commands_def by (intro safe_intros ops) simp_all

lemma reply_regs_safe:
  assumes "case r of (ret, d, a, n) \<Rightarrow> ret \<noteq> RP_NOSUPP \<and>
    (ret = RP_OK \<longrightarrow> 0 < n \<and> n \<le> RP_PARAM_DATABYTES_MAX \<and> length d = RP_PARAM_DATABYTES_MAX)"
  shows "safe (pinv D) (reply_regs r) (\<lambda>_. True)"
proof -
  obtain ret d a n where r: "r = (ret, d, a, n)"
    by (metis prod_cases4)
  have "ret = RP_OK \<Longrightarrow> take n d \<noteq> []"
    using assms by (auto simp: r RP_PARAM_DATABYTES_MAX_def)
  then show ?thesis
    using assms unfolding r reply_regs_def
    by (cases ret) (auto intro!: safe_intros safe_encode_out dest: encode_regs_fits
        simp: encode_calm RP_PARAM_DATABYTES_MAX_def simp del: take_eq_Nil)
qed

lemma read_registers_safe: "safe (pinv D) (handle_read_registers_command t) (\<lambda>_. True)"
  unfolding handle_read_registers_command_def
  by (intro safe_bind_get safe_bindM [OF safe_on_tgt [OF read_registers]] reply_regs_safe)
    (auto simp: pinv_def)

lemma write_registers_safe:
  "pred_option regs_ok (rp_decode_data (tl inp) RP_PARAM_DATABYTES_MAX) \<Longrightarrow>
   safe (pinv D) (handle_write_registers_command t inp) (\<lambda>_. True)"
  unfolding handle_write_registers_command_def
  by (auto intro!: safe_intros write_registers split: option.splits)

lemma read_register_safe: "safe (pinv D) (handle_read_single_register_command t inp) (\<lambda>_. True)"
  unfolding handle_read_single_register_command_def
  by (intro safe_case_option safe_case_prod safe_reply safe_bind_get
      safe_bindM [OF safe_on_tgt [OF read_single_register]] reply_regs_safe) (auto simp: pinv_def)

lemma write_register_safe:
  "pred_option (\<lambda>(r, d). reg_ok d) (rp_decode_reg_assignment (tl inp) RP_PARAM_DATABYTES_MAX) \<Longrightarrow>
   safe (pinv D) (handle_write_single_register_command t inp) (\<lambda>_. True)"
  unfolding handle_write_single_register_command_def
  by (auto intro!: safe_intros write_single_register dest: decode_assignment_bound split: option.splits
      simp: RP_PARAM_DATABYTES_MAX_def)

lemma read_memory_safe:
  assumes "pred_option (\<lambda>(a, n). n \<noteq> 0) (rp_decode_mem (tl inp))"
  shows "safe (pinv D) (handle_read_memory_command t inp) (\<lambda>_. True)"
proof (cases "rp_decode_mem (tl inp)")
  case None
  then show ?thesis
    by (simp add: handle_read_memory_command_def safe_reply)
next
  case (Some x)
  obtain addr n where x: "x = (addr, n)"
    by fastforce
  let ?n = "min (unat n) ((RP_VAL_DBG_PBUFSIZ - 32) div 2)"
  have n: "0 < ?n" "?n \<le> 184"
    using assms Some x by (auto simp: RP_VAL_DBG_PBUFSIZ_def unat_gt_0)
  show ?thesis
    unfolding handle_read_memory_command_def Some x option.case prod.case
  proof (rule safe_bindM [OF safe_on_tgt [OF read_mem [OF n]]], clarify)
    fix ret and bs :: "u8 list"
    assume "ret \<noteq> RP_NOSUPP" "ret = RP_OK \<longrightarrow> bs \<noteq> [] \<and> length bs \<le> ?n"
    then show "safe (pinv D) (case ret of
        RP_OK \<Rightarrow> seqM (assertM (length bs \<le> RP_PARAM_DATABYTES_MAX))
          (encode_out (rp_encode_data bs RP_PARAM_INOUTBUF_SIZE))
      | RP_ERR \<Rightarrow> reply RP_ERR | RP_NOSUPP \<Rightarrow> failM Assert_fail) (\<lambda>_. True)"
      using n by (cases ret) (auto intro!: safe_intros safe_encode_out dest: encode_data_fits
          simp: encode_calm RP_PARAM_DATABYTES_MAX_def)
  qed
qed

lemma write_memory_safe: "safe (pinv D) (handle_write_memory_command t inp) (\<lambda>_. True)"
  unfolding handle_write_memory_command_def by (intro safe_intros ops)

lemma wait_started_safe: "safe (pinv D) (wait_started k t) (\<lambda>_. True)"
proof -
  let ?R = "\<lambda>(r, st', imp, more). length st' < RP_PARAM_INOUTBUF_SIZE \<and> imp = Some True \<and>
    (r = RP_OK \<longrightarrow> more \<noteq> None)"
  have w: "safe (pinv D) (on_both (rt_wait_partial t True st RP_PARAM_INOUTBUF_SIZE (rp_console_output k True))) ?R"
    if "length st < RP_PARAM_INOUTBUF_SIZE" for st
    using that by (intro safe_on_both wait_partial safe_console)
  show ?thesis
    unfolding wait_started_def
  proof (intro safe_seqM safe_bind_get safe_bindM [OF w], goal_cases)
    case (3 s x)
    obtain r st' imp more where x: "x = (r, st', imp, more)"
      by (metis prod_cases4)
    have st': "length st' < RP_PARAM_INOUTBUF_SIZE" and imp: "imp = Some True"
      using 3 x by simp_all
    show ?case
    proof (cases "r = RP_OK")
      case True
      then obtain b where "more = Some b"
        using 3 x by auto
      then show ?thesis
        using True st' unfolding x imp
        by (simp del: INOUTBUF_SIZE_val) (intro safe_intros; auto simp: pinv_def)
    next
      case False
      then show ?thesis
        using st' unfolding x imp
        by (simp del: INOUTBUF_SIZE_val) (intro safe_intros; auto simp: pinv_def)
    qed
  qed (auto simp: pinv_def intro!: safe_intros)
qed

lemma running_safe: "safe (pinv D) (handle_running_commands k t inp) (\<lambda>_. True)"
  unfolding handle_running_commands_def Let_def by (intro safe_intros ops wait_started_safe)

lemma kill_safe: "safe (pinv D) (handle_kill_command k t) (\<lambda>_. True)"
proof -
  have r: "safe (pinv D) (bindM (on_tgt (rt_restart t)) (\<lambda>ret. seqM (assertM (ret \<noteq> RP_NOSUPP))
      (if ret \<noteq> RP_OK then
         seqM (on_tgt (rt_close t)) (seqM (reply RP_ERR) (seqM (put_out k) (seqM dbg_sock_close (retM 0))))
       else retM (1 :: int)))) (\<lambda>_. True)"
    by (rule safe_bindM [OF safe_on_tgt [OF restart]]) (intro safe_intros ops; simp)
  show ?thesis
    unfolding handle_kill_command_def
    by (intro safe_seqM safe_on_tgt kill safe_bind_get safe_if r) (auto intro!: safe_intros ops)
qed

lemma alive_safe:
  assumes "thread_ok \<or> rp_decode_uint64 (tl inp) NUL = None"
  shows "safe (pinv D) (handle_thread_alive_command t inp) (\<lambda>_. True)"
proof (cases "rp_decode_uint64 (tl inp) NUL")
  case None
  then show ?thesis
    by (simp add: handle_thread_alive_command_def safe_reply)
next
  case (Some x)
  then have ok: thread_ok
    using assms by simp
  show ?thesis
    unfolding handle_thread_alive_command_def Some option.case
    by (intro safe_case_prod safe_bindM [OF safe_on_tgt [OF is_thread_alive [OF ok]]])
      (auto intro!: safe_intros)
qed

lemma restart_safe: "safe (pinv D) (handle_restart_target_command k t) (\<lambda>_. True)"
proof -
  let ?go = "bindM (on_tgt (rt_restart t)) (\<lambda>ret. if ret \<noteq> RP_OK then
      seqM (on_tgt (rt_close t)) (seqM (reply RP_ERR) (seqM (put_out k) (seqM dbg_sock_close (retM (-1)))))
    else retM 1)"
  have eq: "handle_restart_target_command k t = bindM (getM (\<lambda>p. (extended_protocol p, can_restart p)))
      (\<lambda>(ext, cr). if \<not> ext then retM 0 else seqM (assertM cr) ?go)"
    by (rule ext) (simp add: handle_restart_target_command_def bindM_apply)
  have "safe (pinv D) ?go (\<lambda>_. True)"
    by (intro safe_intros ops) simp_all
  then show ?thesis
    unfolding eq by (intro safe_bind_get) (auto simp: pinv_def intro!: safe_intros ops)
qed

lemma detach_safe: "safe (pinv D) (handle_detach_command k t) (\<lambda>_. True)"
  unfolding handle_detach_command_def by (intro safe_intros ops) simp_all

lemma query_list_safe: "safe (pinv D) (query_list t inp) (\<lambda>_. True)"
proof -
  have "rp_encode_list_query_response dn arg fs 131104 \<noteq> Inl e" if "length fs \<le> 255" for dn arg fs e
    using that by (auto simp: rp_encode_list_query_response_def)
  then show ?thesis
    unfolding query_list_def
    by (intro safe_case_option safe_case_prod safe_if safe_reply safe_bind_any safe_on_tgt ops safe_encode_reply)
      (auto simp: encode_list_fits)
qed

lemma query_process_safe: "safe (pinv D) (query_process t inp) (\<lambda>_. True)"
  unfolding query_process_def INOUTBUF_SIZE_val encode_process_run
  by (intro safe_case_prod safe_if safe_reply safe_bind_any safe_on_tgt ops safe_encode_reply)
    (auto simp: sprintf_08x_def sprintf_016Lx_def)

lemma query_safe:
  assumes "starts ''Rcmd,'' (tl inp) \<longrightarrow> cmd_ok (drop 6 inp)"
  shows "safe (pinv D) (handle_query_command k t inp n) (\<lambda>_. True)"
proof -
  note len = length_sprintf_Lx
  have off: "safe (pinv D) (set_out (''Text='' @ sprintf_Lx a @ '';Data='' @ sprintf_Lx b @ '';Bss='' @ sprintf_Lx c))
      (\<lambda>_. True)" for a b c
    using len [of a] len [of b] len [of c] by (intro safe_set_out) simp
  have crc: "safe (pinv D) (set_out (CHR ''C'' # sprintf_Lx v)) (\<lambda>_. True)" for v
    using len [of v] by (intro safe_set_out) simp
  have cur: "safe (pinv D) (set_out (''QC'' @ sprintf_Lx v)) (\<lambda>_. True)" for v
    using len [of v] by (intro safe_set_out) simp
  have rcmd: "safe (pinv D) (on_both (rt_remcmd t (drop 6 inp) (rp_console_output k True) (rp_data_output k True)))
      (\<lambda>_. True)" if "starts ''Rcmd,'' (tl inp)"
    using that assms by (intro safe_on_both remcmd safe_console safe_data) simp
  have raw: "safe (pinv D) (bindM (on_tgt (rt_raw_query t inp RP_PARAM_INOUTBUF_SIZE)) (\<lambda>(ret, out).
      if ret \<noteq> RP_OK then reply ret else set_out out)) (\<lambda>_. True)"
    by (rule safe_bindM [OF safe_on_tgt [OF raw_query]]) (auto intro!: safe_intros)
  show ?thesis
    unfolding handle_query_command_def
    by (intro safe_if safe_case_option safe_case_prod safe_bind_any safe_seqM safe_retM TrueI safe_on_tgt
        safe_reply safe_modM ops off crc cur rcmd raw query_list_safe query_process_safe)
      (simp_all add: pinv_def)
qed

lemma break_safe: "safe (pinv D) (handle_breakpoint_command t inp) (\<lambda>_. True)"
  unfolding handle_breakpoint_command_def by (intro safe_intros ops)

lemmas handlers_safe = search_safe thread_safe read_registers_safe write_registers_safe read_register_safe
  write_register_safe read_memory_safe write_memory_safe running_safe kill_safe alive_safe restart_safe
  detach_safe query_safe break_safe

lemma dispatch_safe:
  assumes "packet_ok regs_ok reg_ok cmd_ok thread_ok inp"
  shows "safe (pinv D) (dispatch k t inp n) (\<lambda>_. True)"
proof -
  have ext: "safe (pinv D) extended_operation (\<lambda>_. True)"
  proof -
    have eq: "extended_operation = bindM (getM can_restart) (\<lambda>cr. whenM cr
        (seqM (modM (\<lambda>p. if can_restart p then p\<lparr>extended_protocol := True\<rparr> else p)) (reply RP_OK)))"
      by (rule ext) (simp add: extended_operation_def bindM_apply whenM_apply seqM_apply)
    show ?thesis
      unfolding eq by (intro safe_intros) (auto simp: pinv_def)
  qed
  have status: "safe (pinv D) (bindM (getM status_string) set_out) (\<lambda>_. True)"
    by (intro safe_bind_get safe_set_out) (auto simp: pinv_def)
  show ?thesis
    using assms unfolding dispatch_def packet_ok_def Let_def
    by (intro safe_if safe_and_reply safe_seqM safe_bind_any safe_modM safe_retM TrueI ext status
        safe_get_any handlers_safe) (simp_all add: pinv_def)
qed

lemma packet_safe:
  assumes "\<And>st. packet_ok regs_ok reg_ok cmd_ok thread_ok (pkt @ NUL # st)" and "NUL \<notin> set pkt"
  shows "safe (pinv D) (handle_packet k t pkt) (\<lambda>_. True)"
  using assms(2) unfolding handle_packet_def Let_def
  by (intro safe_bind_get safe_seqM safe_bind_any safe_assertM safe_reply safe_modM safe_whenM TrueI
      dispatch_safe assms(1) safe_put_out) (simp_all add: pinv_def)

lemma poll_safe: "safe (pinv D) (poll_target k t) (\<lambda>_. True)"
proof -
  let ?R = "\<lambda>(r, st', imp, more). length st' < RP_PARAM_INOUTBUF_SIZE \<and> imp = Some True \<and>
    (r = RP_OK \<longrightarrow> more \<noteq> None)"
  have w: "safe (pinv D) (on_both (rt_wait_partial t False st RP_PARAM_INOUTBUF_SIZE (rp_console_output k v))) ?R"
    if "length st < RP_PARAM_INOUTBUF_SIZE" for st v
    using that by (intro safe_on_both wait_partial safe_console)
  show ?thesis
    unfolding poll_target_def
  proof (intro safe_bind_get safe_whenM safe_bindM [OF w] TrueI, goal_cases)
    case (2 p x)
    obtain r st' imp more where x: "x = (r, st', imp, more)"
      by (metis prod_cases4)
    have st': "length st' < RP_PARAM_INOUTBUF_SIZE" and imp: "imp = Some True"
        and more: "r = RP_OK \<Longrightarrow> \<exists>b. more = Some b"
      using 2 x by auto
    show ?case
      using st' more unfolding x imp
      by (cases "r = RP_OK") (auto simp: pinv_def intro!: safe_intros)
  qed (auto simp: pinv_def)
qed

end

end
