(* ===== verification/Elvees_Safe.thy ===== *)
theory Elvees_Safe
  imports Elvees Proxy_Safe
begin

text \<open>
  The target layer and remote-elvees.c satisfy the contract of the proxy: over an adapter whose
  functions only end the process by a call of \<open>exit\<close>, no operation runs into a false assertion
  or an access outside an object, and the proxy handles every packet but the listed ones.
\<close>

section \<open>Adapters and the target layer\<close>

definition calm_adapter :: "'w adapter \<Rightarrow> bool" where
  "calm_adapter a \<longleftrightarrow>
     safe (\<lambda>_. True) (a_close a) (\<lambda>_. True) \<and> safe (\<lambda>_. True) (a_cpu_stopped a) (\<lambda>_. True) \<and>
     safe (\<lambda>_. True) (a_stop_cpu a) (\<lambda>_. True) \<and> safe (\<lambda>_. True) (a_reset_cpu a) (\<lambda>_. True) \<and>
     (\<forall>v r n. safe (\<lambda>_. True) (a_oncd_write a v r n) (\<lambda>_. True)) \<and>
     (\<forall>r n. safe (\<lambda>_. True) (a_oncd_read a r n) (\<lambda>_. True)) \<and>
     (\<forall>f. a_step_cpu a = Some f \<longrightarrow> safe (\<lambda>_. True) f (\<lambda>_. True)) \<and>
     (\<forall>f. a_run_cpu a = Some f \<longrightarrow> safe (\<lambda>_. True) f (\<lambda>_. True)) \<and>
     (\<forall>f n addr. a_read_block a = Some f \<longrightarrow> safe (\<lambda>_. True) (f n addr) (\<lambda>ws. length ws = n)) \<and>
     (\<forall>f n addr data. a_write_block a = Some f \<longrightarrow> n \<le> length data \<longrightarrow>
        safe (\<lambda>_. True) (f n addr data) (\<lambda>_. True))"

definition calm :: "'w target \<Rightarrow> bool" where
  "calm t \<longleftrightarrow> calm_adapter (t_adapter t)"

named_theorems calm_intros "operations of the target layer that are safe"

lemma safe_on_adapter:
  assumes "\<And>a. calm_adapter a \<Longrightarrow> safe (\<lambda>_. True) (f a) R"
  shows "safe calm (on_adapter f) R"
  using assms unfolding safe_def on_adapter_def calm_def by (auto split: prod.splits) (metis fst_conv)

lemma calm_mod [calm_intros]: "(\<And>t. t_adapter (g t) = t_adapter t) \<Longrightarrow> safe calm (modM g) (\<lambda>_. True)"
  by (intro safe_intros) (simp_all add: calm_def)

lemma calm_oncd [calm_intros]:
  "safe calm (oncd_write v r n) (\<lambda>_. True)" "safe calm (oncd_read r n) (\<lambda>_. True)"
  unfolding oncd_write_def oncd_read_def by (intro safe_on_adapter; simp add: calm_adapter_def)+

lemma calm_fixed [calm_intros]:
  "safe calm (on_adapter a_close) (\<lambda>_. True)" "safe calm (on_adapter a_cpu_stopped) (\<lambda>_. True)"
  "safe calm (on_adapter a_stop_cpu) (\<lambda>_. True)" "safe calm (on_adapter a_reset_cpu) (\<lambda>_. True)"
  by (intro safe_on_adapter; simp add: calm_adapter_def)+

lemma calm_seqs_Nil [calm_intros]: "safe calm (seqsM []) (\<lambda>_. True)"
  by (simp add: safe_retM)

lemma calm_seqs_Cons [calm_intros]:
  "safe calm m (\<lambda>_. True) \<Longrightarrow> safe calm (seqsM ms) (\<lambda>_. True) \<Longrightarrow> safe calm (seqsM (m # ms)) (\<lambda>_. True)"
  by (simp add: safe_seqM)

lemma calm_oscr [calm_intros]:
  "safe calm get_oscr (\<lambda>_. True)" "safe calm (set_oscr v) (\<lambda>_. True)" "safe calm (upd_oscr f) (\<lambda>_. True)"
  "safe calm send_oscr (\<lambda>_. True)"
proof -
  show 1: "safe calm get_oscr (\<lambda>_. True)" and 2: "safe calm (set_oscr v) (\<lambda>_. True)" for v
    unfolding get_oscr_def set_oscr_def by (intro safe_intros calm_intros; simp)+
  show "safe calm (upd_oscr f) (\<lambda>_. True)" "safe calm send_oscr (\<lambda>_. True)"
    unfolding upd_oscr_def send_oscr_def by (intro safe_bind_any 1 2 calm_intros)+
qed

lemma calm_wait [calm_intros]: "safe calm (wait_rdym n) (\<lambda>_. True)"
  by (induction n) (auto intro!: safe_intros calm_intros)

lemma calm_words [calm_intros]:
  "safe calm (target_write_next a d) (\<lambda>_. True)" "safe calm (target_write_word a d) (\<lambda>_. True)"
  "safe calm target_read_start (\<lambda>_. True)" "safe calm (target_read_next a) (\<lambda>_. True)"
  "safe calm (target_read_word a) (\<lambda>_. True)"
proof -
  show 1: "safe calm (target_write_next a d) (\<lambda>_. True)" for a d
    unfolding target_write_next_def by (intro safe_intros calm_intros) simp_all
  show "safe calm (target_write_word a d) (\<lambda>_. True)"
    unfolding target_write_word_def Let_def by (intro safe_bind_any safe_seqM safe_whenM TrueI calm_intros 1)
  show 2: "safe calm target_read_start (\<lambda>_. True)"
    unfolding target_read_start_def Let_def by (intro safe_bind_any safe_seqM safe_whenM TrueI calm_intros)
  show 3: "safe calm (target_read_next a) (\<lambda>_. True)" for a
    unfolding target_read_next_def by (intro safe_intros calm_intros) simp_all
  show "safe calm (target_read_word a) (\<lambda>_. True)"
    unfolding target_read_word_def by (intro safe_intros 2 3)
qed

lemma calm_exec [calm_intros]: "safe calm (target_exec i) (\<lambda>_. True)"
  unfolding target_exec_def by (intro calm_intros)

lemma calm_regf [calm_intros]:
  "safe calm (regf_read g n) (\<lambda>_. True)" "safe calm (regf_write g n v) (\<lambda>_. True)"
  unfolding regf_read_def regf_write_def Let_def by (intro safe_seqM calm_intros)+

lemma calm_reg [calm_intros]:
  "safe calm (target_read_reg n) (\<lambda>_. True)" "safe calm (target_write_reg n v) (\<lambda>_. True)"
  unfolding target_read_reg_def target_write_reg_def by (intro safe_intros calm_intros)+

lemma calm_cp [calm_intros]:
  "safe calm (target_read_cp0 n) (\<lambda>_. True)" "safe calm (target_write_cp0 n v) (\<lambda>_. True)"
  "safe calm (target_read_fpu n) (\<lambda>_. True)" "safe calm (target_write_fpu n v) (\<lambda>_. True)"
  "safe calm (target_read_fpuctl n) (\<lambda>_. True)" "safe calm (target_write_fpuctl n v) (\<lambda>_. True)"
  "safe calm (fetch_hilo n i) (\<lambda>_. True)" "safe calm (store_hilo n i v) (\<lambda>_. True)"
  unfolding target_read_cp0_def target_write_cp0_def target_read_fpu_def target_write_fpu_def
    target_read_fpuctl_def target_write_fpuctl_def fetch_hilo_def store_hilo_def
  by (intro safe_intros calm_intros)+

lemma calm_cached [calm_intros]:
  "safe calm m (\<lambda>_. True) \<Longrightarrow> (\<And>x t. t_adapter (h x t) = t_adapter t) \<Longrightarrow>
   safe calm (cached f g m h) (\<lambda>_. True)"
  unfolding cached_def by (intro safe_seqM safe_bind_any safe_get_any safe_whenM TrueI calm_mod) simp_all

lemma keep_adapter [simp]:
  "t_adapter (keep_reg n x t) = t_adapter t" "t_adapter (keep_cp0 n x t) = t_adapter t"
  "t_adapter (keep_fpu n x t) = t_adapter t" "t_adapter (invalidate_regs t) = t_adapter t"
  by (simp_all add: keep_reg_def keep_cp0_def keep_fpu_def invalidate_regs_def)

lemma calm_register [calm_intros]:
  "safe calm (target_read_register n) (\<lambda>_. True)" "safe calm (target_write_register n v) (\<lambda>_. True)"
  unfolding target_read_register_def target_write_register_def read_cached_cp0_def
  by (intro safe_if calm_cached calm_cp calm_reg safe_get_any safe_retM safe_seqM calm_mod TrueI; simp)+

lemma calm_save [calm_intros]: "safe calm target_save_state (\<lambda>_. True)"
proof -
  have 1: "safe calm save_pipeline (\<lambda>_. True)" "safe calm flush_stage (\<lambda>_. True)" "safe calm save_mc12 (\<lambda>_. True)"
    unfolding save_pipeline_def flush_stage_def save_mc12_def
    by (intro calm_intros safe_bind_any safe_get_any safe_seqM safe_if safe_whenM safe_retM TrueI; simp)+
  show ?thesis
    unfolding target_save_state_def
    by (intro calm_intros 1 safe_bind_any safe_get_any safe_whenM TrueI) simp_all
qed

lemma calm_restore [calm_intros]: "safe calm target_restore_state (\<lambda>_. True)"
  unfolding target_restore_state_def
  by (intro calm_intros safe_bind_any safe_get_any safe_whenM safe_if TrueI)

lemma calm_run_cpu [calm_intros]: "safe calm run_cpu (\<lambda>_. True)"
proof -
  have "safe calm (on_adapter (\<lambda>_. f)) (\<lambda>_. True)" if "calm t" "a_run_cpu (t_adapter t) = Some f" for t f
    using that by (intro safe_on_adapter) (simp add: calm_def calm_adapter_def)
  then show ?thesis
    unfolding run_cpu_def by (intro safe_bind_get safe_case_option calm_intros)
qed

lemma calm_step [calm_intros]: "safe calm target_step (\<lambda>_. True)"
proof -
  have "safe calm (on_adapter (\<lambda>_. f)) (\<lambda>_. True)" if "calm t" "a_step_cpu (t_adapter t) = Some f" for t f
    using that by (intro safe_on_adapter) (simp add: calm_def calm_adapter_def)
  then show ?thesis
    unfolding target_step_def
    by (intro safe_bind_get safe_case_option calm_intros safe_if safe_retM TrueI)
qed

lemma calm_running [calm_intros]:
  "safe calm target_stop (\<lambda>_. True)" "safe calm target_resume (\<lambda>_. True)" "safe calm (target_run a) (\<lambda>_. True)"
  "safe calm target_restart (\<lambda>_. True)" "safe calm target_is_stopped (\<lambda>_. True)"
  unfolding target_stop_def target_resume_def target_run_def target_restart_def target_is_stopped_def
  by (intro safe_bind_any safe_get_any safe_if safe_seqM safe_whenM safe_retM TrueI calm_intros; simp)+

lemma calm_breaks [calm_intros]:
  "safe calm (target_add_break a k) (\<lambda>_. True)" "safe calm (target_remove_break a) (\<lambda>_. True)"
  unfolding target_add_break_def target_remove_break_def
  by (intro safe_bind_any safe_get_any safe_if safe_seqM safe_case_option safe_case_prod safe_retM TrueI calm_intros)+

text \<open>Block transfers: the number of words read is the number asked for.\<close>

lemma calm_read_chunks:
  assumes "\<And>n addr. safe (\<lambda>_. True) (f n addr) (\<lambda>ws. length ws = n)"
  shows "safe calm (read_chunks f bw addr n) (\<lambda>ws. length ws = n)"
proof (induction n arbitrary: addr rule: less_induct)
  case (less n)
  show ?case
  proof (cases "n = 0 \<or> bw = 0")
    case True
    then show ?thesis
      by (auto simp: read_chunks.simps [of f bw addr n] intro!: safe_intros)
  next
    case False
    define k where "k = min n bw"
    have k: "n - k < n" "k \<le> n"
      using False by (auto simp: k_def)
    show ?thesis
      unfolding read_chunks.simps [of f bw addr n] Let_def k_def [symmetric]
      using False k
      by (auto intro!: safe_bindM [OF safe_on_adapter [OF assms]] safe_bindM [OF less.IH] safe_retM)
  qed
qed

lemma calm_read_words: "safe calm (read_words addr n) (\<lambda>ws. length ws = n)"
proof (induction n arbitrary: addr)
  case (Suc n)
  show ?case
    unfolding read_words.simps
    by (rule safe_bindM [OF calm_words(4)], rule safe_bindM [OF Suc]) (simp add: safe_retM)
qed (simp add: safe_retM)

lemma calm_read_block: "safe calm (target_read_block addr n) (\<lambda>ws. length ws = n)"
proof -
  have c: "safe calm (read_chunks f bw x n) (\<lambda>ws. length ws = n)"
    if "calm t" "a_read_block (t_adapter t) = Some f" for t f bw x
    using that by (intro calm_read_chunks) (simp add: calm_def calm_adapter_def)
  show ?thesis
    unfolding target_read_block_def by (intro safe_bind_get safe_case_option safe_seqM c calm_words calm_read_words)
qed

lemma calm_write_chunks:
  assumes "\<And>n addr data. n \<le> length data \<Longrightarrow> safe (\<lambda>_. True) (f n addr data) (\<lambda>_. True)"
  shows "n \<le> length data \<Longrightarrow> safe calm (write_chunks f bw addr n data) (\<lambda>_. True)"
proof (induction n arbitrary: addr data rule: less_induct)
  case (less n)
  show ?case
  proof (cases "n = 0 \<or> bw = 0")
    case True
    then show ?thesis
      by (auto simp: write_chunks.simps [of f bw addr n] intro!: safe_intros)
  next
    case False
    define k where "k = min n bw"
    have k: "n - k < n" "k \<le> length data" "n - k \<le> length (drop k data)"
      using False less(2) by (auto simp: k_def)
    show ?thesis
      unfolding write_chunks.simps [of f bw addr n] Let_def k_def [symmetric]
      using False by (auto intro!: safe_seqM safe_on_adapter assms k less.IH)
  qed
qed

lemma calm_each_word:
  "n \<le> length data \<Longrightarrow> (\<And>a w. safe calm (f a w) (\<lambda>_. True)) \<Longrightarrow>
   safe calm (each_word f step n addr data) (\<lambda>_. True)"
  by (induction f step n addr data rule: each_word.induct) (auto intro!: safe_intros)

lemma calm_write_block:
  assumes "0 < n" and "n \<le> length data"
  shows "safe calm (target_write_block addr n data) (\<lambda>_. True)"
proof -
  have c: "safe calm (write_chunks f bw x n data) (\<lambda>_. True)"
    if "calm t" "a_write_block (t_adapter t) = Some f" for t f bw x
    using that assms(2) by (intro calm_write_chunks) (simp_all add: calm_def calm_adapter_def)
  have "safe calm (case data of [] \<Rightarrow> failM Bad_access | w # rest \<Rightarrow>
      seqM (target_write_word (phys_of addr) w)
        (each_word target_write_next 4 (n - 1) (phys_of addr + 4) rest)) (\<lambda>_. True)"
    using assms by (cases data) (auto intro!: safe_seqM calm_words calm_each_word)
  then show ?thesis
    unfolding target_write_block_def by (intro safe_bind_get safe_case_option c)
qed

section \<open>The operations of remote-elvees.c\<close>

text \<open>The pointer to the device is set, and the target is calm.\<close>

fun calm_device :: "'w elvees \<Rightarrow> bool" where
  "calm_device (Closed w) = False"
| "calm_device (Device t) = calm t"

lemma safe_with_device: "safe calm m R \<Longrightarrow> safe calm_device (with_device m) R"
  unfolding safe_def with_device_def
  by (auto split: elvees.splits prod.splits)

lemma treg_length: "safe calm (elvees_out_treg n) (\<lambda>s. length s = 12)" if "n < 72"
  unfolding elvees_out_treg_def
  by (intro safe_seqM safe_assertM safe_bindM [OF calm_register(1)] safe_retM)
    (use that in \<open>simp_all add: RP_ELVEES_NUM_REGS_def\<close>)

lemma status_length: "safe calm (status_of sig) (\<lambda>s. length s = 27)"
  unfolding status_of_def
  by (rule safe_bindM [OF treg_length], simp, rule safe_bindM [OF treg_length]) (simp_all add: safe_retM)

lemma length_put_bytes:
  "off + length bs \<le> length b \<Longrightarrow> length (put_bytes off bs b) = length b"
  by (simp add: put_bytes_def)

lemma le_bytes_length: "length (le_bytes w) = 4"
  by (simp add: le_bytes_def)

lemma fill_regs_length:
  "\<forall>i \<in> set is. i * 4 + 4 \<le> length d \<and> i * 4 + 4 \<le> length a \<Longrightarrow>
   safe (calm :: 'w target \<Rightarrow> bool) (fill_regs is d a) (\<lambda>(d', a'). length d' = length d \<and> length a' = length a)"
proof (induction "is" arbitrary: d a)
  case (Cons i "is")
  show ?case
    unfolding fill_regs.simps
  proof (rule safe_bindM [OF calm_register(1)])
    fix v
    show "safe (calm :: 'w target \<Rightarrow> bool) (fill_regs is (put_bytes (i * 4) (le_bytes v) d) (put_bytes (i * 4) [1, 1, 1, 1] a))
        (\<lambda>(d', a'). length d' = length d \<and> length a' = length a)"
      using Cons(1) [of "put_bytes (i * 4) (le_bytes v) d" "put_bytes (i * 4) [1, 1, 1, 1] a"] Cons(2)
      by (simp add: length_put_bytes le_bytes_length)
  qed
qed (simp add: safe_retM)

lemma write_regs_safe: "safe calm (write_regs is b) (\<lambda>_. True)"
  by (induction "is") (auto intro!: safe_intros calm_intros)

lemma head_bytes_length: "head_bytes off n w \<noteq> [] \<and> length (head_bytes off n w) \<le> max 1 n"
  by (simp add: head_bytes_def)

lemma read_aligned_length:
  assumes "0 < n"
  shows "safe calm (read_aligned addr n) (\<lambda>bs. length bs = n)"
proof -
  have len: "length (concat (map le_bytes ws)) = 4 * length ws" for ws
    by (induction ws) (simp_all add: le_bytes_length)
  have 1: "safe calm (if n \<ge> 4 then bindM (target_read_block (ucast addr) (n div 4)) (\<lambda>ws.
      retM (concat (map le_bytes ws))) else retM []) (\<lambda>bs. length bs = 4 * (n div 4))"
    by (intro safe_if safe_bindM [OF calm_read_block] safe_retM) (simp_all add: len)
  show ?thesis
    unfolding read_aligned_def
    by (rule safe_bindM [OF 1]) (auto intro!: safe_bindM [OF calm_words(5)] safe_retM simp: le_bytes_length)
qed

lemma read_bytes_length:
  assumes "0 < n"
  shows "safe calm (read_bytes addr n) (\<lambda>bs. bs \<noteq> [] \<and> length bs \<le> n)"
proof -
  have al: "safe calm (read_aligned x m) (\<lambda>bs. bs \<noteq> [] \<and> length bs \<le> m)" if "0 < m" for x m
    using read_aligned_length [OF that] by (rule safe_mono) (use that in auto)
  let ?off = "unat (addr AND 3)"
  let ?k = "min (4 - ?off) n"
  have hb: "head_bytes ?off ?k w \<noteq> [] \<and> length (head_bytes ?off ?k w) \<le> ?k" if "0 < ?k" for w
  proof -
    have "max 1 ?k = ?k"
      using that by linarith
    then show ?thesis
      using head_bytes_length [of ?off ?k w] by metis
  qed
  have "?off < 4"
  proof -
    have "(3 :: u64) = mask 2"
      by (simp add: mask_eq_exp_minus_1)
    then show ?thesis
      by (metis take_bit_eq_mask unsigned_take_bit_eq take_bit_nat_less_exp power2_eq_square
          numeral_times_numeral semiring_norm(11,13))
  qed
  then have k: "0 < ?k" "?k \<le> n"
    using assms by auto
  show ?thesis
    unfolding read_bytes_def Let_def
  proof (intro safe_if al assms safe_bindM [OF calm_words(5)] safe_retM)
    fix w
    show "head_bytes ?off ?k w \<noteq> [] \<and> length (head_bytes ?off ?k w) \<le> n"
      using hb [OF k(1), of w] k(2) by simp
    assume "n - ?k \<noteq> 0"
    then show "safe calm (bindM (read_aligned (addr + of_nat ?k) (n - ?k)) (\<lambda>rest.
        retM (head_bytes ?off ?k w @ rest))) (\<lambda>bs. bs \<noteq> [] \<and> length bs \<le> n)"
      using hb [OF k(1), of w] k by (intro safe_bindM [OF al] safe_retM) auto
  qed
qed

lemma calm_write_aligned: "safe calm (write_aligned addr b) (\<lambda>_. True)"
proof -
  have len: "length (le_words bs) = length bs div 4" for bs
    by (induction bs rule: le_words.induct) simp_all
  show ?thesis
    unfolding write_aligned_def Let_def
    by (intro safe_seqM safe_whenM safe_if safe_retM safe_bind_any TrueI calm_write_block calm_words)
      (simp_all add: len div_greater_zero_iff)
qed

lemma calm_write_bytes: "safe calm (write_bytes_at addr b) (\<lambda>_. True)"
  unfolding write_bytes_at_def Let_def
  by (intro safe_if safe_bind_any safe_seqM safe_retM TrueI calm_words calm_write_aligned)

lemma elvees_simple:
  "safe calm_device elvees_close (\<lambda>_. True)" "safe calm_device elvees_disconnect (\<lambda>_. True)"
  "safe calm_device elvees_kill (\<lambda>_. True)" "safe calm_device elvees_restart (\<lambda>r. r \<noteq> RP_NOSUPP)"
  "safe calm_device elvees_stop (\<lambda>_. True)" "safe calm_device (elvees_set_gen_thread ref) (\<lambda>_. True)"
  "safe calm_device (elvees_set_ctrl_thread ref) (\<lambda>_. True)"
  "safe calm_device (elvees_resume_from_current st sig) (\<lambda>_. True)"
  "safe calm_device (elvees_resume_from_addr st sig addr) (\<lambda>_. True)"
  "safe calm_device (elvees_go_waiting sig) (\<lambda>_. True)"
  "safe calm_device (elvees_process_query msk ref info) (\<lambda>_. True)"
  "safe calm_device (elvees_list_query first ref n) (\<lambda>_. True)"
  "safe calm_device elvees_current_thread_query (\<lambda>_. True)"
  "safe calm_device elvees_offsets_query (\<lambda>_. True)"
  "safe calm_device (elvees_crc_query addr n) (\<lambda>_. True)"
  "safe calm_device (elvees_raw_query inp n) (\<lambda>(r, out). r = RP_OK \<longrightarrow> length out < n)"
  "safe calm_device (elvees_add_break type addr len) (\<lambda>_. True)"
  "safe calm_device (elvees_remove_break type addr len) (\<lambda>_. True)"
  unfolding elvees_close_def elvees_disconnect_def elvees_kill_def elvees_restart_def elvees_stop_def
    elvees_set_gen_thread_def elvees_set_ctrl_thread_def elvees_resume_from_current_def
    elvees_resume_from_addr_def elvees_go_waiting_def elvees_process_query_def elvees_list_query_def
    elvees_current_thread_query_def elvees_offsets_query_def elvees_crc_query_def elvees_raw_query_def
    elvees_add_break_def elvees_remove_break_def
  by (intro safe_with_device safe_seqM safe_if safe_retM calm_intros; simp)+

lemma elvees_read_registers_safe:
  assumes "length data = RP_PARAM_DATABYTES_MAX" and "length avail = RP_PARAM_DATABYTES_MAX"
  shows "safe calm_device (elvees_read_registers data avail) (\<lambda>(r, d, a, n). r \<noteq> RP_NOSUPP \<and>
    (r = RP_OK \<longrightarrow> 0 < n \<and> n \<le> RP_PARAM_DATABYTES_MAX \<and> length d = RP_PARAM_DATABYTES_MAX))"
proof -
  note sizes = RP_PARAM_DATABYTES_MAX_def RP_ELVEES_REG_BYTES_def RP_ELVEES_NUM_REGS_def RP_ELVEES_REGNUM_FP0_def
  have "safe calm (fill_regs [0..<RP_ELVEES_REGNUM_FP0] data avail)
      (\<lambda>(d', a'). length d' = length data \<and> length a' = length avail)"
    using assms by (intro fill_regs_length) (auto simp: sizes)
  then show ?thesis
    unfolding elvees_read_registers_def
    by (intro safe_with_device safe_seqM safe_assertM)
      (use assms in \<open>auto simp: sizes intro!: safe_retM elim!: safe_bindM\<close>)
qed

lemma elvees_read_register_safe:
  assumes "length data = RP_PARAM_DATABYTES_MAX" and "length avail = RP_PARAM_DATABYTES_MAX"
  shows "safe calm_device (elvees_read_single_register n data avail) (\<lambda>(r, d, a, n). r \<noteq> RP_NOSUPP \<and>
    (r = RP_OK \<longrightarrow> 0 < n \<and> n \<le> RP_PARAM_DATABYTES_MAX \<and> length d = RP_PARAM_DATABYTES_MAX))"
  using assms unfolding elvees_read_single_register_def
  by (intro safe_with_device safe_seqM safe_assertM safe_if safe_retM safe_bindM [OF calm_register(1)])
    (auto simp: RP_PARAM_DATABYTES_MAX_def RP_ELVEES_REG_BYTES_def RP_ELVEES_NUM_REGS_def
      length_put_bytes le_bytes_length)

lemma elvees_write_safe:
  "0 < length d \<and> length d \<le> RP_ELVEES_REG_BYTES \<Longrightarrow> safe calm_device (elvees_write_registers d) (\<lambda>_. True)"
  "length d = 4 \<Longrightarrow> safe calm_device (elvees_write_single_register n d) (\<lambda>_. True)"
  "safe calm_device (elvees_write_mem addr b) (\<lambda>_. True)"
  unfolding elvees_write_registers_def elvees_write_single_register_def elvees_write_mem_def
  by (intro safe_with_device safe_seqM safe_assertM safe_if safe_retM TrueI write_regs_safe
      calm_write_bytes calm_intros; simp)+

lemma elvees_read_mem_safe:
  assumes "0 < n" and "n \<le> 184"
  shows "safe calm_device (elvees_read_mem addr n)
    (\<lambda>(r, bs). r \<noteq> RP_NOSUPP \<and> (r = RP_OK \<longrightarrow> bs \<noteq> [] \<and> length bs \<le> n))"
proof -
  let ?req = "if addr + of_nat n > RP_ELVEES_MAX_ADDRESS + 1 then unat (RP_ELVEES_MAX_ADDRESS + 1 - addr) else n"
  have req: "0 < ?req \<and> ?req \<le> n" if "\<not> addr > RP_ELVEES_MAX_ADDRESS"
  proof -
    have a: "unat addr \<le> 0xFFFFFFFF"
      using that by (simp add: RP_ELVEES_MAX_ADDRESS_def word_less_nat_alt)
    have n: "unat (of_nat n :: u64) = n"
      using assms(2) by (simp add: unsigned_of_nat take_bit_nat_eq_self)
    have "unat (addr + of_nat n) = unat addr + n"
      using a n assms(2) by (simp add: unat_word_ariths)
    moreover have "unat (RP_ELVEES_MAX_ADDRESS + 1 - addr) = 0x100000000 - unat addr"
      using a by (simp add: RP_ELVEES_MAX_ADDRESS_def unat_sub word_le_nat_alt)
    ultimately show ?thesis
      using a assms(1) by (auto simp: RP_ELVEES_MAX_ADDRESS_def word_less_nat_alt)
  qed
  show ?thesis
    unfolding elvees_read_mem_def Let_def
    by (intro safe_with_device safe_seqM safe_assertM assms(1) TrueI safe_if safe_retM
        safe_bindM [OF read_bytes_length]) (use req in auto)
qed

lemma elvees_wait_safe:
  "length st < RP_PARAM_INOUTBUF_SIZE \<Longrightarrow>
   safe (\<lambda>(d, c). calm_device d \<and> quiet c) (elvees_wait_partial first st RP_PARAM_INOUTBUF_SIZE out)
     (\<lambda>(r, st', imp, more). length st' < RP_PARAM_INOUTBUF_SIZE \<and> imp = Some True \<and> (r = RP_OK \<longrightarrow> more \<noteq> None))"
  unfolding elvees_wait_partial_def dev_part_def
  by (intro safe_zoomM [where Q = calm_device] safe_with_device safe_seqM safe_assertM safe_bind_any safe_case_prod safe_if
      safe_retM safe_bindM [OF status_length] calm_intros) auto

definition elvees_cmd_ok :: "string \<Rightarrow> bool" where
  "elvees_cmd_ok inp \<longleftrightarrow> (case remcmd_text inp [] of Inl _ \<Rightarrow> False | Inr _ \<Rightarrow> True)"

lemma elvees_remcmd_safe:
  assumes "elvees_cmd_ok inp" and "\<And>s. safe quiet (o1 s) (\<lambda>_. True)"
  shows "safe (\<lambda>(d, c). calm_device d \<and> quiet c) (elvees_remcmd inp o1 o2) (\<lambda>_. True)"
proof -
  have cmd: "safe quiet (elvees_rcmd_help o1) (\<lambda>_. True)" "safe quiet (elvees_rcmd_erase o1) (\<lambda>_. True)"
    unfolding elvees_rcmd_help_def elvees_rcmd_erase_def remote_commands_def
    by (intro safe_seqM assms(2) safe_retM TrueI safe_seqsM; auto simp: assms(2))+
  have part: "safe (\<lambda>(d, c). calm_device d \<and> quiet c) (conn_part m) (\<lambda>_. True)"
    if "safe quiet m (\<lambda>_. True)" for m :: "(conn, retval) act"
    unfolding conn_part_def by (rule safe_zoomM [OF that]) auto
  have "safe P (liftM (remcmd_text inp [])) (\<lambda>_. True)" for P :: "'a elvees \<times> conn \<Rightarrow> bool"
    using assms(1) by (intro safe_liftM) (auto simp: elvees_cmd_ok_def)
  then show ?thesis
    unfolding elvees_remcmd_def
    by (intro safe_if safe_retM TrueI safe_bind_any safe_case_option part cmd)
qed

definition elvees_regs_ok :: "u8 list \<Rightarrow> bool" where
  "elvees_regs_ok d \<longleftrightarrow> 0 < length d \<and> length d \<le> RP_ELVEES_REG_BYTES"

definition elvees_reg_ok :: "u8 list \<Rightarrow> bool" where
  "elvees_reg_ok d \<longleftrightarrow> length d = 4"

interpretation elv: rp_contract "elvees_target opts_ok found" calm_device elvees_regs_ok elvees_reg_ok
  elvees_cmd_ok False
  by unfold_locales
    (unfold elvees_target_def rp_target.select_convs elvees_regs_ok_def elvees_reg_ok_def,
     (rule elvees_simple elvees_write_safe elvees_wait_safe elvees_remcmd_safe; assumption?
      | rule safe_mono, rule elvees_read_registers_safe elvees_read_register_safe elvees_read_mem_safe;
        (assumption | force) | erule FalseE)+)

end
