(* ===== verification/Elvees_Session.thy ===== *)
theory Elvees_Session
  imports Elvees_Mem Elvees_Safe
begin

text \<open>
  The proxy and remote-elvees.c together: what a packet of the debugger does to the memory of
  the chip and what the reply to it says, and which packets the proxy survives.
\<close>

section \<open>Requests\<close>

lemma decode_mem_request:
  "rp_decode_mem (sprintf_016Lx a @ '','' @ sprintf_08x n @ NUL # stale) = Some (a, n)"
  "rp_decode_mem (sprintf_016Lx a @ '','' @ sprintf_08x n) = Some (a, n)"
  "rp_decode_mem (sprintf_016Lx a @ CHR '','' # sprintf_08x n @ NUL # stale) = Some (a, n)"
  "rp_decode_mem (sprintf_016Lx a @ CHR '','' # sprintf_08x n) = Some (a, n)"
  using decode_hex_32 [of n "[]"]
  by (simp_all add: rp_decode_mem_def rp_decode_uint64_def rp_decode_uint32_def sprintf_016Lx_def
      sprintf_08x_def peek_hex_digits peek_hex_digits [where rest = "[]", simplified])

lemma decode_data_text:
  "length bs \<le> n \<Longrightarrow> rp_decode_data (concat (map rp_encode_byte bs) @ NUL # stale) n = Some bs"
  using decode_data_loop_enc [of bs n "NUL # stale" "[]"] by (simp add: rp_decode_data_def)

lemma strchr_split:
  assumes "c \<notin> set pre" and "NUL \<notin> set pre" and "c \<noteq> NUL"
  shows "strchr (pre @ c # rest) c = Some (pre, c # rest)"
proof -
  have "cstr (pre @ c # rest) = pre @ c # cstr rest"
    using assms(2,3) by (induction pre) (auto simp: cstr_def)
  moreover have "takeWhile (\<lambda>x. x \<noteq> c) (pre @ c # cstr rest) = pre"
    using assms(1) by (induction pre) auto
  ultimately show ?thesis
    by (simp add: strchr_def)
qed

lemma request_chars:
  "CHR '':'' \<notin> set (sprintf_016Lx a @ '','' @ sprintf_08x n)"
  "NUL \<notin> set (sprintf_016Lx a @ '','' @ sprintf_08x n)"
  by (auto simp: sprintf_016Lx_def sprintf_08x_def plain_char_def dest!: hex_digits_chars)

lemma elvees_target_mem [simp]:
  "rt_read_mem (elvees_target b f) = elvees_read_mem" "rt_write_mem (elvees_target b f) = elvees_write_mem"
  by (simp_all add: elvees_target_def)

lemma memory_read_run:
  assumes "plain m view t" and "in_segment a n" and "0 < n" and "n \<le> 184" and "tgt p = Device t"
  shows "\<exists>p' t'. dispatch k (elvees_target opts_ok found)
      (CHR ''m'' # sprintf_016Lx (of_nat a) @ '','' @ sprintf_08x (of_nat n) @ NUL # stale) len p =
      (Inr True, p') \<and> tgt p' = Device t' \<and> kept m view t t' \<and>
    out_buf p' = concat (map rp_encode_byte
      (map (mbyte (mem_now m view t)) [phys_nat a..<phys_nat a + n]))"
proof -
  let ?bs = "map (mbyte (mem_now m view t)) [phys_nat a..<phys_nat a + n]"
  obtain t' where r: "elvees_read_mem (of_nat a) n (Device t) = (Inr (RP_OK, ?bs), Device t')"
    and k: "kept m view t t'"
    using elvees_read_run [OF assms(1-3)] by blast
  have n: "min (unat (of_nat n :: u32)) 184 = n"
    using assms(4) by (simp add: unat_nat32)
  show ?thesis
    using assms(3-5) r k n
    by (simp add: dispatch_def and_reply_def handle_read_memory_command_def decode_mem_request
        on_tgt_def act_simps RP_VAL_DBG_PBUFSIZ_def RP_PARAM_DATABYTES_MAX_def
        rp_encode_data_def encode_out_def set_out_def)
qed

text \<open>
  C28: the reply to a memory request \<open>m\<close> for at most 184 bytes is the
  hexadecimal text of exactly the bytes of the target memory at that address; the memory and
  the configuration of the target stay as they were, and the reply is sent.
\<close>

theorem memory_read_answered:
  assumes "plain m view t" and "in_segment a n" and "0 < n" and "n \<le> 184" and "tgt p = Device t"
  shows "\<exists>p' t'. dispatch k (elvees_target opts_ok found)
      (CHR ''m'' # sprintf_016Lx (of_nat a) @ '','' @ sprintf_08x (of_nat n) @ NUL # stale) len p =
      (Inr True, p') \<and> tgt p' = Device t' \<and> kept m view t t' \<and>
    out_buf p' = concat (map rp_encode_byte
      (map (mbyte (mem_now m view t)) [phys_nat a..<phys_nat a + n]))"
  using assms by (rule memory_read_run)

lemma memory_write_run:
  assumes "plain m view t" and "in_segment a (length bs)" and "bs \<noteq> []"
    and "length bs \<le> RP_PARAM_DATABYTES_MAX" and "tgt p = Device t"
  shows "\<exists>p' t'. dispatch k (elvees_target opts_ok found)
      (CHR ''M'' # sprintf_016Lx (of_nat a) @ '','' @ sprintf_08x (of_nat (length bs)) @ '':'' @
       concat (map rp_encode_byte bs) @ NUL # stale) len p =
      (Inr True, p') \<and> tgt p' = Device t' \<and> out_buf p' = ''OK'' \<and>
    stored m view t (phys_nat a) bs t'"
proof -
  obtain t' where w: "elvees_write_mem (of_nat a) bs (Device t) = (Inr RP_OK, Device t')"
    and s: "stored m view t (phys_nat a) bs t'"
    using elvees_write_run [OF assms(1-3)] by blast
  let ?req = "sprintf_016Lx (of_nat a) @ '','' @ sprintf_08x (of_nat (length bs))"
  have c: "strchr (?req @ CHR '':'' # rest) CHR '':'' = Some (?req, CHR '':'' # rest)" for rest
    using request_chars [of "of_nat a" "of_nat (length bs)"] by (intro strchr_split) (auto simp del: set_append)
  have n: "unat (of_nat (length bs) :: u32) = length bs"
    using assms(4) by (simp add: unat_nat32 RP_PARAM_DATABYTES_MAX_def)
  show ?thesis
    using assms(4,5) w s n c [simplified] decode_data_text [of bs RP_PARAM_DATABYTES_MAX]
    by (simp add: dispatch_def and_reply_def handle_write_memory_command_def decode_mem_request
        on_tgt_def act_simps reply_def set_out_def
        rp_write_retval_def)
qed

text \<open>
  C27: a memory write \<open>M\<close> whose data has the announced length stores exactly
  these bytes at the address, leaves every other byte of the memory alone, and is answered
  with \<open>OK\<close>.
\<close>

theorem memory_write_stored:
  assumes "plain m view t" and "in_segment a (length bs)" and "bs \<noteq> []"
    and "length bs \<le> RP_PARAM_DATABYTES_MAX" and "tgt p = Device t"
  shows "\<exists>p' t'. dispatch k (elvees_target opts_ok found)
      (CHR ''M'' # sprintf_016Lx (of_nat a) @ '','' @ sprintf_08x (of_nat (length bs)) @ '':'' @
       concat (map rp_encode_byte bs) @ NUL # stale) len p =
      (Inr True, p') \<and> tgt p' = Device t' \<and> out_buf p' = ''OK'' \<and>
    stored m view t (phys_nat a) bs t'"
  using assms by (rule memory_write_run)

section \<open>Which packets are survived\<close>


text \<open>
  Also: the packet \<open>m\<close> with a length of 0 ends the proxy: the target operation
  asserts that the length is positive, and nothing checks it before.
\<close>

theorem zero_read_aborts:
  assumes "NUL \<notin> set pkt" and "peek pkt = CHR ''m''"
    and "rp_decode_mem (tl pkt @ NUL # stale_in p) = Some (a, 0)" and "tgt p = Device t"
  shows "fst (handle_packet k (elvees_target opts_ok found) pkt p) = Inl Assert_fail"
proof -
  obtain rest where pkt: "pkt = CHR ''m'' # rest"
    using assms(2) by (cases pkt) auto
  have "cstr (pkt @ NUL # stale_in p) = pkt"
    using assms(1) by (induction pkt) (auto simp: cstr_def)
  then show ?thesis
    using assms(3,4) unfolding pkt
    by (simp add: handle_packet_def act_simps reply_def set_out_def dispatch_def and_reply_def
        handle_read_memory_command_def on_tgt_def elvees_read_mem_def with_device_def
        split: prod.splits)
qed

section \<open>Witnesses\<close>

definition sim_proxy :: "(bus_op list \<Rightarrow> u32 \<Rightarrow> u32) \<Rightarrow> chip elvees proxy" where
  "sim_proxy rd = start_state (Device (sim_target rd)) [] (replicate 65536 0) (replicate 65536 0) ''''"

lemma sim_proxy_tgt [simp]: "tgt (sim_proxy rd) = Device (sim_target rd)" "stale_in (sim_proxy rd) = ''''"
  by (simp_all add: sim_proxy_def start_state_def)

lemma sim_calm: "calm_adapter (sim_adapter rd)"
proof -
  have "safe (\<lambda>_. True) (sim_write rd v r n) (\<lambda>_. True)" "safe (\<lambda>_. True) (sim_read r n) (\<lambda>_. True)" for v r n
    by (simp_all add: safe_def sim_write_def sim_read_def)
  then show ?thesis
    by (simp add: calm_adapter_def sim_adapter_def safe_retM)
qed

lemma sim_pinv: "pinv calm_device (sim_proxy rd)"
  by (simp add: pinv_def sim_proxy_def start_state_def calm_def sim_calm quiet_def
      RP_PARAM_DATABYTES_MAX_def)

lemma sim_requests:
  "sprintf_016Lx 0x80001001 = ''0000000080001001''" "sprintf_016Lx 0x1003 = ''0000000000001003''"
  "sprintf_08x 2 = ''00000002''" "sprintf_08x 1 = ''00000001''"
  "rp_encode_byte 0x22 = ''22''" "rp_encode_byte 0x33 = ''33''" "rp_encode_byte 0x7f = ''7f''"
  "rp_decode_mem (''0,0'' @ [NUL]) = Some (0, 0)"
  by code_simp+

theorem memory_read_answered_witness:
  "\<exists>p'. dispatch 1 (elvees_target True []) (''m0000000080001001,00000002'' @ [NUL]) 0
      (sim_proxy (ram (\<lambda>_. 0x44332211))) = (Inr True, p') \<and> out_buf p' = ''2233''"
proof -
  have "map (mbyte (\<lambda>_. 0x44332211)) [4097..<4099] = [0x22, 0x33]"
    by (simp add: upt_rec mbyte_def le_bytes_def)
  then show ?thesis
    using memory_read_answered [OF sim_plain [of "\<lambda>_. 0x44332211"], of "0x80001001" 2
        "sim_proxy (ram (\<lambda>_. 0x44332211))" 1 True "[]" "[]" 0]
    by (auto simp: in_segment_def phys_nat_def sim_mem_now sim_requests)
qed

theorem memory_write_stored_witness:
  "\<exists>p' t'. dispatch 1 (elvees_target True []) (''M0000000000001003,00000001:7f'' @ [NUL]) 0
      (sim_proxy (ram (\<lambda>_. 0))) = (Inr True, p') \<and> tgt p' = Device t' \<and>
    stored (\<lambda>_. 0) (\<lambda>c. c) (sim_target (ram (\<lambda>_. 0))) 4099 [0x7f] t'"
  using memory_write_stored [OF sim_plain [of "\<lambda>_. 0"], of "0x1003" "[0x7f]"
      "sim_proxy (ram (\<lambda>_. 0))" 1 True "[]" "[]" 0]
  by (auto simp: in_segment_def phys_nat_def RP_PARAM_DATABYTES_MAX_def sim_requests)


theorem zero_read_aborts_witness:
  "fst (handle_packet 1 (elvees_target True []) ''m0,0'' (sim_proxy (ram (\<lambda>_. 0)))) = Inl Assert_fail"
  by (rule zero_read_aborts [where a = 0 and t = "sim_target (ram (\<lambda>_. 0))"])
    (use sim_requests(8) in simp_all)

end
