(* ===== verification/Mcprog.thy ===== *)
theory Mcprog
  imports Conf Loader Flash Target_Run
begin

text \<open>
  mcprog.c, the command line program: the configuration of the board, programming and verifying
  flash memory, writing and reading memory, erasing, and the choice among these.

  The state is that of the global variables. Files, adapters and the configuration are given as
  \<open>mc_env\<close>; \<open>fuel\<close> bounds the loops that wait for the chip. Messages and the progress bar are left
  out; what a command reports is its result. \<open>debug_level\<close> is 0. Structures are laid out as on
  a 64-bit little-endian host.
\<close>

section \<open>Globals\<close>

definition BLOCKSZ :: nat where "BLOCKSZ = 1024"
definition DEFAULT_ADDR :: u32 where "DEFAULT_ADDR = 0xBFC00000"
definition AREA_SIZE :: nat where "AREA_SIZE = 8192"

text \<open>
  \<open>adapters\<close> are the results of the adapter open functions, given \<open>disable_block\<close>;
  \<open>local_conf\<close> and \<open>global_conf\<close> the configuration file in the directory and the installed one;
  \<open>mtime\<close> the time of the last change of a file.
\<close>

record 'w mc_env =
  adapters :: "bool \<Rightarrow> 'w adapter option list"
  files :: "string \<Rightarrow> string option"
  writable :: "string \<Rightarrow> bool"
  mtime :: "string \<Rightarrow> u64"
  local_conf :: "string option"
  global_conf :: "string option"
  fuel :: nat

text \<open>
  \<open>hw\<close> is the adapter hardware while no target is open; \<open>at_exit\<close> tells whether \<open>quit\<close> is
  registered; \<open>out_file\<close> is the content of the file that is written, and \<open>disk\<close> the room for it.
\<close>

record 'w mcprog =
  hw :: "'w aworld"
  the_target :: "'w target option"
  img :: image
  memory_len :: int
  start_addr :: u32
  erase_mode :: int
  check_erase :: bool
  verify_only :: bool
  disable_block :: bool
  board :: "string option"
  board_serial :: "string option"
  at_exit :: bool
  out_file :: "u8 list"
  disk :: nat

type_synonym ('w, 'a) mact = "('w mcprog, 'a) act"

text \<open>A function of target.c on \<open>target\<close>, which it dereferences.\<close>

definition on_target :: "('w, 'a) tact \<Rightarrow> ('w, 'a) mact" where
  "on_target m p = (case the_target p of
     None \<Rightarrow> (Inl Bad_access, p)
   | Some t \<Rightarrow> (case m t of (r, t') \<Rightarrow> (r, p\<lparr>the_target := Some t'\<rparr>)))"

abbreviation mem :: "'w mcprog \<Rightarrow> u8 list" where
  "mem p \<equiv> memory_data (img p)"

abbreviation base :: "'w mcprog \<Rightarrow> u32" where
  "base p \<equiv> memory_base (img p)"

definition set_mem :: "u8 list \<Rightarrow> 'w mcprog \<Rightarrow> 'w mcprog" where
  "set_mem m p = p\<lparr>img := (img p)\<lparr>memory_data := m\<rparr>\<rparr>"

section \<open>Configuration\<close>

definition check_hex :: "string \<Rightarrow> bool" where
  "check_hex s \<longleftrightarrow> take 2 s = ''0x'' \<and> length s \<le> 10 \<and> list_all isxdigit (drop 2 s)"

text \<open>The registers that take a number of \<open>strtoul\<close>, and those that take one of \<open>sscanf\<close>.\<close>

definition strtoul_params :: "(string \<times> u32) list" where
  "strtoul_params = [(''csr'', 0x182F4008), (''cscon0'', 0x182F1000), (''cscon1'', 0x182F1004),
     (''cscon2'', 0x182F1008), (''cscon3'', 0x182F100C), (''sdrcon'', 0x182F1014),
     (''sdrtmr'', 0x182F1018), (''sdrcsr'', 0x182F101C)]"

definition scanf_params :: "(string \<times> u32) list" where
  "scanf_params = [(''cr_pll'', 0x182F4000), (''clk_en'', 0x182F4004),
     (''dir_mfbsp1'', 0x182F9008), (''gpio_dr_mfbsp1'', 0x182F900C)]"

definition param_addr :: "(string \<times> u32) list \<Rightarrow> string \<Rightarrow> u32 option" where
  "param_addr ps param = map_option snd (find (\<lambda>(n, a). strcaseeq param n) ps)"

text \<open>A number that \<open>sscanf\<close> did not store is not initialised.\<close>

definition scanned :: "'a option \<Rightarrow> ('s, 'a) act" where
  "scanned x = (case x of None \<Rightarrow> failM Bad_access | Some v \<Rightarrow> retM v)"

definition board_parameter :: "string \<Rightarrow> string \<Rightarrow> ('w, unit) mact" where
  "board_parameter param val =
     (case param_addr strtoul_params param of
        Some addr \<Rightarrow> seqM (on_target (target_write_word addr (strtoul val)))
          (whenM (strcaseeq param ''cscon3'') (on_target (target_set_cscon3 (strtoul val))))
      | None \<Rightarrow> (case param_addr scanf_params param of
          Some addr \<Rightarrow> bindM (scanned (scan_x val)) (\<lambda>word. on_target (target_write_word addr word))
        | None \<Rightarrow>
          if strncaseeq param ''flash '' 6 then
            (case scan_range val of
               None \<Rightarrow> failM (Exit (- 1) ''incorrect value for parameter'')
             | Some (first, lst) \<Rightarrow> on_target (target_flash_configure first lst))
          else if check_hex param \<and> check_hex val then
            bindM (scanned (scan_x param)) (\<lambda>addr. bindM (scanned (scan_x val)) (\<lambda>word.
              on_target (target_write_word addr word)))
          else failM (Exit (- 1) ''unknown parameter'')))"

definition configure_parameter :: "string option \<Rightarrow> string \<Rightarrow> string \<Rightarrow> ('w, unit) mact" where
  "configure_parameter sec param val = (case sec of
     None \<Rightarrow>
       if strcaseeq param ''default'' then
         modM (\<lambda>p. if board p = None then p\<lparr>board := Some val\<rparr> else p)
       else failM (Exit (- 1) ''unknown parameter'')
   | Some s \<Rightarrow> bindM (getM board) (\<lambda>b. case b of
       None \<Rightarrow> failM (Exit (- 1) ''parameter default missing'')
     | Some name \<Rightarrow> if strcaseeq s name then board_parameter param val else retM ()))"

definition configure :: "'w mc_env \<Rightarrow> ('w, unit) mact" where
  "configure env = conf_parse (if local_conf env \<noteq> None then local_conf env else global_conf env)
     configure_parameter"

section \<open>Blocks\<close>

definition program_block :: "u32 \<Rightarrow> nat \<Rightarrow> ('w, unit) mact" where
  "program_block addr len = bindM (getM id) (\<lambda>p.
     on_target (target_program_block (base p + addr) ((len + 3) div 4) (le_words (drop (unat addr) (mem p)))))"

definition write_block :: "u32 \<Rightarrow> nat \<Rightarrow> ('w, unit) mact" where
  "write_block addr len = bindM (getM id) (\<lambda>p.
     on_target (target_write_block (base p + addr) ((len + 3) div 4) (le_words (drop (unat addr) (mem p)))))"

text \<open>
  A word of the chip that differs is rewritten and read again. \<open>n\<close> counts the repetitions that
  are left; after the fourth read the code gives up without looking at the word.
\<close>

primrec verify_word :: "nat \<Rightarrow> u32 \<Rightarrow> u32 \<Rightarrow> u32 \<Rightarrow> ('w, unit) mact" where
  "verify_word 0 addr expected word = (if word = expected then retM () else
     bindM (getM verify_only) (\<lambda>vo.
       if vo then failM (Exit 1 ''error at address'')
       else bindM (on_target (target_flash_rewrite addr word expected)) (\<lambda>ok.
         if \<not> ok then failM (Exit 1 ''error at address'')
         else bindM (on_target (target_read_word addr)) (\<lambda>_. failM (Exit 1 ''error at address'')))))"
| "verify_word (Suc n) addr expected word = (if word = expected then retM () else
     bindM (getM verify_only) (\<lambda>vo.
       if vo then failM (Exit 1 ''error at address'')
       else bindM (on_target (target_flash_rewrite addr word expected)) (\<lambda>ok.
         if \<not> ok then failM (Exit 1 ''error at address'')
         else bindM (on_target (target_read_word addr)) (verify_word n addr expected))))"

text \<open>The words of a block against those of the file, in order.\<close>

fun verify_words :: "u32 \<Rightarrow> u32 list \<Rightarrow> u32 list \<Rightarrow> ('w, unit) mact" where
  "verify_words addr (e # es) (w # ws) = seqM (verify_word 3 addr e w) (verify_words (addr + 4) es ws)"
| "verify_words addr es [] = retM ()"
| "verify_words addr [] ws = failM Bad_access"

definition verify_block :: "u32 \<Rightarrow> nat \<Rightarrow> ('w, unit) mact" where
  "verify_block addr len = bindM (getM id) (\<lambda>p.
     bindM (on_target (target_read_block (base p + addr) ((len + 3) div 4))) (\<lambda>block.
       verify_words (base p + addr) (le_words (drop (unat addr) (mem p))) block))"

text \<open>
  \<open>for (addr=0; (int)addr<memory_len; addr+=BLOCKSZ)\<close> with the length of the last block cut
  short; \<open>n\<close> bounds the rounds.
\<close>

primrec block_loop :: "nat \<Rightarrow> (u32 \<Rightarrow> nat \<Rightarrow> ('w, unit) mact) \<Rightarrow> int \<Rightarrow> u32 \<Rightarrow> ('w, unit) mact" where
  "block_loop 0 f len_all addr = failM Out_of_fuel"
| "block_loop (Suc n) f len_all addr =
     (if sint addr < len_all then
        seqM (f addr (unat (min (of_nat BLOCKSZ) (of_int len_all - addr))))
          (block_loop n f len_all (addr + of_nat BLOCKSZ))
      else retM ())"

definition each_block :: "(u32 \<Rightarrow> nat \<Rightarrow> ('w, unit) mact) \<Rightarrow> ('w, unit) mact" where
  "each_block f = bindM (getM memory_len) (\<lambda>n. block_loop (nat n div BLOCKSZ + 2) f n 0)"

section \<open>Opening and closing the target\<close>

text \<open>The hardware as the open target, if there is one, left it.\<close>

definition hardware :: "'w mcprog \<Rightarrow> 'w aworld" where
  "hardware p = (case the_target p of None \<Rightarrow> hw p | Some t \<Rightarrow> aw t)"

definition open_device :: "'w mc_env \<Rightarrow> ('w, unit) mact" where
  "open_device env p = (case target_open (adapters env (disable_block p)) (hardware p) of
     (Inl e, w) \<Rightarrow> (Inl e, p\<lparr>hw := w, the_target := None\<rparr>)
   | (Inr t, w) \<Rightarrow> (Inr (), p\<lparr>hw := w, the_target := Some t\<rparr>))"

text \<open>\<open>atexit (quit)\<close>, opening, stopping the processor, and the configuration.\<close>

definition connect_device :: "'w mc_env \<Rightarrow> ('w, unit) mact" where
  "connect_device env = seqsM
     [modM (\<lambda>p. p\<lparr>at_exit := True\<rparr>), open_device env, on_target target_stop, configure env]"

definition quit :: "('w, unit) mact" where
  "quit = bindM (getM the_target) (\<lambda>t. whenM (t \<noteq> None)
     (bindM (getM start_addr) (\<lambda>a.
        seqM (on_target (target_run a))
       (seqM (on_target target_close)
             (modM (\<lambda>p. p\<lparr>hw := hardware p, the_target := None\<rparr>))))))"

section \<open>The commands\<close>

text \<open>\<open>probe_flash\<close> for every region; an empty table is enumerated for ever.\<close>

primrec probe_loop :: "nat \<Rightarrow> u32 \<Rightarrow> ('w, (u32 \<times> detected option) list) mact" where
  "probe_loop 0 addr = failM Out_of_fuel"
| "probe_loop (Suc n) addr = bindM (on_target (getM (\<lambda>t. target_flash_next t addr))) (\<lambda>r. case r of
     None \<Rightarrow> retM []
   | Some (a, lst) \<Rightarrow>
       if a = 0xffffffff then retM []
       else bindM (on_target (target_flash_detect a)) (\<lambda>d.
         bindM (probe_loop n a) (\<lambda>ds. retM ((a, d) # ds))))"

definition do_probe :: "'w mc_env \<Rightarrow> ('w, (u32 \<times> detected option) list) mact" where
  "do_probe env = seqM (connect_device env) (probe_loop (fuel env) 0xffffffff)"

text \<open>The first word of a piece that is not erased.\<close>

primrec clean_loop :: "nat \<Rightarrow> u32 \<Rightarrow> u32 \<Rightarrow> u32 \<Rightarrow> ('w, bool) mact" where
  "clean_loop 0 addr end_addr offset = failM Out_of_fuel"
| "clean_loop (Suc n) addr end_addr offset =
     (if addr + offset < end_addr then
        (let sz = (if 0x10000 + offset > end_addr then end_addr - offset else 0x10000) div 4 in
         if 0x4000 < sz then failM Bad_access
         else bindM (on_target (target_read_block (addr + offset) (unat sz))) (\<lambda>ws.
           if list_all (\<lambda>w. w = 0xffffffff) ws then clean_loop n addr end_addr (offset + 0x10000)
           else retM False))
      else retM True)"

definition check_clean :: "u32 \<Rightarrow> ('w, bool) mact" where
  "check_clean addr0 = bindM (on_target (getM flash_bytes)) (\<lambda>mem_size.
     let addr = addr0 AND NOT (mem_size - 1) in
     clean_loop (unat mem_size div 0x10000 + 2) addr (addr + mem_size) 0)"

text \<open>
  \<open>sw_info\<close>: label 8, sw_version 16, len 4, crc 4, board_sn 128, filename 128, time 8.
\<close>

definition SW_INFO_SIZE :: nat where "SW_INFO_SIZE = 296"

definition poke :: "nat \<Rightarrow> u8 list \<Rightarrow> u8 list \<Rightarrow> fault + u8 list" where
  "poke i bs m = (if i + length bs \<le> length m then Inr (take i m @ bs @ drop (i + length bs) m) else Inl Bad_access)"

definition c_string :: "string \<Rightarrow> u8 list" where
  "c_string s = map (of_nat \<circ> code) s @ [0]"

definition le_bytes64 :: "u64 \<Rightarrow> u8 list" where
  "le_bytes64 w = map (\<lambda>i. ucast (drop_bit (8 * i) w)) [0..<8]"

text \<open>\<open>basename\<close> of the C library.\<close>

definition basename :: "string \<Rightarrow> string" where
  "basename s = (let t = rev (dropWhile (\<lambda>c. c = CHR ''/'') (rev s)) in
     if s = [] then ''.'' else if t = [] then ''/''
     else rev (takeWhile (\<lambda>c. c \<noteq> CHR ''/'') (rev t)))"

text \<open>Clearing the fields from \<open>len\<close> on with \<open>sizeof (sw_info) - sizeof (label)\<close> zeroes, and filling them in.\<close>

definition fill_info :: "nat \<Rightarrow> int \<Rightarrow> string option \<Rightarrow> string \<Rightarrow> u64 \<Rightarrow> u8 list \<Rightarrow> fault + u8 list" where
  "fill_info off len serial name time m =
     (case poke (off + 24) (replicate (SW_INFO_SIZE - 8) 0) m of Inl f \<Rightarrow> Inl f | Inr m \<Rightarrow>
     (case poke (off + 24) (le_bytes (of_int len)) m of Inl f \<Rightarrow> Inl f | Inr m \<Rightarrow>
     (case (case serial of None \<Rightarrow> Inr m | Some s \<Rightarrow> poke (off + 32) (c_string s) m) of Inl f \<Rightarrow> Inl f | Inr m \<Rightarrow>
     (case poke (off + 160) (c_string (basename name)) m of Inl f \<Rightarrow> Inl f | Inr m \<Rightarrow>
       poke (off + 288) (le_bytes64 time) m))))"

text \<open>The checksum in three parts; the last length is an \<open>unsigned\<close>.\<close>

definition info_crc :: "nat \<Rightarrow> int \<Rightarrow> u8 list \<Rightarrow> fault + u32" where
  "info_crc off len m = (let c1 = compute_checksum 0 (take off m);
       c2 = compute_checksum c1 (replicate SW_INFO_SIZE 0);
       n = unat (of_int (len - int (off + SW_INFO_SIZE)) :: u32) in
     if off + SW_INFO_SIZE + n \<le> length m then Inr (compute_checksum c2 (take n (drop (off + SW_INFO_SIZE) m)))
     else Inl Bad_access)"

definition store_info_at :: "nat \<Rightarrow> int \<Rightarrow> string option \<Rightarrow> string \<Rightarrow> u64 \<Rightarrow> u8 list \<Rightarrow> fault + u8 list" where
  "store_info_at off len serial name time m =
     (case fill_info off len serial name time m of Inl f \<Rightarrow> Inl f | Inr m \<Rightarrow>
     (case info_crc off len m of Inl f \<Rightarrow> Inl f | Inr c \<Rightarrow> poke (off + 28) (le_bytes c) m))"

definition store_info :: "'w mc_env \<Rightarrow> string \<Rightarrow> ('w, unit) mact" where
  "store_info env name = bindM (getM id) (\<lambda>p.
     case find_info (mem p) (nat (if memory_len p < int AREA_SIZE then memory_len p else int AREA_SIZE)) of
       None \<Rightarrow> failM (Exit 1 ''No software information label found'')
     | Some i \<Rightarrow> bindM (liftM (store_info_at i (memory_len p) (board_serial p) name (mtime env name) (mem p)))
         (\<lambda>m. modM (set_mem m)))"

text \<open>Erasing as the mode says.\<close>

definition erase_for_program :: "'w mc_env \<Rightarrow> ('w, unit) mact" where
  "erase_for_program env = bindM (getM id) (\<lambda>p. whenM (\<not> verify_only p)
     (bindM (if check_erase p then check_clean (base p) else retM False) (\<lambda>clean. whenM (\<not> clean)
       (if erase_mode p = 1 then bindM (on_target (target_erase (fuel env) (base p))) (\<lambda>_. retM ())
        else if erase_mode p = 2 then
          bindM (on_target (target_erase_area (fuel env) (base p) (of_int (memory_len p)))) (\<lambda>_. retM ())
        else retM ()))))"

definition do_program :: "'w mc_env \<Rightarrow> string \<Rightarrow> bool \<Rightarrow> ('w, unit) mact" where
  "do_program env name with_info = seqM
     (modM (\<lambda>p. if erase_mode p < 0 then p\<lparr>erase_mode := 1\<rparr> else p))
    (seqM (whenM with_info (store_info env name))
    (seqM (connect_device env)
    (bindM (getM id) (\<lambda>p. bindM (on_target (target_flash_detect (base p))) (\<lambda>d. case d of
       None \<Rightarrow> retM ()
     | Some _ \<Rightarrow> seqM (erase_for_program env)
         (each_block (\<lambda>addr len. seqM (whenM (\<not> verify_only p) (program_block addr len))
            (verify_block addr len))))))))"

definition do_write :: "'w mc_env \<Rightarrow> ('w, unit) mact" where
  "do_write env = seqM (connect_device env) (bindM (getM verify_only) (\<lambda>vo.
     each_block (\<lambda>addr len. seqM (whenM (\<not> vo) (write_block addr len)) (verify_block addr len))))"

text \<open>The file is opened, and emptied, first.\<close>

definition read_to_file :: "u32 \<Rightarrow> nat \<Rightarrow> ('w, unit) mact" where
  "read_to_file addr len = bindM (getM id) (\<lambda>p.
     bindM (on_target (target_read_block (base p + addr) ((len + 3) div 4))) (\<lambda>ws.
       let bs = take len (concat (map le_bytes ws)); n = min (length bs) (disk p) in
       seqM (modM (\<lambda>p. p\<lparr>out_file := out_file p @ take n bs, disk := disk p - n\<rparr>))
         (if n = length bs then retM () else failM (Exit 1 ''write error''))))"

definition do_read :: "'w mc_env \<Rightarrow> string \<Rightarrow> ('w, unit) mact" where
  "do_read env name = seqM
     (if writable env name then modM (\<lambda>p. p\<lparr>out_file := []\<rparr>) else failM (Exit 1 ''cannot open''))
    (seqM (connect_device env)
     (bindM (getM id) (\<lambda>p. bindM (on_target (target_flash_detect (base p))) (\<lambda>d. case d of
       None \<Rightarrow> retM ()
     | Some _ \<Rightarrow> each_block read_to_file))))"

definition do_erase :: "'w mc_env \<Rightarrow> ('w, unit) mact" where
  "do_erase env = seqM (connect_device env)
     (bindM (getM id) (\<lambda>p. bindM (on_target (target_flash_detect (base p))) (\<lambda>d. case d of
       None \<Rightarrow> retM ()
     | Some _ \<Rightarrow> bindM (on_target (target_erase (fuel env) (base p))) (\<lambda>_. retM ()))))"

definition do_check_clean :: "'w mc_env \<Rightarrow> ('w, bool option) mact" where
  "do_check_clean env = seqM (connect_device env)
     (bindM (getM id) (\<lambda>p. bindM (on_target (target_flash_detect (base p))) (\<lambda>d. case d of
       None \<Rightarrow> retM None
     | Some _ \<Rightarrow> bindM (check_clean (base p)) (\<lambda>c. retM (Some c)))))"

text \<open>The regions in the order of the table, with the place of the information in the area read.\<close>

primrec info_loop :: "nat \<Rightarrow> nat \<Rightarrow> ('w, (u32 \<times> nat option) list) mact" where
  "info_loop 0 i = retM []"
| "info_loop (Suc n) i = bindM (on_target (getM (\<lambda>t. target_flash_address t i))) (\<lambda>a.
     if a = 0xffffffff then retM []
     else bindM (on_target (target_read_block a ((AREA_SIZE + 3) div 4))) (\<lambda>ws.
       seqM (modM (\<lambda>p. set_mem (concat (map le_bytes ws) @ drop (4 * length ws) (mem p)) p))
       (bindM (getM (\<lambda>p. find_info (mem p) AREA_SIZE)) (\<lambda>r.
          bindM (info_loop n (i + 1)) (\<lambda>rs. retM ((a, r) # rs))))))"

text \<open>Without \<open>atexit\<close>.\<close>

definition do_info :: "'w mc_env \<Rightarrow> ('w, (u32 \<times> nat option) list) mact" where
  "do_info env = seqM (seqsM [open_device env, on_target target_stop, configure env]) (info_loop NFLASH 0)"

section \<open>The command line\<close>

text \<open>
  The options that are no plain assignment to a global, and what a run reports. \<open>Usage\<close> stands
  for the help text.
\<close>

record mc_options =
  read_mode :: bool
  memory_write_mode :: bool
  info_mode :: bool
  with_info :: bool

datatype report =
    Usage
  | Silent
  | Probed "(u32 \<times> detected option) list"
  | Infos "(u32 \<times> nat option) list"
  | Clean "bool option"

text \<open>
  The loop over the options, on what \<open>getopt_long\<close> delivers: the character and \<open>optarg\<close>.
  \<open>None\<close>: the help, the version or a part of the license was printed. The counters are
  only tested for zero; \<open>erase_only\<close> is never used.
\<close>

primrec parse_options :: "(char \<times> string) list \<Rightarrow> mc_options \<Rightarrow> ('w, mc_options option) mact" where
  "parse_options [] opts = retM (Some opts)"
| "parse_options (x # xs) opts = (case x of (ch, optarg) \<Rightarrow>
     if ch = CHR ''E'' \<or> ch = CHR ''D'' then parse_options xs opts
     else if ch = CHR ''e'' then seqM (modM (\<lambda>p. p\<lparr>erase_mode := sint (strtoul optarg)\<rparr>))
       (if sint (strtoul optarg) < 0 \<or> sint (strtoul optarg) > 2 then retM None else parse_options xs opts)
     else if ch = CHR ''c'' then seqM (modM (\<lambda>p. p\<lparr>check_erase := True\<rparr>)) (parse_options xs opts)
     else if ch = CHR ''v'' then seqM (modM (\<lambda>p. p\<lparr>verify_only := True\<rparr>)) (parse_options xs opts)
     else if ch = CHR ''r'' then parse_options xs (opts\<lparr>read_mode := True\<rparr>)
     else if ch = CHR ''i'' then parse_options xs (opts\<lparr>info_mode := True\<rparr>)
     else if ch = CHR ''w'' then parse_options xs (opts\<lparr>memory_write_mode := True\<rparr>)
     else if ch = CHR ''g'' then seqM (modM (\<lambda>p. p\<lparr>start_addr := strtoul optarg\<rparr>)) (parse_options xs opts)
     else if ch = CHR ''b'' then seqM (modM (\<lambda>p. p\<lparr>board := Some optarg\<rparr>)) (parse_options xs opts)
     else if ch = CHR ''n'' then seqM (modM (\<lambda>p. p\<lparr>board_serial := Some optarg\<rparr>)) (parse_options xs opts)
     else if ch = CHR ''s'' then parse_options xs (opts\<lparr>with_info := True\<rparr>)
     else if ch = CHR ''d'' then seqM (modM (\<lambda>p. p\<lparr>disable_block := True\<rparr>)) (parse_options xs opts)
     else retM None)"

definition silent :: "('w, unit) mact \<Rightarrow> ('w, report) mact" where
  "silent m = seqM m (retM Silent)"

definition set_base :: "u32 \<Rightarrow> ('w, unit) mact" where
  "set_base a = modM (\<lambda>p. p\<lparr>img := (img p)\<lparr>memory_base := a\<rparr>\<rparr>)"

text \<open>A reader fills the globals; its result is the length.\<close>

definition load :: "(image \<Rightarrow> fault + image) \<Rightarrow> ('w, int) mact" where
  "load reader = bindM (getM img) (\<lambda>im. bindM (liftM (reader im)) (\<lambda>im'.
     seqM (modM (\<lambda>p. p\<lparr>img := im', memory_len := output_len im'\<rparr>)) (retM (output_len im'))))"

definition load_any :: "string option \<Rightarrow> ('w, unit) mact" where
  "load_any file = bindM (load (read_srec file)) (\<lambda>n. whenM (n = 0)
     (bindM (load (read_hex file)) (\<lambda>n. whenM (n = 0)
       (seqM (set_base DEFAULT_ADDR) (bindM (load (read_bin file)) (\<lambda>_. retM ()))))))"

text \<open>\<open>do_erase\<close>, and the check if that was asked for too; or the check alone.\<close>

definition erase_or_check :: "'w mc_env \<Rightarrow> u32 \<Rightarrow> ('w, report) mact \<Rightarrow> ('w, report) mact" where
  "erase_or_check env addr other = bindM (getM id) (\<lambda>p.
     if erase_mode p = 1 then
       seqM (set_base addr) (seqM (do_erase env)
         (if check_erase p then bindM (do_check_clean env) (\<lambda>c. retM (Clean c)) else retM Silent))
     else if check_erase p then
       seqM (set_base addr) (bindM (do_check_clean env) (\<lambda>c. retM (Clean c)))
     else other)"

definition command :: "'w mc_env \<Rightarrow> mc_options \<Rightarrow> string list \<Rightarrow> ('w, report) mact" where
  "command env opts args = (case args of
     [] \<Rightarrow>
       if info_mode opts then seqM (set_base DEFAULT_ADDR) (bindM (do_info env) (\<lambda>r. retM (Infos r)))
       else erase_or_check env DEFAULT_ADDR (bindM (do_probe env) (\<lambda>r. retM (Probed r)))
   | [name] \<Rightarrow> erase_or_check env (strtoul name)
       (seqM (load_any (files env name))
         (if info_mode opts then bindM (do_info env) (\<lambda>r. retM (Infos r))
          else if memory_write_mode opts then silent (do_write env)
          else silent (do_program env name (with_info opts))))
   | [name, addr] \<Rightarrow>
       seqM (set_base (strtoul addr)) (bindM (load (read_bin (files env name))) (\<lambda>_.
         if memory_write_mode opts then silent (do_write env)
         else silent (do_program env name (with_info opts))))
   | [name, addr, len] \<Rightarrow>
       if \<not> read_mode opts then retM Usage
       else seqM (set_base (strtoul addr))
         (seqM (modM (\<lambda>p. p\<lparr>memory_len := sint (strtoul len)\<rparr>)) (silent (do_read env name)))
   | _ \<Rightarrow> retM Usage)"

text \<open>
  The end of \<open>main\<close>, and an \<open>exit\<close> on the way, after which the registered \<open>quit\<close> runs. The
  usage text returns before \<open>quit\<close>, with no target open.
\<close>

definition main_program :: "'w mc_env \<Rightarrow> mc_options \<Rightarrow> string list \<Rightarrow> ('w, report) mact" where
  "main_program env opts args p = (case command env opts args p of
     (Inr r, p') \<Rightarrow> (case quit p' of (Inl e, q) \<Rightarrow> (Inl e, q) | (Inr _, q) \<Rightarrow> (Inr r, q))
   | (Inl (Exit n s), p') \<Rightarrow>
       if at_exit p' then (case quit p' of (Inl e, q) \<Rightarrow> (Inl e, q) | (Inr _, q) \<Rightarrow> (Inl (Exit n s), q))
       else (Inl (Exit n s), p')
   | (Inl e, p') \<Rightarrow> (Inl e, p'))"

text \<open>The whole program, from the initial values of its globals on.\<close>

definition initial :: "'w aworld \<Rightarrow> nat \<Rightarrow> 'w mcprog" where
  "initial w space = \<lparr>hw = w, the_target = None,
     img = \<lparr>memory_data = replicate MEMORY_SIZE 0, memory_base = 0, output_len = 0\<rparr>, memory_len = 0,
     start_addr = DEFAULT_ADDR, erase_mode = - 1, check_erase = False, verify_only = False, disable_block = False,
     board = None, board_serial = None, at_exit = False, out_file = [], disk = space\<rparr>"

definition mcprog_main :: "'w mc_env \<Rightarrow> (char \<times> string) list \<Rightarrow> string list \<Rightarrow> ('w, report) mact" where
  "mcprog_main env flags args = bindM
     (parse_options flags \<lparr>read_mode = False, memory_write_mode = False, info_mode = False, with_info = False\<rparr>)
     (\<lambda>opts. case opts of None \<Rightarrow> retM Usage | Some opts \<Rightarrow> main_program env opts args)"

end
