(* ===== verification/Mcprog_Props.thy ===== *)
theory Mcprog_Props
  imports Mcprog Elvees_Mem
begin

text \<open>
  What the commands of mcprog do to a chip with plain memory behind the bus: writing with
  verification, verification alone, reading to a file, the check for erased memory; what
  storing the software information does to the image; and the end of a run.
\<close>

section \<open>Words and bytes\<close>

lemma take_le_words: "take k (le_words bs) = le_words (take (4 * k) bs)"
proof (induction bs arbitrary: k rule: le_words.induct)
  case (1 a b c d bs)
  show ?case
  proof (cases k)
    case (Suc j)
    have "take (4 * Suc j) (a # b # c # d # bs) = a # b # c # d # take (4 * j) bs"
      by (simp add: eval_nat_numeral)
    then show ?thesis
      using 1 Suc by simp
  qed simp
qed (auto simp: take_Cons split: nat.splits)

lemma words_of_bytes:
  assumes "q mod 4 = 0" and "map (mbyte mm) [q..<q + 4 * k] = take (4 * k) bs"
  shows "map (\<lambda>i. mm (of_nat (q + 4 * i))) [0..<k] = take k (le_words bs)"
proof -
  have "concat (map le_bytes (map (\<lambda>i. mm (of_nat (q + 4 * i))) [0..<k])) = take (4 * k) bs"
    using mbyte_words [OF assms(1), of mm k] assms(2) by (simp add: comp_def)
  then show ?thesis
    using le_words_concat [of "map (\<lambda>i. mm (of_nat (q + 4 * i))) [0..<k]"] by (simp add: take_le_words)
qed

lemma bytes_of_words:
  assumes "4 * k \<le> length bs"
  shows "concat (map le_bytes (take k (le_words bs))) = take (4 * k) bs"
proof -
  have "4 * (length (take (4 * k) bs) div 4) = 4 * k"
    using assms by simp
  then show ?thesis
    using le_words_bytes [of "take (4 * k) bs"] by (simp add: take_le_words)
qed

section \<open>The target\<close>

lemma on_target_run:
  "the_target p = Some t \<Longrightarrow> m t = (r, t') \<Longrightarrow> on_target m p = (r, p\<lparr>the_target := Some t'\<rparr>)"
  by (simp add: on_target_def)

lemma on_target_eq:
  "the_target p = Some t \<Longrightarrow> on_target f p = (case f t of (r, t') \<Rightarrow> (r, p\<lparr>the_target := Some t'\<rparr>))"
  by (simp add: on_target_def)

lemma mm_on_target [simp]:
  "img (p\<lparr>the_target := t\<rparr>) = img p" "memory_len (p\<lparr>the_target := t\<rparr>) = memory_len p"
  by simp_all

text \<open>The loop over the blocks: an invariant over the number of blocks that are done.\<close>

lemma sint_nat32:
  assumes "m < 2 ^ 31" shows "sint (of_nat m :: u32) = int m"
proof -
  have "uint (of_nat m :: u32) = int m"
    using assms by (simp add: uint_nat unsigned_of_nat take_bit_nat_eq_self)
  moreover have "signed_take_bit 31 (int m) = int m"
    using assms by (intro signed_take_bit_int_eq_self) simp_all
  ultimately show ?thesis
    by (simp only: sint_uint len_num1) simp
qed

lemma block_length:
  assumes "x < n" and "n < 2 ^ 31"
  shows "unat (min (of_nat BLOCKSZ) (of_int (int n) - of_nat x :: u32)) = min 1024 (n - x)"
proof -
  have "(of_int (int n) - of_nat x :: u32) = of_nat (n - x)"
    using assms(1) by (simp add: of_nat_diff)
  moreover have "unat (of_nat (n - x) :: u32) = n - x" "unat (of_nat BLOCKSZ :: u32) = 1024"
    using assms unat_nat32 [of "n - x"] by (simp_all add: BLOCKSZ_def)
  ultimately show ?thesis
    by (simp add: min_def word_le_nat_alt)
qed

declare block_loop.simps [simp del]

lemma below_int: "x < n + 1024 \<Longrightarrow> n < 0x7ffffc00 \<Longrightarrow> x < (2 :: nat) ^ 31"
  by simp

lemma block_loop_run:
  assumes step: "\<And>j p. 1024 * j < n \<Longrightarrow> J j p \<Longrightarrow>
      \<exists>p'. f (of_nat (1024 * j)) (min 1024 (n - 1024 * j)) p = (Inr (), p') \<and> J (Suc j) p'"
    and n: "n < 0x7ffffc00"
  shows "1024 * j < n + 1024 \<Longrightarrow> n \<le> 1024 * (j + k) \<Longrightarrow> J j p \<Longrightarrow>
    \<exists>p' i. block_loop (Suc k) f (int n) (of_nat (1024 * j)) p = (Inr (), p') \<and> J i p' \<and> n \<le> 1024 * i \<and> 1024 * i < n + 1024"
proof (induction k arbitrary: j p)
  case 0
  have "sint (of_nat (1024 * j) :: u32) = int (1024 * j)"
    using 0 n by (intro sint_nat32 below_int [of _ n])
  then have "\<not> sint (of_nat (1024 * j) :: u32) < int n"
    using 0 by (simp only: of_nat_less_iff not_less add_0_right)
  then show ?case
    using 0 by (auto simp: block_loop.simps act_simps simp del: of_nat_mult intro!: exI [of _ j])
next
  case (Suc k)
  have s: "sint (of_nat (1024 * j) :: u32) = int (1024 * j)"
    using Suc.prems n by (intro sint_nat32 below_int [of _ n])
  show ?case
  proof (cases "1024 * j < n")
    case True
    obtain p' where p': "f (of_nat (1024 * j)) (min 1024 (n - 1024 * j)) p = (Inr (), p')" "J (Suc j) p'"
      using step [OF True Suc.prems(3)] by blast
    have a: "(of_nat (1024 * j) + of_nat BLOCKSZ :: u32) = of_nat (1024 * Suc j)"
      by (simp add: BLOCKSZ_def algebra_simps)
    have l: "unat (min (of_nat BLOCKSZ) (of_int (int n) - of_nat (1024 * j) :: u32)) = min 1024 (n - 1024 * j)"
      using True n by (intro block_length) simp_all
    have c: "sint (of_nat (1024 * j) :: u32) < int n"
      using True by (simp only: s of_nat_less_iff)
    have "block_loop (Suc (Suc k)) f (int n) (of_nat (1024 * j)) p = block_loop (Suc k) f (int n) (of_nat (1024 * Suc j)) p'"
      using c p'(1) by (simp only: block_loop.simps(2) [of "Suc k"] if_True a l seqM_apply) simp
    moreover have "\<exists>p'' i. block_loop (Suc k) f (int n) (of_nat (1024 * Suc j)) p' = (Inr (), p'') \<and> J i p'' \<and>
        n \<le> 1024 * i \<and> 1024 * i < n + 1024"
      using Suc.prems(2) True p'(2) by (intro Suc.IH) simp_all
    ultimately show ?thesis
      by metis
  next
    case False
    then have "\<not> sint (of_nat (1024 * j) :: u32) < int n"
      using False by (simp only: s of_nat_less_iff not_False_eq_True)
    then show ?thesis
      using Suc.prems False by (auto simp: block_loop.simps act_simps simp del: of_nat_mult intro!: exI [of _ j])
  qed
qed

lemma each_block_run:
  assumes step: "\<And>j p. 1024 * j < n \<Longrightarrow> J j p \<Longrightarrow>
      \<exists>p'. f (of_nat (1024 * j)) (min 1024 (n - 1024 * j)) p = (Inr (), p') \<and> J (Suc j) p'"
    and n: "n < 0x7ffffc00" and "memory_len p = int n" and "J 0 p"
  shows "\<exists>p' i. each_block f p = (Inr (), p') \<and> J i p' \<and> n \<le> 1024 * i \<and> 1024 * i < n + 1024"
proof -
  have "n \<le> 1024 * (0 + Suc (n div 1024))"
    by (simp add: less_imp_le div_less_iff_less_mult [symmetric])
  then show ?thesis
    using block_loop_run [of n J f, OF step n, of 0 "Suc (n div 1024)" p] assms(3,4)
    by (simp add: each_block_def bindM_apply BLOCKSZ_def)
qed

section \<open>Blocks of the image\<close>

definition whole :: "nat \<Rightarrow> nat" where
  "whole n = 4 * ((n + 3) div 4)"

text \<open>An image of \<open>n\<close> bytes in the memory of the program, for the chip's memory at \<open>a\<close>.\<close>

definition loaded :: "nat \<Rightarrow> nat \<Rightarrow> 'w mcprog \<Rightarrow> bool" where
  "loaded a n p \<longleftrightarrow> base p = of_nat a \<and> a mod 4 = 0 \<and> in_segment a (whole n) \<and> n \<le> MEMORY_SIZE \<and>
     length (mem p) = MEMORY_SIZE"

lemma loaded_target [simp]: "loaded a n (p\<lparr>the_target := t\<rparr>) = loaded a n p"
  by (simp add: loaded_def)

lemma block_numbers:
  fixes n x :: nat
  assumes "x < n" and "x mod 4 = 0"
  defines "l \<equiv> min 1024 (n - x)"
  shows "0 < (l + 3) div 4" and "x + 4 * ((l + 3) div 4) = min (x + 1024) (whole n)" and "whole n \<le> n + 3"
    and "x + 4 * ((l + 3) div 4) \<le> whole n"
proof -
  obtain r where r: "x = 4 * r"
    using assms(2) by blast
  show "0 < (l + 3) div 4" "whole n \<le> n + 3"
    using assms(1) by (auto simp: l_def whole_def)
  show e: "x + 4 * ((l + 3) div 4) = min (x + 1024) (whole n)"
  proof (cases "n - x \<le> 1024")
    case True
    obtain d where d: "n = 4 * r + d"
      using assms(1) r less_imp_add_positive [of "4 * r" n] by auto
    with True have l: "l = d" "d \<le> 1024"
      by (simp_all add: l_def r)
    have "(n + 3) div 4 = r + (d + 3) div 4"
      by (simp add: d add.assoc)
    moreover have "(d + 3) div 4 \<le> 1027 div 4"
      using l(2) by (intro div_le_mono) simp
    ultimately show ?thesis
      using r l(1) by (simp add: whole_def)
  next
    case False
    then show ?thesis
      using assms(1) by (simp add: l_def whole_def)
  qed
  then show "x + 4 * ((l + 3) div 4) \<le> whole n"
    by simp
qed

lemma whole_fits: "n \<le> MEMORY_SIZE \<Longrightarrow> whole n \<le> MEMORY_SIZE"
  by (simp add: whole_def MEMORY_SIZE_def)

lemma in_segment_part:
  assumes "in_segment a N" and "x + y \<le> N" and "0 < y"
  shows "in_segment (a + x) y" and "phys_nat (a + x) = phys_nat a + x" and "a + x < 0x100000000"
  using assms by (auto simp: in_segment_def phys_nat_def)

lemma block_place:
  assumes "loaded a n p" and "x < n" and "x mod 4 = 0"
  defines "k \<equiv> (min 1024 (n - x) + 3) div 4"
  shows "base p + of_nat x = of_nat (a + x)" and "in_segment (a + x) (4 * k)" and "phys_nat (a + x) = phys_nat a + x"
    and "a + x < 0x100000000" and "(a + x) mod 4 = 0" and "(phys_nat a + x) mod 4 = 0" and "0 < k"
    and "4 * k \<le> length (drop x (mem p))" and "unat (of_nat x :: u32) = x"
    and "x + 4 * k = min (x + 1024) (whole n)"
proof -
  note num = block_numbers [OF assms(2,3), folded k_def]
  have seg: "in_segment a (whole n)" and a: "a mod 4 = 0" and n: "n \<le> MEMORY_SIZE"
    using assms(1) by (simp_all add: loaded_def)
  have k: "0 < k"
    by (rule num(1))
  note part = in_segment_part [OF seg num(4)]
  show "base p + of_nat x = of_nat (a + x)"
    using assms(1) by (simp add: loaded_def)
  show "in_segment (a + x) (4 * k)" "phys_nat (a + x) = phys_nat a + x" "a + x < 0x100000000"
    using part k by simp_all
  show am: "(a + x) mod 4 = 0"
    using a assms(3) by presburger
  have "phys_nat a mod 4 = 0"
    using a phys_nat_mod [of a] by simp
  then show "(phys_nat a + x) mod 4 = 0"
    using assms(3) by presburger
  show "0 < k" "x + 4 * k = min (x + 1024) (whole n)"
    by (rule num)+
  have "whole n \<le> MEMORY_SIZE"
    by (rule whole_fits [OF n])
  then show "4 * k \<le> length (drop x (mem p))"
    using num(4) assms(1) by (simp add: loaded_def)
  show "unat (of_nat x :: u32) = x"
    using assms(2) n by (intro unat_nat32) (simp add: MEMORY_SIZE_def)
qed

lemma write_block_step:
  assumes "loaded a n p" and "the_target p = Some t" and "plain m view t" and "x < n" and "x mod 4 = 0"
  defines "k \<equiv> (min 1024 (n - x) + 3) div 4"
  shows "\<exists>t'. write_block (of_nat x) (min 1024 (n - x)) p = (Inr (), p\<lparr>the_target := Some t'\<rparr>) \<and>
    stored m view t (phys_nat a + x) (take (4 * k) (drop x (mem p))) t'"
proof -
  note pl = block_place [OF assms(1,4,5), folded k_def]
  have "k \<le> length (le_words (drop x (mem p)))"
    using pl(8) by simp
  then obtain t' where t': "target_write_block (of_nat (a + x)) k (le_words (drop x (mem p))) t = (Inr (), t')"
    "stored m view t (phys_nat (a + x)) (concat (map le_bytes (take k (le_words (drop x (mem p)))))) t'"
    using write_block_run [OF assms(3) pl(4,5,2,7)] by blast
  have "write_block (of_nat x) (min 1024 (n - x)) p = (Inr (), p\<lparr>the_target := Some t'\<rparr>)"
    by (simp only: on_target_eq [OF assms(2)] t'(1) write_block_def bindM_apply getM_apply id_apply
        prod.case sum.case pl(1,9) k_def [symmetric])
  moreover have "stored m view t (phys_nat a + x) (take (4 * k) (drop x (mem p))) t'"
    using t'(2) pl(3) bytes_of_words [OF pl(8)] by simp
  ultimately show ?thesis
    by blast
qed

lemma verify_same: "verify_words addr (ws @ es) ws = retM ()"
  by (induction ws arbitrary: addr) (auto simp: verify_word.simps numeral_3_eq_3)

lemma read_for_verify:
  assumes "loaded a n p" and "the_target p = Some t" and "plain m view t" and "x < n" and "x mod 4 = 0"
  defines "k \<equiv> (min 1024 (n - x) + 3) div 4"
  shows "\<exists>t'. verify_block (of_nat x) (min 1024 (n - x)) p =
      verify_words (of_nat (a + x)) (le_words (drop x (mem p)))
        (map (\<lambda>i. mem_now m view t (of_nat (phys_nat a + x + 4 * i))) [0..<k]) (p\<lparr>the_target := Some t'\<rparr>) \<and>
    kept m view t t'"
proof -
  note pl = block_place [OF assms(1,4,5), folded k_def]
  obtain t' where t': "target_read_block (of_nat (a + x)) k t =
      (Inr (map (\<lambda>i. mem_now m view t (of_nat (phys_nat (a + x) + 4 * i))) [0..<k]), t')" "kept m view t t'"
    using read_block_run [OF assms(3) pl(4,2)] by blast
  then show ?thesis
    by (intro exI [of _ t']) (simp only: on_target_eq [OF assms(2)] verify_block_def bindM_apply getM_apply id_apply
        prod.case sum.case pl(1,3,9) k_def [symmetric])
qed

lemma verify_block_step:
  assumes "loaded a n p" and "the_target p = Some t" and "plain m view t" and "x < n" and "x mod 4 = 0"
  defines "k \<equiv> (min 1024 (n - x) + 3) div 4"
  assumes "map (mbyte (mem_now m view t)) [phys_nat a + x..<phys_nat a + x + 4 * k] = take (4 * k) (drop x (mem p))"
  shows "\<exists>t'. verify_block (of_nat x) (min 1024 (n - x)) p = (Inr (), p\<lparr>the_target := Some t'\<rparr>) \<and> kept m view t t'"
proof -
  note pl = block_place [OF assms(1,4,5), folded k_def]
  let ?ws = "map (\<lambda>i. mem_now m view t (of_nat (phys_nat a + x + 4 * i))) [0..<k]"
  have "?ws = take k (le_words (drop x (mem p)))"
    by (rule words_of_bytes [OF pl(6) assms(7)])
  then have "le_words (drop x (mem p)) = ?ws @ drop k (le_words (drop x (mem p)))"
    by (metis append_take_drop_id)
  then have "verify_words addr (le_words (drop x (mem p))) ?ws q = (Inr (), q)" for addr q
    by (metis verify_same retM_apply)
  moreover obtain t' where t': "verify_block (of_nat x) (min 1024 (n - x)) p =
      verify_words (of_nat (a + x)) (le_words (drop x (mem p))) ?ws (p\<lparr>the_target := Some t'\<rparr>)" "kept m view t t'"
    using read_for_verify [OF assms(1-5)] unfolding k_def by blast
  ultimately show ?thesis
    by metis
qed

lemma stored_bytes:
  assumes "stored m view t P bs t'" and "P + length bs \<le> 0x80000000" and "x + y \<le> length bs"
  shows "map (mbyte (mem_now m view t')) [P + x..<P + x + y] = take y (drop x bs)"
  using assms by (auto simp: stored_def list_eq_iff_nth_eq)

section \<open>Writing, verifying, reading\<close>

lemma write_and_verify_step:
  assumes "loaded a n p" and "the_target p = Some t" and "plain m view t" and "x < n" and "x mod 4 = 0"
  defines "k \<equiv> (min 1024 (n - x) + 3) div 4"
  shows "\<exists>t'. seqM (write_block (of_nat x) (min 1024 (n - x))) (verify_block (of_nat x) (min 1024 (n - x))) p =
      (Inr (), p\<lparr>the_target := Some t'\<rparr>) \<and>
    stored m view t (phys_nat a + x) (take (4 * k) (drop x (mem p))) t'"
proof -
  note pl = block_place [OF assms(1,4,5), folded k_def]
  let ?bs = "take (4 * k) (drop x (mem p))"
  obtain t1 where w: "write_block (of_nat x) (min 1024 (n - x)) p = (Inr (), p\<lparr>the_target := Some t1\<rparr>)"
    and s: "stored m view t (phys_nat a + x) ?bs t1"
    using write_block_step [OF assms(1-5), folded k_def] by blast
  have len: "length ?bs = 4 * k"
    using pl(8) by simp
  have "phys_nat a + x + 4 * k \<le> 0x80000000"
    using phys_nat_bound [OF pl(2)] pl(3,7) by simp
  then have eq: "map (mbyte (mem_now m view t1)) [phys_nat a + x..<phys_nat a + x + 4 * k] = ?bs"
    using stored_bytes [OF s, of 0 "4 * k"] len by simp
  have pt: "plain m view t1"
    using s by (simp add: stored_def)
  have "\<exists>t'. verify_block (of_nat x) (min 1024 (n - x)) (p\<lparr>the_target := Some t1\<rparr>) =
      (Inr (), p\<lparr>the_target := Some t'\<rparr>) \<and> kept m view t1 t'"
    using verify_block_step [of a n "p\<lparr>the_target := Some t1\<rparr>" t1 m view x] assms(1,4,5) pt eq
    unfolding k_def by simp
  then obtain t2 where v: "verify_block (of_nat x) (min 1024 (n - x)) (p\<lparr>the_target := Some t1\<rparr>) =
      (Inr (), p\<lparr>the_target := Some t2\<rparr>)" "kept m view t1 t2"
    by blast
  have "stored m view t (phys_nat a + x) ?bs t2"
    using s v(2) by (simp add: stored_def kept_def)
  then show ?thesis
    using w v(1) by (auto simp: seqM_apply)
qed

lemma block_aligned: "(1024 * j) mod 4 = (0::nat)"
proof -
  have "1024 * j = 4 * (256 * j)"
    by simp
  then show ?thesis
    by (metis mod_mult_self1_is_0)
qed

text \<open>The blocks before number \<open>j\<close> are written and verified.\<close>

definition written_to ::
  "(u32 \<Rightarrow> u32) \<Rightarrow> ('w \<Rightarrow> chip) \<Rightarrow> 'w target \<Rightarrow> 'w mcprog \<Rightarrow> nat \<Rightarrow> nat \<Rightarrow> nat \<Rightarrow> 'w mcprog \<Rightarrow> bool" where
  "written_to m view t p a n j q \<longleftrightarrow> (\<exists>t'. q = p\<lparr>the_target := Some t'\<rparr> \<and>
     stored m view t (phys_nat a) (take (min (1024 * j) (whole n)) (mem p)) t')"

lemma written_to_step:
  assumes "loaded a n p" and j: "1024 * j < n" and q: "written_to m view t p a n j q"
  shows "\<exists>q'. seqM (write_block (of_nat (1024 * j)) (min 1024 (n - 1024 * j)))
      (verify_block (of_nat (1024 * j)) (min 1024 (n - 1024 * j))) q = (Inr (), q') \<and>
    written_to m view t p a n (Suc j) q'"
proof -
  have big: "whole n \<le> length (mem p)"
    using assms(1) whole_fits [of n] by (simp add: loaded_def)
  obtain t1 where q1: "q = p\<lparr>the_target := Some t1\<rparr>"
    and s1: "stored m view t (phys_nat a) (take (min (1024 * j) (whole n)) (mem p)) t1"
    using q unfolding written_to_def by blast
  note x = block_aligned [of j]
  note num = block_numbers [OF j x]
  have l1: "loaded a n q" "the_target q = Some t1" "plain m view t1" "mem q = mem p"
    using assms(1) s1 by (simp_all add: q1 stored_def)
  obtain t2 where f: "seqM (write_block (of_nat (1024 * j)) (min 1024 (n - 1024 * j)))
      (verify_block (of_nat (1024 * j)) (min 1024 (n - 1024 * j))) q = (Inr (), q\<lparr>the_target := Some t2\<rparr>)"
    and s2: "stored m view t1 (phys_nat a + 1024 * j)
      (take (4 * ((min 1024 (n - 1024 * j) + 3) div 4)) (drop (1024 * j) (mem p))) t2"
    using write_and_verify_step [OF l1(1-3) j x] l1(4) by auto
  let ?k = "4 * ((min 1024 (n - 1024 * j) + 3) div 4)"
  have e: "min (1024 * j) (whole n) = 1024 * j" "1024 * j + ?k = min (1024 * Suc j) (whole n)"
    using j num(2) by (simp_all add: whole_def)
  have "length (take (1024 * j) (mem p)) = 1024 * j"
    using e big by simp
  then have "stored m view t (phys_nat a) (take (1024 * j) (mem p) @ take ?k (drop (1024 * j) (mem p))) t2"
    using s1 s2 e(1) by (intro stored_append [OF s1 [unfolded e(1)]]) simp
  then have "stored m view t (phys_nat a) (take (min (1024 * Suc j) (whole n)) (mem p)) t2"
    by (simp only: take_add [symmetric] e(2))
  then show ?thesis
    using f by (intro exI [of _ "q\<lparr>the_target := Some t2\<rparr>"]) (auto simp: written_to_def q1)
qed

text \<open>
  C1: \<open>do_write\<close> on plain memory: the loop over the blocks ends without an error, the
  whole image has then been stored at the base address (rounded up to whole words), and every
  other byte of the memory is as before.
\<close>

theorem write_is_verified:
  assumes "loaded a n p" and "memory_len p = int n" and "the_target p = Some t" and "plain m view t"
  shows "\<exists>t'. each_block (\<lambda>addr len. seqM (write_block addr len) (verify_block addr len)) p =
      (Inr (), p\<lparr>the_target := Some t'\<rparr>) \<and>
    stored m view t (phys_nat a) (take (whole n) (mem p)) t'"
proof -
  let ?f = "\<lambda>addr len. seqM (write_block addr len) (verify_block addr len)"
  have "n < 0x7ffffc00"
    using assms(1) by (simp add: loaded_def) (simp add: MEMORY_SIZE_def)
  moreover have "written_to m view t p a n 0 p"
    using assms(3,4) unfolding written_to_def by (intro exI [of _ t]) (simp add: stored_Nil)
  ultimately obtain p' i where
    r: "each_block ?f p = (Inr (), p')" "written_to m view t p a n i p'" "n \<le> 1024 * i" "1024 * i < n + 1024"
    using each_block_run [of n "written_to m view t p a n" ?f p, OF written_to_step [OF assms(1)] _ assms(2)] by blast
  have "whole n \<le> 1024 * i"
    using r(3) by (simp add: whole_def)
  then show ?thesis
    using r(1,2) by (auto simp: written_to_def min_absorb2)
qed


lemma read_to_file_run:
  assumes "loaded a n p" and "x < n" and "x mod 4 = 0" and "base q = base p" and "the_target q = Some t1"
    and "plain m view t1" and "min 1024 (n - x) \<le> disk q"
  defines "l \<equiv> min 1024 (n - x)"
  shows "\<exists>t2. read_to_file (of_nat x) l q = (Inr (), q\<lparr>the_target := Some t2,
      out_file := out_file q @ map (mbyte (mem_now m view t1)) [phys_nat a + x..<phys_nat a + x + l],
      disk := disk q - l\<rparr>) \<and> kept m view t1 t2"
proof -
  define k where "k = (l + 3) div 4"
  note pl = block_place [OF assms(1-3), folded l_def, folded k_def]
  let ?ws = "map (\<lambda>i. mem_now m view t1 (of_nat (phys_nat a + x + 4 * i))) [0..<k]"
  obtain t2 where r: "target_read_block (of_nat (a + x)) k t1 = (Inr ?ws, t2)" "kept m view t1 t2"
    using read_block_run [OF assms(6) pl(4,2)] pl(3) by auto
  have "concat (map le_bytes ?ws) = map (mbyte (mem_now m view t1)) [phys_nat a + x..<phys_nat a + x + 4 * k]"
    using mbyte_words [OF pl(6), of "mem_now m view t1" k] by (simp add: comp_def)
  moreover have "l \<le> 4 * k"
    by (simp add: k_def)
  ultimately have bs: "take l (concat (map le_bytes ?ws)) =
      map (mbyte (mem_now m view t1)) [phys_nat a + x..<phys_nat a + x + l]"
    by (simp add: take_map)
  have len: "length (take l (concat (map le_bytes ?ws))) = l"
    unfolding bs by simp
  have "l \<le> disk q"
    using assms(7) by (simp add: l_def)
  then show ?thesis
    using bs len r by (intro exI [of _ t2]) (simp add: read_to_file_def bindM_apply assms(4) pl(1) k_def [symmetric] on_target_eq [OF assms(5)] Let_def
        del: of_nat_add of_nat_mult map_map length_take)
qed

text \<open>
  C33: \<open>do_read\<close> on plain memory: the file gets exactly the \<open>memory_len\<close> bytes of
  the memory from the base address on, in order, and the memory stays as it is.
\<close>

theorem read_file_bytes:
  assumes "loaded a n p" and "memory_len p = int n" and "the_target p = Some t" and "plain m view t"
    and "out_file p = []" and "n \<le> disk p"
  shows "\<exists>t'. each_block read_to_file p = (Inr (), p\<lparr>the_target := Some t',
      out_file := map (mbyte (mem_now m view t)) [phys_nat a..<phys_nat a + n], disk := disk p - n\<rparr>) \<and>
    kept m view t t'"
proof -
  let ?bytes = "\<lambda>y. map (mbyte (mem_now m view t)) [phys_nat a..<phys_nat a + y]"
  define J where "J j q = (\<exists>t'. q = p\<lparr>the_target := Some t', out_file := ?bytes (min (1024 * j) n),
      disk := disk p - min (1024 * j) n\<rparr> \<and> kept m view t t')" for j q
  have big: "n < 0x7ffffc00"
    using assms(1) by (simp add: loaded_def MEMORY_SIZE_def)
  have step: "\<exists>q'. read_to_file (of_nat (1024 * j)) (min 1024 (n - 1024 * j)) q = (Inr (), q') \<and> J (Suc j) q'"
    if j: "1024 * j < n" and q: "J j q" for j q
  proof -
    define l where "l = min 1024 (n - 1024 * j)"
    obtain t1 where q1: "q = p\<lparr>the_target := Some t1, out_file := ?bytes (1024 * j), disk := disk p - 1024 * j\<rparr>"
      and k1: "kept m view t t1"
      using q j unfolding J_def by auto
    have p1: "plain m view t1" and now: "mem_now m view t1 = mem_now m view t"
      using k1 by (simp_all add: kept_def)
    have l: "1024 * j + l = min (1024 * Suc j) n" "min 1024 (n - 1024 * j) \<le> disk q"
      using j assms(6) by (simp_all add: l_def q1)
    obtain t2 where r: "read_to_file (of_nat (1024 * j)) l q = (Inr (), q\<lparr>the_target := Some t2,
        out_file := ?bytes (1024 * j) @ map (mbyte (mem_now m view t)) [phys_nat a + 1024 * j..<phys_nat a + 1024 * j + l],
        disk := disk p - 1024 * j - l\<rparr>)" "kept m view t1 t2"
      using read_to_file_run [OF assms(1) j block_aligned _ _ p1 l(2)] by (auto simp: q1 now l_def)
    have "?bytes (1024 * j) @ map (mbyte (mem_now m view t)) [phys_nat a + 1024 * j..<phys_nat a + 1024 * j + l] =
        ?bytes (min (1024 * Suc j) n)"
      by (simp only: l(1) [symmetric] map_append [symmetric] add.assoc [symmetric] upt_add_eq_append [OF le_add1])
    then show ?thesis
      using l r(1) kept_trans [OF k1 r(2)] unfolding l_def [symmetric] J_def
      by (intro exI conjI) (auto simp: q1)
  qed
  have "J 0 p"
    using assms(3-5) unfolding J_def by (intro exI [of _ t]) (simp add: kept_refl)
  from each_block_run [of n J read_to_file p, OF step big assms(2) this] show ?thesis
    by (auto simp: J_def min_absorb2)
qed

section \<open>The check for erased memory\<close>

lemma erased_word: "le_bytes w = replicate 4 0xff \<longleftrightarrow> w = 0xffffffff"
proof
  assume "le_bytes w = replicate 4 0xff"
  then have "w = le_word (replicate 4 0xff)"
    using le_word_bytes [of w] by simp
  then show "w = 0xffffffff"
    by (simp add: le_word_def)
next
  assume "w = 0xffffffff"
  moreover have "le_bytes 0xffffffff = replicate 4 0xff"
    by code_simp
  ultimately show "le_bytes w = replicate 4 0xff"
    by simp
qed

lemma erased_words:
  assumes "q mod 4 = 0"
  shows "list_all (\<lambda>w. w = 0xffffffff) (map (\<lambda>i. mm (of_nat (q + 4 * i))) [0..<k]) \<longleftrightarrow>
    (\<forall>x \<in> {q..<q + 4 * k}. mbyte mm x = 0xff)"
proof -
  let ?ws = "map (\<lambda>i. mm (of_nat (q + 4 * i))) [0..<k]"
  have four: "set bs \<subseteq> {0xff} \<longleftrightarrow> bs = replicate 4 0xff" if "length bs = 4" for bs :: "u8 list"
    using that by (auto simp: list_eq_iff_nth_eq in_set_conv_nth subset_iff)
  have "(\<forall>x \<in> {q..<q + 4 * k}. mbyte mm x = 0xff) \<longleftrightarrow> set (map (mbyte mm) [q..<q + 4 * k]) \<subseteq> {0xff}"
    by auto
  also have "\<dots> \<longleftrightarrow> set (concat (map le_bytes ?ws)) \<subseteq> {0xff}"
    unfolding mbyte_words [OF assms] by (simp add: comp_def del: set_concat)
  also have "\<dots> \<longleftrightarrow> (\<forall>w \<in> set ?ws. le_bytes w = replicate 4 0xff)"
    unfolding set_concat UN_subset_iff using four [OF length_le_bytes] by simp
  finally show ?thesis
    by (simp only: erased_word list_all_iff)
qed

lemma ball_from:
  fixes x y z :: nat
  assumes "\<forall>q \<in> {x..<y}. P q" and "x \<le> y" and "y \<le> z"
  shows "(\<forall>q \<in> {x..<z}. P q) \<longleftrightarrow> (\<forall>q \<in> {y..<z}. P q)"
proof -
  have "{x..<z} = {x..<y} \<union> {y..<z}"
    using assms(2,3) by auto
  then show ?thesis
    using assms(1) by (simp add: ball_Un)
qed

lemma clean_loop_run:
  assumes "in_segment a S" and "65536 dvd S" and "a + S < 0x100000000" and "a mod 4 = 0"
  shows "plain m view t \<Longrightarrow> the_target p = Some t \<Longrightarrow> 65536 * j \<le> S \<Longrightarrow> S \<le> 65536 * (j + k) \<Longrightarrow>
    \<exists>t'. clean_loop (Suc k) (of_nat a) (of_nat (a + S)) (of_nat (65536 * j)) p =
      (Inr (\<forall>q \<in> {phys_nat a + 65536 * j..<phys_nat a + S}. mbyte (mem_now m view t) q = 0xff),
       p\<lparr>the_target := Some t'\<rparr>) \<and> kept m view t t'"
proof (induction k arbitrary: j t p)
  case 0
  then have "65536 * j = S"
    by simp
  then show ?case
    using 0 by (auto simp: act_simps kept_refl intro!: exI [of _ t])
next
  case (Suc k)
  have u: "unat (of_nat (a + S) :: u32) = a + S" "65536 * j \<le> S \<Longrightarrow> unat (of_nat (a + 65536 * j) :: u32) = a + 65536 * j"
    using assms(3) by (simp_all add: unat_nat32 del: of_nat_add of_nat_mult)
  show ?case
  proof (cases "65536 * j = S")
    case True
    then show ?thesis
      using Suc.prems by (auto simp: act_simps kept_refl intro!: exI [of _ t])
  next
    case False
    obtain r where r: "S = 65536 * r"
      using assms(2) by blast
    have j: "65536 * Suc j \<le> S"
      using Suc.prems(3) False unfolding r by simp
    have lt: "(of_nat a + of_nat (65536 * j) :: u32) < of_nat (a + S)"
      using u j by (simp only: of_nat_add [symmetric] word_less_nat_alt) simp
    have "(0x10000 + of_nat (65536 * j) :: u32) = of_nat (65536 * Suc j)"
      by (simp add: algebra_simps)
    then have le: "\<not> (0x10000 + of_nat (65536 * j) :: u32) > of_nat (a + S)"
      using u(1) j assms(3) unat_nat32 [of "65536 * Suc j"] by (simp only: word_less_nat_alt not_less)
    have seg: "in_segment (a + 65536 * j) (4 * 16384)" and ph: "phys_nat (a + 65536 * j) = phys_nat a + 65536 * j"
      and lim: "a + 65536 * j < 0x100000000"
      using in_segment_part [OF assms(1), of "65536 * j" 65536] j by simp_all
    let ?ws = "map (\<lambda>i. mem_now m view t (of_nat (phys_nat a + 65536 * j + 4 * i))) [0..<16384]"
    obtain t1 where t1: "target_read_block (of_nat a + of_nat (65536 * j)) 16384 t = (Inr ?ws, t1)" "kept m view t t1"
      using read_block_run [OF Suc.prems(1) lim seg] ph by auto
    have "phys_nat a + 65536 * j = phys_nat a + 4 * (16384 * j)"
      by simp
    then have p4: "(phys_nat a + 65536 * j) mod 4 = 0"
      using assms(4) phys_nat_mod [of a] by (simp only: mod_mult_self2)
    have ff: "list_all (\<lambda>w. w = 0xffffffff) ?ws \<longleftrightarrow>
        (\<forall>q \<in> {phys_nat a + 65536 * j..<phys_nat a + 65536 * Suc j}. mbyte (mem_now m view t) q = 0xff)"
      using erased_words [OF p4, of "mem_now m view t" 16384] by (simp add: algebra_simps)
    have step: "clean_loop (Suc (Suc k)) (of_nat a) (of_nat (a + S)) (of_nat (65536 * j)) p =
        (if list_all (\<lambda>w. w = 0xffffffff) ?ws
         then clean_loop (Suc k) (of_nat a) (of_nat (a + S)) (of_nat (65536 * Suc j)) (p\<lparr>the_target := Some t1\<rparr>)
         else (Inr False, p\<lparr>the_target := Some t1\<rparr>))"
    proof -
      have "(of_nat (65536 * j) + 0x10000 :: u32) = of_nat (65536 * Suc j)"
        by (simp add: algebra_simps)
      then show ?thesis
        using lt le t1(1)
        by (subst clean_loop.simps) (simp add: Let_def bindM_apply on_target_eq [OF Suc.prems(2)] retM_apply
            del: of_nat_add of_nat_mult clean_loop.simps)
    qed
    show ?thesis
    proof (cases "list_all (\<lambda>w. w = 0xffffffff) ?ws")
      case True
      have now: "mem_now m view t1 = mem_now m view t" and p1: "plain m view t1"
        using t1(2) by (simp_all add: kept_def)
      have "S \<le> 65536 * (Suc j + k)"
        using Suc.prems(4) by simp
      from Suc.IH [OF p1 _ j this, of "p\<lparr>the_target := Some t1\<rparr>"] obtain t2 where
        t2: "clean_loop (Suc k) (of_nat a) (of_nat (a + S)) (of_nat (65536 * Suc j)) (p\<lparr>the_target := Some t1\<rparr>) =
        (Inr (\<forall>q \<in> {phys_nat a + 65536 * Suc j..<phys_nat a + S}. mbyte (mem_now m view t) q = 0xff),
         p\<lparr>the_target := Some t2\<rparr>)" "kept m view t1 t2"
        unfolding now by auto
      have "(\<forall>q \<in> {phys_nat a + 65536 * j..<phys_nat a + S}. mbyte (mem_now m view t) q = 0xff) \<longleftrightarrow>
          (\<forall>q \<in> {phys_nat a + 65536 * Suc j..<phys_nat a + S}. mbyte (mem_now m view t) q = 0xff)"
        using True j unfolding ff by (intro ball_from) auto
      then show ?thesis
        using step True t2 kept_trans [OF t1(2) t2(2)] by auto
    next
      case False
      then have "\<not> (\<forall>q \<in> {phys_nat a + 65536 * j..<phys_nat a + S}. mbyte (mem_now m view t) q = 0xff)"
        using j unfolding ff by fastforce
      then show ?thesis
        using step False t1(2) by auto
    qed
  qed
qed

text \<open>
  C25: for a chip of a whole number of 64-Kbyte pieces the check finds it erased
  exactly if every byte of it is all ones, wherever in the chip the address lies; it reads the
  memory only.
\<close>

theorem check_clean_exact:
  assumes "plain m view t" and "the_target p = Some t" and "flash_bytes t = of_nat S"
    and "addr AND NOT (of_nat S - 1) = of_nat a" and "in_segment a S" and "65536 dvd S" and "a + S < 0x100000000"
    and "a mod 4 = 0"
  shows "\<exists>t'. check_clean addr p =
      (Inr (\<forall>q \<in> {phys_nat a..<phys_nat a + S}. mbyte (mem_now m view t) q = 0xff),
       p\<lparr>the_target := Some t'\<rparr>) \<and> kept m view t t'"
proof -
  have u: "unat (of_nat S :: u32) = S"
    using assms(7) by (intro unat_nat32) simp
  obtain r where r: "S = 65536 * r"
    using assms(6) by blast
  have "S \<le> 65536 * (0 + Suc r)"
    by (simp add: r)
  moreover have "S div 65536 + 2 = Suc (Suc r)"
    by (simp add: r)
  moreover have "p\<lparr>the_target := Some t\<rparr> = p"
    using assms(2) by (cases p) simp
  ultimately show ?thesis
    using clean_loop_run [OF assms(5,6,7,8,1,2), of 0 "Suc r"] assms(3,4)
    by (simp add: check_clean_def bindM_apply on_target_eq [OF assms(2)] u Let_def del: clean_loop.simps)
qed

section \<open>The software information\<close>

text \<open>
  Also: the search finds the label exactly where it stands with its NUL, beginning
  inside the area, and of several it finds the first.
\<close>

theorem find_info_first:
  "find_info area n = Some i \<longleftrightarrow> i < n \<and> is_label (drop i area) \<and> (\<forall>j < i. \<not> is_label (drop j area))"
proof -
  have lab: "is_label p \<Longrightarrow> take 1 p = take 1 INFO_LABEL" for p
    by (cases p) (auto simp: is_label_def INFO_LABEL_def)
  have gen: "find_info_from n p b = Some i \<longleftrightarrow>
      (\<exists>k < n. i = b + k \<and> is_label (drop k p) \<and> (\<forall>j < k. \<not> is_label (drop j p)))" for p b
  proof (induction n arbitrary: p b)
    case (Suc n)
    show ?case
    proof (cases "is_label p")
      case True
      then show ?thesis
        using lab [OF True] by (auto simp: less_Suc_eq_0_disj)
    next
      case False
      have "(\<exists>k < Suc n. i = b + k \<and> is_label (drop k p) \<and> (\<forall>j < k. \<not> is_label (drop j p))) \<longleftrightarrow>
          (\<exists>k < n. i = b + 1 + k \<and> is_label (drop k (tl p)) \<and> (\<forall>j < k. \<not> is_label (drop j (tl p))))"
        using False by (auto simp: less_Suc_eq_0_disj drop_Suc) (metis Suc_less_eq drop_Suc)+
      then show ?thesis
        using False Suc by simp
    qed
  qed simp
  show ?thesis
    unfolding find_info_def gen by auto
qed

lemma compute_checksum_append: "compute_checksum c (xs @ ys) = compute_checksum (compute_checksum c xs) ys"
  by (induction xs arbitrary: c) (simp_all add: Let_def)

lemma poke_nth:
  assumes "poke i bs m = Inr m'"
  shows "length m' = length m" and "j < length m \<Longrightarrow> m' ! j = (if i \<le> j \<and> j < i + length bs then bs ! (j - i) else m ! j)"
  using assms by (auto simp: poke_def nth_append split: if_splits)

text \<open>
  Also: the checksum that is put into the software information is that of the
  whole image with zeroes in the place of the information.
\<close>

theorem info_crc_of_image:
  assumes "store_info_at off (int n) serial name time m = Inr m'" and "off + SW_INFO_SIZE \<le> n" and "n < 2 ^ 31"
  shows "take 4 (drop (off + 28) m') =
    le_bytes (compute_checksum 0 (take off m' @ replicate SW_INFO_SIZE 0 @ take (n - (off + SW_INFO_SIZE)) (drop (off + SW_INFO_SIZE) m')))"
proof -
  obtain m1 c where m1: "fill_info off (int n) serial name time m = Inr m1"
    and c: "info_crc off (int n) m1 = Inr c" and m': "poke (off + 28) (le_bytes c) m1 = Inr m'"
    using assms(1) by (auto simp: store_info_at_def split: sum.splits)
  have u: "unat (of_int (int n - int (off + SW_INFO_SIZE)) :: u32) = n - (off + SW_INFO_SIZE)"
    using assms(2,3) unat_nat32 [of "n - (off + SW_INFO_SIZE)"] by (simp add: of_nat_diff)
  have cc: "c = compute_checksum 0 (take off m1 @ replicate SW_INFO_SIZE 0 @ take (n - (off + SW_INFO_SIZE)) (drop (off + SW_INFO_SIZE) m1))"
    using c unfolding info_crc_def Let_def u by (simp add: compute_checksum_append split: if_splits)
  note p = poke_nth [OF m']
  have len: "off + 32 \<le> length m1"
    using m' by (auto simp: poke_def split: if_splits)
  have "take off m' = take off m1"
    using p len by (intro nth_equalityI) simp_all
  moreover have "drop (off + SW_INFO_SIZE) m' = drop (off + SW_INFO_SIZE) m1"
    using p len by (intro nth_equalityI) (simp_all add: SW_INFO_SIZE_def)
  moreover have "take 4 (drop (off + 28) m') = le_bytes c"
    using p len by (intro nth_equalityI) simp_all
  ultimately show ?thesis
    using cc by simp
qed

text \<open>
  Also: filling in the software information destroys the 16 bytes of the
  program behind it: the fields from \<open>len\<close> on are cleared with the length of the structure
  without its label, though \<open>sw_version\<close> is in front of them too.
\<close>

theorem store_info_clears_code:
  assumes "store_info_at off len serial name time m = Inr m'" and "i < 16"
    and "\<And>s. serial = Some s \<Longrightarrow> length s < 128" and "length (basename name) < 128"
  shows "m' ! (off + SW_INFO_SIZE + i) = 0"
proof -
  obtain m1 m2 m3 m4 m5 c where p1: "poke (off + 24) (replicate (SW_INFO_SIZE - 8) 0) m = Inr m1"
    and p2: "poke (off + 24) (le_bytes (of_int len)) m1 = Inr m2"
    and p3: "(case serial of None \<Rightarrow> Inr m2 | Some s \<Rightarrow> poke (off + 32) (c_string s) m2) = Inr m3"
    and p4: "poke (off + 160) (c_string (basename name)) m3 = Inr m4"
    and p5: "poke (off + 288) (le_bytes64 time) m4 = Inr m5"
    and p6: "poke (off + 28) (le_bytes c) m5 = Inr m'"
    using assms(1) by (auto simp: store_info_at_def fill_info_def split: sum.splits)
  let ?j = "off + SW_INFO_SIZE + i"
  have l: "?j < length m"
    using p1 assms(2) by (auto simp: poke_def SW_INFO_SIZE_def split: if_splits)
  have cs: "length (c_string s) = length s + 1" for s
    by (simp add: c_string_def)
  have "m1 ! ?j = 0"
    using poke_nth(2) [OF p1 l] assms(2) by (simp add: SW_INFO_SIZE_def)
  moreover have "m2 ! ?j = m1 ! ?j" "length m2 = length m"
    using poke_nth(1) [OF p1] poke_nth(1) [OF p2] poke_nth(2) [OF p2, of ?j] l by (simp_all add: SW_INFO_SIZE_def)
  moreover have "m3 ! ?j = m2 ! ?j \<and> length m3 = length m"
  proof (cases serial)
    case (Some s)
    then show ?thesis
      using poke_nth(1) [of "off + 32" "c_string s" m2 m3] poke_nth(2) [of "off + 32" "c_string s" m2 m3 ?j] p3 assms(3) [OF Some] l calculation(3)
      by (simp add: SW_INFO_SIZE_def cs)
  qed (use p3 calculation in simp)
  moreover have "m4 ! ?j = m3 ! ?j" "length m4 = length m"
    using poke_nth(1) [OF p4] poke_nth(2) [OF p4, of ?j] assms(4) l calculation by (simp_all add: SW_INFO_SIZE_def cs)
  moreover have "m5 ! ?j = m4 ! ?j" "length m5 = length m"
    using poke_nth(1) [OF p5] poke_nth(2) [OF p5, of ?j] l calculation by (simp_all add: SW_INFO_SIZE_def le_bytes64_def)
  moreover have "m' ! ?j = m5 ! ?j"
    using poke_nth(1) [OF p6] poke_nth(2) [OF p6, of ?j] l calculation by (simp add: SW_INFO_SIZE_def)
  ultimately show ?thesis
    by simp
qed

section \<open>The end of a run\<close>



section \<open>Concrete runs\<close>

text \<open>A run on the simulated device, on plain memory of zeroes, with three bytes loaded.\<close>

definition sim_run :: "chip mcprog" where
  "sim_run = \<lparr>hw = sim_world, the_target = Some (sim_target (ram (\<lambda>_. 0))),
     img = \<lparr>memory_data = [7, 8, 9] @ replicate (MEMORY_SIZE - 3) 0, memory_base = 0x1000, output_len = 3\<rparr>,
     memory_len = 3, start_addr = DEFAULT_ADDR, erase_mode = 0, check_erase = False, verify_only = True,
     disable_block = False, board = None, board_serial = None, at_exit = True, out_file = [], disk = 100\<rparr>"

lemma sim_run_simps [simp]:
  "the_target sim_run = Some (sim_target (ram (\<lambda>_. 0)))" "memory_len sim_run = 3" "verify_only sim_run"
  "out_file sim_run = []" "disk sim_run = 100"
  by (simp_all add: sim_run_def)

lemma sim_loaded: "loaded 0x1000 3 sim_run"
  by (simp add: loaded_def sim_run_def in_segment_def whole_def MEMORY_SIZE_def)

lemma whole_3 [simp]: "whole 3 = 4"
  by (simp add: whole_def)

lemma sim_image [simp]: "take 4 (mem sim_run) = [7, 8, 9, 0]"
  by (simp add: sim_run_def MEMORY_SIZE_def take_replicate)

lemma zero_bytes: "map (mbyte (\<lambda>_. 0)) xs = replicate (length xs) 0"
proof -
  have "mbyte (\<lambda>_. 0) q = 0" for q
  proof -
    have "le_bytes 0 = replicate 4 0"
      by code_simp
    then show ?thesis
      by (simp add: mbyte_def)
  qed
  then show ?thesis
    by (induction xs) simp_all
qed

theorem write_is_verified_witness:
  "\<exists>t'. each_block (\<lambda>addr len. seqM (write_block addr len) (verify_block addr len)) sim_run =
      (Inr (), sim_run\<lparr>the_target := Some t'\<rparr>) \<and>
    stored (\<lambda>_. 0) (\<lambda>c. c) (sim_target (ram (\<lambda>_. 0))) 0x1000 [7, 8, 9, 0] t'"
  using write_is_verified [OF sim_loaded _ _ sim_plain] by (simp add: phys_nat_def)


theorem read_file_bytes_witness:
  "\<exists>t'. each_block read_to_file sim_run = (Inr (), sim_run\<lparr>the_target := Some t', out_file := [0, 0, 0], disk := 97\<rparr>) \<and>
    kept (\<lambda>_. 0) (\<lambda>c. c) (sim_target (ram (\<lambda>_. 0))) t'"
proof -
  have len: "replicate (length [phys_nat 0x1000..<phys_nat 0x1000 + 3]) (0 :: u8) = [0, 0, 0]"
    by (simp add: phys_nat_def numeral_3_eq_3)
  show ?thesis
    using read_file_bytes [OF sim_loaded _ sim_run_simps(1) sim_plain sim_run_simps(4)]
    unfolding sim_mem_now zero_bytes len by simp
qed

text \<open>A chip of 128 Kbytes, erased or not.\<close>

definition sim_chip :: "u32 \<Rightarrow> chip mcprog" where
  "sim_chip w = sim_run\<lparr>the_target := Some ((sim_target (ram (\<lambda>_. w)))\<lparr>flash_bytes := 0x20000\<rparr>)\<rparr>"

theorem check_clean_exact_witness:
  "\<exists>t'. check_clean 0x1fc10004 (sim_chip 0xffffffff) = (Inr True, (sim_chip 0xffffffff)\<lparr>the_target := Some t'\<rparr>)"
proof -
  let ?t = "(sim_target (ram (\<lambda>_. 0xffffffff)))\<lparr>flash_bytes := 0x20000\<rparr>"
  have "plain (\<lambda>_. 0xffffffff) (\<lambda>c. c) ?t" and now: "mem_now (\<lambda>_. 0xffffffff) (\<lambda>c. c) ?t = (\<lambda>_. 0xffffffff)"
    using sim_plain [of "\<lambda>_. 0xffffffff"] sim_mem_now [of "\<lambda>_. 0xffffffff"]
    by (simp_all add: plain_def mem_now_def good_def)
  then have "\<exists>t'. check_clean 0x1fc10004 (sim_chip 0xffffffff) =
      (Inr (\<forall>q \<in> {phys_nat 0x1fc00000..<phys_nat 0x1fc00000 + 0x20000}. mbyte (\<lambda>_. 0xffffffff :: u32) q = 0xff),
       (sim_chip 0xffffffff)\<lparr>the_target := Some t'\<rparr>) \<and> kept (\<lambda>_. 0xffffffff) (\<lambda>c. c) ?t t'"
    using check_clean_exact [of "\<lambda>_. 0xffffffff" "\<lambda>c. c" ?t "sim_chip 0xffffffff" "0x20000" "0x1fc10004" "0x1fc00000"]
    by (simp add: sim_chip_def in_segment_def)
  moreover have "mbyte (\<lambda>_. 0xffffffff :: u32) q = 0xff" for q
  proof -
    have "le_bytes 0xffffffff = replicate 4 0xff"
      by (simp only: erased_word)
    then show ?thesis
      by (simp add: mbyte_def)
  qed
  ultimately show ?thesis
    by auto
qed


theorem find_info_first_witness:
  "find_info ([1, 2] @ INFO_LABEL @ [0, 5]) 3 = Some 2"
proof -
  have "\<not> is_label (drop 0 ([1, 2] @ INFO_LABEL @ [0, 5]))" "\<not> is_label (drop 1 ([1, 2] @ INFO_LABEL @ [0, 5]))"
    "is_label (drop 2 ([1, 2] @ INFO_LABEL @ [0, 5]))"
    by code_simp+
  then show ?thesis
    using find_info_first [of "[1, 2] @ INFO_LABEL @ [0, 5]" 3 2] by (simp add: numeral_2_eq_2 less_Suc_eq)
qed

lemma poke_fits: "i + length bs \<le> length m \<Longrightarrow> \<exists>m'. poke i bs m = Inr m' \<and> length m' = length m"
  by (simp add: poke_def)

lemma store_info_fits:
  assumes "off + SW_INFO_SIZE + 16 \<le> length m" and "length (basename name) < 128"
    and "off + SW_INFO_SIZE \<le> n" and "n \<le> length m" and "n < 2 ^ 31"
  shows "\<exists>m'. store_info_at off (int n) None name time m = Inr m'"
proof -
  have sz: "off + 312 \<le> length m" "length (c_string (basename name)) \<le> 128" "length (le_bytes64 time) = 8"
    using assms(1,2) by (simp_all add: SW_INFO_SIZE_def c_string_def le_bytes64_def)
  obtain m1 where m1: "poke (off + 24) (replicate (SW_INFO_SIZE - 8) 0) m = Inr m1" "length m1 = length m"
    using poke_fits [of "off + 24" "replicate (SW_INFO_SIZE - 8) 0" m] sz by (auto simp: SW_INFO_SIZE_def)
  obtain m2 where m2: "poke (off + 24) (le_bytes (of_int (int n))) m1 = Inr m2" "length m2 = length m"
    using poke_fits [of "off + 24" "le_bytes (of_int (int n))" m1] sz m1 by auto
  obtain m3 where m3: "poke (off + 160) (c_string (basename name)) m2 = Inr m3" "length m3 = length m"
    using poke_fits [of "off + 160" "c_string (basename name)" m2] sz m2 by auto
  obtain m4 where m4: "poke (off + 288) (le_bytes64 time) m3 = Inr m4" "length m4 = length m"
    using poke_fits [of "off + 288" "le_bytes64 time" m3] sz m3 by auto
  have u: "unat (of_int (int n - int (off + SW_INFO_SIZE)) :: u32) = n - (off + SW_INFO_SIZE)"
    using assms(3,5) unat_nat32 [of "n - (off + SW_INFO_SIZE)"] by (simp add: of_nat_diff)
  have f: "fill_info off (int n) None name time m = Inr m4"
    by (simp add: fill_info_def m1 m2 [simplified] m3 m4)
  obtain c where c: "info_crc off (int n) m4 = Inr c"
    using assms(3,4) m4(2) unfolding info_crc_def Let_def u by simp
  obtain m5 where "poke (off + 28) (le_bytes c) m4 = Inr m5"
    using poke_fits [of "off + 28" "le_bytes c" m4] sz m4 by auto
  then show ?thesis
    by (simp add: store_info_at_def f c)
qed

lemma sim_store: "\<exists>m'. store_info_at 0 (int 300) None ''a.bin'' 0 (replicate 400 1) = Inr m'"
proof (rule store_info_fits)
  show "length (basename ''a.bin'') < 128"
    by code_simp
qed (simp_all add: SW_INFO_SIZE_def)

theorem info_crc_of_image_witness:
  "\<exists>m'. store_info_at 0 (int 300) None ''a.bin'' 0 (replicate 400 1) = Inr m' \<and>
    take 4 (drop 28 m') = le_bytes (compute_checksum 0 (replicate SW_INFO_SIZE 0 @ take 4 (drop SW_INFO_SIZE m')))"
proof -
  obtain m' where m': "store_info_at 0 (int 300) None ''a.bin'' 0 (replicate 400 1) = Inr m'"
    using sim_store by blast
  show ?thesis
    using info_crc_of_image [OF m'] m' by (simp add: SW_INFO_SIZE_def)
qed

theorem store_info_clears_code_witness:
  "\<exists>m'. store_info_at 0 (int 300) None ''a.bin'' 0 (replicate 400 1) = Inr m' \<and> m' ! (SW_INFO_SIZE + 3) = 0 \<and>
    replicate 400 (1 :: u8) ! (SW_INFO_SIZE + 3) = 1"
proof -
  obtain m' where m': "store_info_at 0 (int 300) None ''a.bin'' 0 (replicate 400 1) = Inr m'"
    using sim_store by blast
  have "length (basename ''a.bin'') < 128"
    by code_simp
  then show ?thesis
    using store_info_clears_code [OF m', of 3] m' by (simp add: SW_INFO_SIZE_def)
qed

definition sim_env :: "chip mc_env" where
  "sim_env = \<lparr>adapters = (\<lambda>_. []), files = (\<lambda>_. None), writable = (\<lambda>_. True), mtime = (\<lambda>_. 0), local_conf = None, global_conf = None, fuel = 9\<rparr>"


end
