(* ===== verification/Mcprog_Image.thy ===== *)
theory Mcprog_Image
  imports Mcprog Bus Safety
begin

text \<open>
  The well-formedness of the loaded image: whatever file the readers accept, the array keeps its
  size and the length found stays within it, up to five bytes. This is what the commands
  that follow take for granted.
\<close>

definition image_ok :: "image \<Rightarrow> bool" where
  "image_ok im \<longleftrightarrow> length (memory_data im) = MEMORY_SIZE \<and> 0 \<le> output_len im \<and> output_len im \<le> int MEMORY_SIZE + 5"

abbreviation gives :: "('a \<Rightarrow> bool) \<Rightarrow> fault + 'a \<Rightarrow> bool" where
  "gives Q r \<equiv> returns Q (\<lambda>_. True) r"

lemmas gives_bind_any = returns_bind [OF returns_any]

section \<open>Stores\<close>

lemma next_address:
  fixes a :: u32
  assumes "unat a < n" and "n \<le> MEMORY_SIZE"
  shows "unat (a + 1) \<le> n"
proof -
  have "unat (a + 1) = unat a + 1"
    using assms by (simp add: unat_word_ariths MEMORY_SIZE_def)
  then show ?thesis
    using assms by simp
qed

lemma store_bytes_gives:
  "length m \<le> MEMORY_SIZE \<Longrightarrow>
   gives (\<lambda>(m', a'). length m' = length m \<and> (if bs = [] then a' = a else unat a' \<le> length m)) (store_bytes m a bs)"
proof (induction bs arbitrary: m a)
  case (Cons b bs)
  show ?case
  proof (cases "unat a < length m")
    case True
    have "gives (\<lambda>(m', a'). length m' = length m \<and> (if bs = [] then a' = a + 1 else unat a' \<le> length m))
        (store_bytes (m[unat a := b]) (a + 1) bs)"
      using Cons.IH [of "m[unat a := b]" "a + 1"] Cons.prems by (simp cong: if_cong split del: if_split)
    then show ?thesis
      using True next_address [OF True Cons.prems] by (cases bs) (auto elim: returns_mono)
  qed simp
qed simp

lemma srec_data_gives:
  "length m \<le> MEMORY_SIZE \<Longrightarrow>
   gives (\<lambda>(m', a'). length m' = length m \<and> (if n = 0 then a' = a else unat a' \<le> length m)) (srec_data n buf d m a)"
proof (induction n arbitrary: m d a)
  case (Suc n)
  have IH: "gives (\<lambda>(m', a'). length m' = length m \<and> unat a' \<le> length m) (srec_data n buf (d + 2) m1 a1)"
    if "length m1 = length m" "unat a1 \<le> length m" for m1 a1
    using Suc.IH [of m1 a1 "d + 2"] Suc.prems that by (auto elim: returns_mono split: if_splits)
  show ?case
    unfolding srec_data.simps
    by (rule gives_bind_any, rule returns_bind [OF store_bytes_gives [OF Suc.prems]])
      (use IH in \<open>auto split: prod.splits\<close>)
qed simp

lemma extend_ok:
  assumes "length (memory_data im) = MEMORY_SIZE" and "0 \<le> output_len im" "output_len im \<le> int MEMORY_SIZE + 5"
    and "unat a \<le> MEMORY_SIZE + 5"
  shows "image_ok (Loader.extend a im)"
proof -
  have "sint a = int (unat a)"
  proof -
    have u: "uint a = int (unat a)"
      by simp
    have "uint a < 2 ^ 31"
      unfolding u using assms(4) by (simp add: MEMORY_SIZE_def del: of_nat_unat)
    moreover have "- (2 ^ 31) \<le> uint a"
      by (rule order_trans [of _ 0]) simp_all
    ultimately show ?thesis
      by (simp add: sint_uint signed_take_bit_int_eq_self)
  qed
  then show ?thesis
    using assms by (auto simp: Loader.extend_def image_ok_def simp del: of_nat_unat)
qed

lemma record_offset_gives:
  "gives (\<lambda>q. unat (q + of_int bytes) \<le> MEMORY_SIZE) (record_offset mbase bytes address)"
  by (simp add: record_offset_def)

lemma auto_base_same [simp]:
  "memory_data (auto_base a im) = memory_data im" "output_len (auto_base a im) = output_len im"
  by (simp_all add: auto_base_def)

section \<open>S records\<close>

lemma small_offset:
  fixes q :: u32
  assumes "unat (q + of_int b) \<le> MEMORY_SIZE" and "- 5 \<le> b" and "b \<le> 0"
  shows "unat q \<le> MEMORY_SIZE + 5"
proof -
  define k where "k = nat (- b)"
  have k: "b = - int k" "k \<le> 5"
    using assms(2,3) by (simp_all add: k_def)
  have "q = (q + of_int b) + of_nat k"
    by (simp add: k(1))
  then have "unat q \<le> unat (q + of_int b) + unat (of_nat k :: u32)"
    by (metis unat_word_ariths(1) mod_less_eq_dividend)
  then show ?thesis
    using assms(1) k(2) by (simp add: unat_of_nat)
qed

lemma NIBBLE_hex: "isxdigit c \<Longrightarrow> 0 \<le> NIBBLE c"
  by (auto simp: NIBBLE_def isxdigit_def isdigit_def tolower_def)

lemma HEX_of_digits:
  assumes "xdigits 2 buf i = Inr True"
  shows "gives (\<lambda>h. 0 \<le> h) (HEX buf i)"
  using assms by (auto simp: HEX_def numeral_2_eq_2 NIBBLE_hex returns_def split: sum.splits if_splits)

lemma srec_store_gives:
  assumes "image_ok im" and "alen \<le> 4" and "- 1 \<le> bytes"
  shows "gives image_ok (srec_store alen buf bytes im)"
proof -
  have m: "length (memory_data im) \<le> MEMORY_SIZE"
    using assms(1) by (simp add: image_ok_def)
  let ?b = "bytes - int alen"
  have ok: "image_ok (Loader.extend a (auto_base address im\<lparr>memory_data := m'\<rparr>))"
    if "unat (q + of_int ?b) \<le> MEMORY_SIZE" "length m' = length (memory_data im)"
      "if nat ?b = 0 then a = q else unat a \<le> length (memory_data im)" for a q m' address
    using assms that small_offset [OF that(1)] by (intro extend_ok) (auto simp: image_ok_def split: if_splits)
  show ?thesis
    unfolding srec_store_def Let_def
    by (rule gives_bind_any, rule returns_bind [OF record_offset_gives], rule returns_bind [OF srec_data_gives])
      (use m ok in \<open>auto intro!: returns_intros split: if_splits\<close>)
qed

lemma srec_store_image:
  assumes "srec_store alen buf (bytes - 1) im = Inr im'" and "image_ok im" and "alen \<le> 4"
    and "xdigits 2 buf 2 = Inr True" and "HEX buf 2 = Inr bytes"
  shows "image_ok im'"
  using returnsD(1) [OF HEX_of_digits [OF assms(4)] assms(5)]
    returnsD(1) [OF srec_store_gives [OF assms(2,3)] assms(1)] by simp

lemma returns_bool:
  "(x \<Longrightarrow> returns Q E m) \<Longrightarrow> (\<not> x \<Longrightarrow> returns Q E n) \<Longrightarrow> returns Q E (case x of True \<Rightarrow> m | False \<Rightarrow> n)"
  by (cases x) simp_all

lemma srec_line_gives:
  assumes "image_ok im"
  shows "gives (\<lambda>(go, im'). image_ok im') (srec_line buf im)"
  unfolding srec_line_def
  by (intro returns_if gives_bind_any returns_Inr returns_Inl returns_bool)
    (use assms in \<open>auto dest: srec_store_image\<close>)

lemma srec_lines_gives: "image_ok im \<Longrightarrow> gives image_ok (srec_lines buf im cs)"
proof (induction buf im cs rule: srec_lines.induct)
  case (1 buf im cs)
  show ?case
  proof (cases "srec_line (set_line buf (fst (fgets 255 cs))) im")
    case (Inr r)
    then show ?thesis
      using 1 returnsD(1) [OF srec_line_gives [OF 1(2)] Inr]
      by (cases r) (subst srec_lines.simps, auto)
  qed (subst srec_lines.simps, use 1 in simp)
qed

section \<open>HEX files and binary files\<close>

lemma hex_store_gives:
  assumes "image_ok im"
  shows "gives image_ok (hex_store address bs im)"
proof -
  have m: "length (memory_data im) = MEMORY_SIZE"
    using assms by (simp add: image_ok_def)
  have ok: "image_ok (Loader.extend a (auto_base address im\<lparr>memory_data := m'\<rparr>))"
    if "unat (q + of_int (int (length bs))) \<le> MEMORY_SIZE" "length m' = MEMORY_SIZE"
      "if bs = [] then a = q else unat a \<le> MEMORY_SIZE" for a q m'
    using assms that by (intro extend_ok) (cases bs; auto simp: image_ok_def)+
  show ?thesis
    unfolding hex_store_def Let_def
    by (rule returns_bind [OF record_offset_gives], rule returns_bind [OF store_bytes_gives])
      (use m ok in \<open>auto intro!: returns_intros split: if_splits\<close>)
qed

lemma hex_record_gives:
  "image_ok im \<Longrightarrow> gives (\<lambda>(high', im'). image_ok im') (hex_record buf t bytes address high im)"
  unfolding hex_record_def
  by (intro returns_if gives_bind_any returns_Inr returns_Inl) (auto dest: returnsD(1) [OF hex_store_gives])

lemma hex_line_gives: "image_ok im \<Longrightarrow> gives (\<lambda>(go, high', im'). image_ok im') (hex_line buf high im)"
  unfolding hex_line_def
  by (intro returns_if gives_bind_any returns_Inr returns_Inl returns_bool returns_prod)
    (auto dest: returnsD(1) [OF hex_record_gives])

lemma hex_lines_gives: "image_ok im \<Longrightarrow> gives image_ok (hex_lines buf high im cs)"
proof (induction buf high im cs rule: hex_lines.induct)
  case (1 buf high im cs)
  show ?case
  proof (cases "hex_line (set_line buf (fst (fgets 255 cs))) high im")
    case (Inr r)
    then show ?thesis
      using 1 returnsD(1) [OF hex_line_gives [OF 1(2)] Inr]
      by (cases r) (subst hex_lines.simps, auto)
  qed (subst hex_lines.simps, use 1 in simp)
qed

lemma readers_give:
  assumes "length (memory_data im) = MEMORY_SIZE"
  shows "gives image_ok (read_srec file im)" and "gives image_ok (read_hex file im)" and "gives image_ok (read_bin file im)"
proof -
  have ok: "image_ok (im\<lparr>output_len := 0\<rparr>)"
    using assms by (simp add: image_ok_def)
  show "gives image_ok (read_srec file im)" "gives image_ok (read_hex file im)"
    using srec_lines_gives [OF ok] hex_lines_gives [OF ok] by (auto simp: read_srec_def read_hex_def split: option.splits)
  show "gives image_ok (read_bin file im)"
    using assms by (auto simp: read_bin_def image_ok_def Let_def split: option.splits)
qed

section \<open>Loading\<close>

lemma load_gives:
  assumes "\<And>im. length (memory_data im) = MEMORY_SIZE \<Longrightarrow> gives image_ok (reader im)"
    and "length (mem p) = MEMORY_SIZE" and "load reader p = (Inr n, p')"
  shows "image_ok (img p') \<and> memory_len p' = output_len (img p') \<and> n = memory_len p'"
  using assms(3) returnsD(1) [OF assms(1) [OF assms(2)]]
  by (auto simp: load_def act_simps liftM_def split: sum.splits)




end
