(* ===== verification/Simulation.thy ===== *)
theory Simulation
  imports Prelude
begin

text \<open>
  Simulation of state-passing code by code over a more abstract state: related states give the
  same result and related states. The rules follow the combinators, so that operations of a
  driver are related to those of the device it drives step by step.
\<close>

definition sim :: "('s \<Rightarrow> 't \<Rightarrow> bool) \<Rightarrow> ('s, 'a) act \<Rightarrow> ('t, 'a) act \<Rightarrow> bool" where
  "sim R m M \<longleftrightarrow> (\<forall>s t. R s t \<longrightarrow> (\<exists>s'. m s = (fst (M t), s') \<and> R s' (snd (M t))))"

named_theorems sim_intros "rules that relate an operation to its abstraction"

lemma simI: "(\<And>s t. R s t \<Longrightarrow> \<exists>s'. m s = (fst (M t), s') \<and> R s' (snd (M t))) \<Longrightarrow> sim R m M"
  by (simp add: sim_def)

lemma simE:
  assumes "sim R m M" and "R s t"
  obtains s' where "m s = (fst (M t), s')" and "R s' (snd (M t))"
  using assms unfolding sim_def by blast

lemma sim_retM [sim_intros]: "sim R (retM x) (retM x)"
  by (simp add: sim_def retM_apply)

lemma sim_failM [sim_intros]: "sim R (failM e) (failM e)"
  by (simp add: sim_def failM_apply)

lemma sim_bindM [sim_intros]:
  assumes m: "sim R m M" and k: "\<And>x. sim R (k x) (K x)"
  shows "sim R (bindM m k) (bindM M K)"
proof (rule simI)
  fix s t
  assume st: "R s t"
  obtain s1 where s1: "m s = (fst (M t), s1)" "R s1 (snd (M t))"
    by (rule simE [OF m st])
  show "\<exists>s'. bindM m k s = (fst (bindM M K t), s') \<and> R s' (snd (bindM M K t))"
  proof (cases "fst (M t)")
    case (Inl e)
    then show ?thesis
      using s1 by (cases "M t") (simp add: bindM_apply)
  next
    case (Inr x)
    obtain s2 where "k x s1 = (fst (K x (snd (M t))), s2)" "R s2 (snd (K x (snd (M t))))"
      by (rule simE [OF k s1(2)])
    then show ?thesis
      using s1 Inr by (cases "M t") (simp add: bindM_apply)
  qed
qed

lemma sim_seqM [sim_intros]: "sim R m M \<Longrightarrow> sim R n N \<Longrightarrow> sim R (seqM m n) (seqM M N)"
  unfolding seqM_def by (rule sim_bindM)

lemma sim_whenM [sim_intros]: "sim R m M \<Longrightarrow> sim R (whenM b m) (whenM b M)"
  by (simp add: whenM_def sim_retM)

lemma sim_if [sim_intros]: "sim R m M \<Longrightarrow> sim R n N \<Longrightarrow> sim R (if b then m else n) (if b then M else N)"
  by simp

lemma sim_getM: "(\<And>s t. R s t \<Longrightarrow> f s = g t) \<Longrightarrow> sim R (getM f) (getM g)"
  by (simp add: sim_def)

lemma sim_modM: "(\<And>s t. R s t \<Longrightarrow> R (f s) (g t)) \<Longrightarrow> sim R (modM f) (modM g)"
  by (simp add: sim_def)

lemma sim_seqs_map:
  assumes "\<And>x. x \<in> set xs \<Longrightarrow> sim R (f x) (g x)"
  shows "sim R (seqsM (map f xs)) (seqsM (map g xs))"
  using assms by (induction xs) (simp_all add: sim_retM sim_seqM)

lemma sim_seqs_Nil [sim_intros]: "sim R (seqsM []) (seqsM [])"
  by (simp add: sim_retM)

lemma sim_seqs_Cons [sim_intros]: "sim R m M \<Longrightarrow> sim R (seqsM ms) (seqsM Ms) \<Longrightarrow> sim R (seqsM (m # ms)) (seqsM (M # Ms))"
  by (simp add: sim_seqM)

text \<open>Reading words at successive addresses, and writing them.\<close>

primrec read_each :: "(u32 \<Rightarrow> ('s, u32) act) \<Rightarrow> nat \<Rightarrow> u32 \<Rightarrow> ('s, u32 list) act" where
  "read_each f 0 a = retM []"
| "read_each f (Suc n) a = bindM (f a) (\<lambda>d. bindM (read_each f n (a + 4)) (\<lambda>ds. retM (d # ds)))"

primrec write_each :: "(u32 \<times> u32 \<Rightarrow> ('s, unit) act) \<Rightarrow> u32 \<Rightarrow> u32 list \<Rightarrow> ('s, unit) act" where
  "write_each f a [] = retM ()"
| "write_each f a (d # ds) = seqM (f (a, d)) (write_each f (a + 4) ds)"

lemma read_each_add:
  "read_each f (m + n) a =
     bindM (read_each f m a) (\<lambda>ds. bindM (read_each f n (a + of_nat m * 4)) (\<lambda>es. retM (ds @ es)))"
proof (induction m arbitrary: a)
  case (Suc m)
  show ?case
    using Suc [of "a + 4"] by (simp add: bindM_assoc algebra_simps)
qed simp

lemma sim_read_each: "(\<And>a. sim R (f a) (g a)) \<Longrightarrow> sim R (read_each f n a) (read_each g n a)"
  by (induction n arbitrary: a) (auto intro!: sim_intros)

lemma sim_write_each: "(\<And>x. sim R (f x) (g x)) \<Longrightarrow> sim R (write_each f a ds) (write_each g a ds)"
  by (induction ds arbitrary: a) (auto intro!: sim_intros)

end
