(* ===== verification/Tap.thy ===== *)
theory Tap
  imports Prelude
begin

text \<open>
  The specification that the JTAG drivers are measured by: the test access port of IEEE 1149.1,
  a machine of sixteen states that is driven by one value of TMS for each clock, in front of
  the chip's instruction register and data registers.

  A chip is given by what it does when a register is captured, shifted by one bit and updated.
  A shift takes the bit on TDI and gives the one on TDO; what it gives may depend on the bits
  before, as in a debug unit whose command comes in front of the data.
\<close>

section \<open>The controller\<close>

datatype tap =
    Test_Reset | Run_Idle
  | Select_DR | Capture_DR | Shift_DR | Exit1_DR | Pause_DR | Exit2_DR | Update_DR
  | Select_IR | Capture_IR | Shift_IR | Exit1_IR | Pause_IR | Exit2_IR | Update_IR

primrec tap_next :: "tap \<Rightarrow> bool \<Rightarrow> tap" where
  "tap_next Test_Reset tms = (if tms then Test_Reset else Run_Idle)"
| "tap_next Run_Idle tms = (if tms then Select_DR else Run_Idle)"
| "tap_next Select_DR tms = (if tms then Select_IR else Capture_DR)"
| "tap_next Capture_DR tms = (if tms then Exit1_DR else Shift_DR)"
| "tap_next Shift_DR tms = (if tms then Exit1_DR else Shift_DR)"
| "tap_next Exit1_DR tms = (if tms then Update_DR else Pause_DR)"
| "tap_next Pause_DR tms = (if tms then Exit2_DR else Pause_DR)"
| "tap_next Exit2_DR tms = (if tms then Update_DR else Shift_DR)"
| "tap_next Update_DR tms = (if tms then Select_DR else Run_Idle)"
| "tap_next Select_IR tms = (if tms then Test_Reset else Capture_IR)"
| "tap_next Capture_IR tms = (if tms then Exit1_IR else Shift_IR)"
| "tap_next Shift_IR tms = (if tms then Exit1_IR else Shift_IR)"
| "tap_next Exit1_IR tms = (if tms then Update_IR else Pause_IR)"
| "tap_next Pause_IR tms = (if tms then Exit2_IR else Pause_IR)"
| "tap_next Exit2_IR tms = (if tms then Update_IR else Shift_IR)"
| "tap_next Update_IR tms = (if tms then Select_DR else Run_Idle)"

section \<open>The port\<close>

record 'c scan_chip =
  capture_dr :: "'c \<Rightarrow> 'c"
  shift_dr :: "bool \<Rightarrow> 'c \<Rightarrow> bool \<times> 'c"
  update_dr :: "'c \<Rightarrow> 'c"
  capture_ir :: "'c \<Rightarrow> 'c"
  shift_ir :: "bool \<Rightarrow> 'c \<Rightarrow> bool \<times> 'c"
  update_ir :: "'c \<Rightarrow> 'c"
  port_reset :: "'c \<Rightarrow> 'c"

record 'c port =
  tap_state :: tap
  the_chip :: 'c

text \<open>
  The action of a clock in a state, and that of the state it leads to. TDO is driven only
  while shifting; outside of it the value is not used.
\<close>

definition clock_action :: "'c scan_chip \<Rightarrow> tap \<Rightarrow> bool \<Rightarrow> 'c \<Rightarrow> bool \<times> 'c" where
  "clock_action C st tdi c = (case st of
     Capture_DR \<Rightarrow> (False, capture_dr C c)
   | Capture_IR \<Rightarrow> (False, capture_ir C c)
   | Shift_DR \<Rightarrow> shift_dr C tdi c
   | Shift_IR \<Rightarrow> shift_ir C tdi c
   | _ \<Rightarrow> (False, c))"

definition enter :: "'c scan_chip \<Rightarrow> tap \<Rightarrow> 'c \<Rightarrow> 'c" where
  "enter C st c = (case st of
     Update_DR \<Rightarrow> update_dr C c
   | Update_IR \<Rightarrow> update_ir C c
   | Test_Reset \<Rightarrow> port_reset C c
   | _ \<Rightarrow> c)"

definition clock :: "'c scan_chip \<Rightarrow> bool \<times> bool \<Rightarrow> 'c port \<Rightarrow> bool \<times> 'c port" where
  "clock C x p = (case x of (tms, tdi) \<Rightarrow> case clock_action C (tap_state p) tdi (the_chip p) of (tdo, c) \<Rightarrow>
     (tdo, \<lparr>tap_state = tap_next (tap_state p) tms, the_chip = enter C (tap_next (tap_state p) tms) c\<rparr>))"

fun clocks :: "'c scan_chip \<Rightarrow> (bool \<times> bool) list \<Rightarrow> 'c port \<Rightarrow> bool list \<times> 'c port" where
  "clocks C [] p = ([], p)"
| "clocks C (x # xs) p = (case clock C x p of (b, p1) \<Rightarrow> case clocks C xs p1 of (os, p') \<Rightarrow> (b # os, p'))"

lemma clocks_append:
  "clocks C (xs @ ys) p = (fst (clocks C xs p) @ fst (clocks C ys (snd (clocks C xs p))),
     snd (clocks C ys (snd (clocks C xs p))))"
  by (induction xs arbitrary: p) (simp_all add: case_prod_beta)

lemma length_clocks [simp]: "length (fst (clocks C xs p)) = length xs"
  by (induction xs arbitrary: p) (simp_all add: case_prod_beta)

section \<open>Scans\<close>

text \<open>The clocks of a scan: the bits on TDI while shifting, the last one with TMS.\<close>

definition shift_clocks :: "bool list \<Rightarrow> (bool \<times> bool) list" where
  "shift_clocks bs = map (\<lambda>b. (False, b)) (butlast bs) @ [(True, last bs)]"

fun shifts :: "(bool \<Rightarrow> 'c \<Rightarrow> bool \<times> 'c) \<Rightarrow> bool list \<Rightarrow> 'c \<Rightarrow> bool list \<times> 'c" where
  "shifts f [] c = ([], c)"
| "shifts f (b # bs) c = (case f b c of (x, c1) \<Rightarrow> case shifts f bs c1 of (os, c') \<Rightarrow> (x # os, c'))"

lemma shifts_append:
  "shifts f (xs @ ys) c = (fst (shifts f xs c) @ fst (shifts f ys (snd (shifts f xs c))),
     snd (shifts f ys (snd (shifts f xs c))))"
  by (induction xs arbitrary: c) (simp_all add: case_prod_beta)

lemma length_shifts [simp]: "length (fst (shifts f bs c)) = length bs"
  by (induction bs arbitrary: c) (simp_all add: case_prod_beta)

text \<open>The bits of a word, the lowest first.\<close>

definition low_bits :: "nat \<Rightarrow> u64 \<Rightarrow> bool list" where
  "low_bits n w = map (bit w) [0..<n]"

lemma length_low_bits [simp]: "length (low_bits n w) = n"
  by (simp add: low_bits_def)

definition scan_dr :: "'c scan_chip \<Rightarrow> bool list \<Rightarrow> 'c \<Rightarrow> bool list \<times> 'c" where
  "scan_dr C bs c = (case shifts (shift_dr C) bs (capture_dr C c) of (os, c') \<Rightarrow> (os, update_dr C c'))"

definition scan_ir :: "'c scan_chip \<Rightarrow> bool list \<Rightarrow> 'c \<Rightarrow> bool list \<times> 'c" where
  "scan_ir C bs c = (case shifts (shift_ir C) bs (capture_ir C c) of (os, c') \<Rightarrow> (os, update_ir C c'))"

lemma length_scan [simp]: "length (fst (scan_dr C bs c)) = length bs" "length (fst (scan_ir C bs c)) = length bs"
  by (simp_all add: scan_dr_def scan_ir_def case_prod_beta)

text \<open>The states between two scans.\<close>

definition parked :: "tap \<Rightarrow> bool" where
  "parked st \<longleftrightarrow> st = Run_Idle \<or> st = Update_DR \<or> st = Update_IR"

lemmas clock_defs = clock_def clock_action_def enter_def

lemma dr_shift_run:
  assumes "tap_state p = Shift_DR"
  shows "clocks C (map (\<lambda>b. (False, b)) bs) p =
    (fst (shifts (shift_dr C) bs (the_chip p)), p\<lparr>the_chip := snd (shifts (shift_dr C) bs (the_chip p))\<rparr>)"
  using assms by (induction bs arbitrary: p) (simp_all add: clock_defs case_prod_beta)

lemma ir_shift_run:
  assumes "tap_state p = Shift_IR"
  shows "clocks C (map (\<lambda>b. (False, b)) bs) p =
    (fst (shifts (shift_ir C) bs (the_chip p)), p\<lparr>the_chip := snd (shifts (shift_ir C) bs (the_chip p))\<rparr>)"
  using assms by (induction bs arbitrary: p) (simp_all add: clock_defs case_prod_beta)

lemma shifts_last:
  assumes "bs \<noteq> []"
  shows "shifts f bs c = (let c1 = snd (shifts f (butlast bs) c) in
    (fst (shifts f (butlast bs) c) @ [fst (f (last bs) c1)], snd (f (last bs) c1)))"
  using shifts_append [of f "butlast bs" "[last bs]" c] assms by (simp add: case_prod_beta Let_def)

text \<open>
  From a parked port: TMS 1-0-0, the bits and a last TMS 1 make a scan of the data register; with
  one more TMS 1 in front it is one of the instruction register. The values on TDI outside of the
  shift state do not matter.
\<close>

lemma dr_scan_run:
  assumes "parked (tap_state p)" and "bs \<noteq> []"
  shows "clocks C ([(True, x1), (False, x2), (False, x3)] @ shift_clocks bs @ [(True, x4)]) p =
    ([False, False, False] @ fst (scan_dr C bs (the_chip p)) @ [False],
     \<lparr>tap_state = Update_DR, the_chip = snd (scan_dr C bs (the_chip p))\<rparr>)"
proof -
  define q where "q = \<lparr>tap_state = Shift_DR, the_chip = capture_dr C (the_chip p)\<rparr>"
  have q: "clocks C [(True, x1), (False, x2), (False, x3)] p = ([False, False, False], q)"
    using assms(1) unfolding parked_def by (elim disjE; simp add: q_def clock_defs)
  have st: "tap_state q = Shift_DR"
    by (simp add: q_def)
  show ?thesis
    unfolding shift_clocks_def append_assoc clocks_append q snd_conv fst_conv dr_shift_run [OF st]
    by (simp add: scan_dr_def case_prod_beta shifts_last [OF assms(2)] Let_def clock_defs q_def)
qed

lemma ir_scan_run:
  assumes "parked (tap_state p)" and "bs \<noteq> []"
  shows "clocks C ([(True, x0), (True, x1), (False, x2), (False, x3)] @ shift_clocks bs @ [(True, x4)]) p =
    ([False, False, False, False] @ fst (scan_ir C bs (the_chip p)) @ [False],
     \<lparr>tap_state = Update_IR, the_chip = snd (scan_ir C bs (the_chip p))\<rparr>)"
proof -
  define q where "q = \<lparr>tap_state = Shift_IR, the_chip = capture_ir C (the_chip p)\<rparr>"
  have q: "clocks C [(True, x0), (True, x1), (False, x2), (False, x3)] p = ([False, False, False, False], q)"
    using assms(1) unfolding parked_def by (elim disjE; simp add: q_def clock_defs)
  have st: "tap_state q = Shift_IR"
    by (simp add: q_def)
  show ?thesis
    unfolding shift_clocks_def append_assoc clocks_append q snd_conv fst_conv ir_shift_run [OF st]
    by (simp add: scan_ir_def case_prod_beta shifts_last [OF assms(2)] Let_def clock_defs q_def)
qed

text \<open>Five clocks with TMS 1 reset the port from every state; one more with TMS 0 parks it.\<close>

lemma reset_run:
  "\<exists>os c0. clocks C (replicate 5 (True, x) @ [(False, y)]) p = (os, \<lparr>tap_state = Run_Idle, the_chip = port_reset C c0\<rparr>)"
  by (cases "tap_state p") (auto simp: numeral_eq_Suc clock_defs split: prod.splits)

end
