(* ===== verification/Scan_Unit.thy ===== *)
theory Scan_Unit
  imports Tap Bus
begin

text \<open>
  The debug unit at the end of a scan chain: what a serial adapter must make of a read or a write of
  one of its registers (\<open>chip_read\<close>, \<open>chip_write\<close>), the documented behaviour of a unit at this level
  (\<open>serial_unit\<close>), and a unit that has it. The drivers of the serial adapters are measured by these.
\<close>

section \<open>Operations as scans\<close>

text \<open>
  The abstract operations of a debug unit at the end of a scan chain: the register number and
  the flags in nine bits, then the register. A read gives the bits that come out after the nine.
\<close>

definition bits_word :: "bool list \<Rightarrow> u32" where
  "bits_word os = horner_sum of_bool 2 os"

definition chip_write :: "'c scan_chip \<Rightarrow> u32 \<Rightarrow> u32 \<Rightarrow> nat \<Rightarrow> ('c, unit) act" where
  "chip_write C v rn len c = (Inr (), snd (scan_dr C
     (low_bits (9 + len) (if len > 0 then ucast rn OR push_bit 9 (ucast v) else ucast rn)) c))"

definition chip_read :: "'c scan_chip \<Rightarrow> u32 \<Rightarrow> nat \<Rightarrow> ('c, u32) act" where
  "chip_read C rn len c = (case scan_dr C (low_bits (9 + len) (ucast (rn OR IRd_READ))) c of (os, c') \<Rightarrow>
     (Inr (bits_word (drop 9 os)), c'))"

section \<open>A debug unit behind the scan chain\<close>

text \<open>
  The documented behaviour of the unit at the level of scans: a register number, the flags and
  the data shifted through the data register act on the registers of \<open>chip\<close> as in \<open>oncd_unit\<close>.
\<close>

definition serial_writes :: "'c scan_chip \<Rightarrow> ('c \<Rightarrow> chip) \<Rightarrow> u32 \<Rightarrow> nat \<Rightarrow> (u32 \<Rightarrow> chip \<Rightarrow> chip) \<Rightarrow> bool" where
  "serial_writes C cv r n f \<longleftrightarrow> (\<forall>v c. cv (snd (chip_write C v r n c)) = f v (cv c))"

definition serial_reads :: "'c scan_chip \<Rightarrow> ('c \<Rightarrow> chip) \<Rightarrow> u32 \<Rightarrow> nat \<Rightarrow> (u32 \<Rightarrow> chip \<Rightarrow> bool) \<Rightarrow> bool" where
  "serial_reads C cv r n P \<longleftrightarrow>
     (\<forall>c. \<exists>x c'. chip_read C r n c = (Inr x, c') \<and> cv c' = cv c \<and> P x (cv c))"

definition serial_unit :: "'c scan_chip \<Rightarrow> (bus_op list \<Rightarrow> u32 \<Rightarrow> u32) \<Rightarrow> ('c \<Rightarrow> chip) \<Rightarrow> bool" where
  "serial_unit C rd cv \<longleftrightarrow>
     serial_writes C cv OnCD_OMAR 32 (\<lambda>v c. c\<lparr>omar := v\<rparr>) \<and>
     serial_writes C cv OnCD_OMDR 32 (\<lambda>v c. c\<lparr>omdr := v\<rparr>) \<and>
     serial_writes C cv OnCD_OSCR 32 (\<lambda>v c. c\<lparr>c_oscr := v\<rparr>) \<and>
     serial_writes C cv OnCD_MEM 0 (\<lambda>v. mem_access rd) \<and>
     serial_reads C cv OnCD_OMDR 32 (\<lambda>x c. x = omdr c) \<and>
     serial_reads C cv OnCD_OSCR 32 (\<lambda>x c. x AND 0x23 = (c_oscr c AND 3) OR OSCR_RDYm)"

section \<open>Serial adapters\<close>

text \<open>
  What a driver promises whose adapter is wired to a scan chain: from a state of the device that is
  related to a chip, reading and writing a register is one scan of the chip, and the states stay
  related. What follows are the laws that the target layer relies on.
\<close>

locale serial_adapter =
  fixes ad :: "'w adapter" and C :: "'c scan_chip" and rel :: "'w \<Rightarrow> 'c \<Rightarrow> bool" and chip_of :: "'w \<Rightarrow> 'c"
  assumes write_scan: "rel (dev w) c \<Longrightarrow> n \<le> 32 \<Longrightarrow>
      \<exists>d. a_oncd_write ad v r n w = (Inr (), w\<lparr>dev := d\<rparr>) \<and> rel d (snd (chip_write C v r n c))"
    and read_scan: "rel (dev w) c \<Longrightarrow>
      \<exists>d. a_oncd_read ad r 32 w = (fst (chip_read C r 32 c), w\<lparr>dev := d\<rparr>) \<and> rel d (snd (chip_read C r 32 c))"
    and one_chip: "rel d c \<Longrightarrow> chip_of d = c"
begin

lemma writes:
  assumes "serial_writes C cv r n f" and "n \<le> 32"
  shows "oncd_writes (\<lambda>d. \<exists>c. rel d c) ad (\<lambda>d. cv (chip_of d)) r n f"
  unfolding oncd_writes_def
proof (intro allI impI)
  fix v and w :: "'w aworld"
  assume "\<exists>c. rel (dev w) c"
  then obtain c where c: "rel (dev w) c" ..
  obtain d where d: "a_oncd_write ad v r n w = (Inr (), w\<lparr>dev := d\<rparr>)" "rel d (snd (chip_write C v r n c))"
    using write_scan [OF c assms(2)] by blast
  then show "\<exists>d. a_oncd_write ad v r n w = (Inr (), w\<lparr>dev := d\<rparr>) \<and> (\<exists>c. rel d c) \<and>
      cv (chip_of d) = f v (cv (chip_of (dev w)))"
    using assms(1) one_chip [OF c] one_chip [OF d(2)] by (auto simp: serial_writes_def)
qed

lemma reads:
  assumes "serial_reads C cv r 32 P"
  shows "oncd_reads (\<lambda>d. \<exists>c. rel d c) ad (\<lambda>d. cv (chip_of d)) r 32 P"
  unfolding oncd_reads_def
proof (intro allI impI)
  fix w :: "'w aworld"
  assume "\<exists>c. rel (dev w) c"
  then obtain c where c: "rel (dev w) c" ..
  obtain d where d: "a_oncd_read ad r 32 w = (fst (chip_read C r 32 c), w\<lparr>dev := d\<rparr>)" "rel d (snd (chip_read C r 32 c))"
    using read_scan [OF c] by blast
  obtain x c' where "chip_read C r 32 c = (Inr x, c')" "cv c' = cv c" "P x (cv c)"
    using assms unfolding serial_reads_def by blast
  then show "\<exists>x d. a_oncd_read ad r 32 w = (Inr x, w\<lparr>dev := d\<rparr>) \<and> (\<exists>c. rel d c) \<and>
      cv (chip_of d) = cv (chip_of (dev w)) \<and> P x (cv (chip_of (dev w)))"
    using d one_chip [OF c] one_chip [OF d(2)] by auto
qed

lemma unit_laws:
  assumes "serial_unit C rd cv"
  shows "oncd_unit (\<lambda>d. \<exists>c. rel d c) rd (\<lambda>d. cv (chip_of d)) ad"
  unfolding oncd_unit_def
  by (intro conjI writes reads) (use assms in \<open>simp_all add: serial_unit_def\<close>)

end

section \<open>A unit with the documented behaviour\<close>

text \<open>
  The debug unit behind its data register: nine bits of command come first, and the register
  of its number follows; the data of a write takes effect at the update.
\<close>

record serial =
  s_unit :: chip
  s_bits :: "bool list"

definition unit_value :: "chip \<Rightarrow> u32 \<Rightarrow> u32" where
  "unit_value c r = (if r = OnCD_OMDR then omdr c else if r = OnCD_OSCR then (c_oscr c AND 3) OR OSCR_RDYm else 0)"

definition unit_update :: "(bus_op list \<Rightarrow> u32 \<Rightarrow> u32) \<Rightarrow> u32 \<Rightarrow> u32 \<Rightarrow> chip \<Rightarrow> chip" where
  "unit_update rd r v c =
     (if r = OnCD_OMAR then c\<lparr>omar := v\<rparr> else if r = OnCD_OMDR then c\<lparr>omdr := v\<rparr>
      else if r = OnCD_OSCR then c\<lparr>c_oscr := v\<rparr> else if r = OnCD_MEM then mem_access rd c else c)"

definition unit_out :: "chip \<Rightarrow> bool list \<Rightarrow> bool" where
  "unit_out c bs \<longleftrightarrow> 9 \<le> length bs \<and> bit (unit_value c (bits_word (take 9 bs) AND 0x1f)) (length bs - 9)"

definition unit_chip :: "(bus_op list \<Rightarrow> u32 \<Rightarrow> u32) \<Rightarrow> serial scan_chip" where
  "unit_chip rd = \<lparr>capture_dr = (\<lambda>s. s\<lparr>s_bits := []\<rparr>),
     shift_dr = (\<lambda>b s. (unit_out (s_unit s) (s_bits s), s\<lparr>s_bits := s_bits s @ [b]\<rparr>)),
     update_dr = (\<lambda>s. let cmd = bits_word (take 9 (s_bits s)) in
       if cmd AND IRd_READ \<noteq> 0 then s
       else s\<lparr>s_unit := unit_update rd (cmd AND 0x1f) (bits_word (drop 9 (s_bits s))) (s_unit s)\<rparr>),
     capture_ir = id, shift_ir = (\<lambda>b s. (b, s)), update_ir = id, port_reset = id\<rparr>"

lemma unit_shifts:
  "shifts (shift_dr (unit_chip rd)) bs s =
   (map (\<lambda>i. unit_out (s_unit s) (s_bits s @ take i bs)) [0..<length bs], s\<lparr>s_bits := s_bits s @ bs\<rparr>)"
proof (induction bs arbitrary: s)
  case (Cons b bs)
  then show ?case
    by (simp add: unit_chip_def upt_conv_Cons map_Suc_upt [symmetric] del: upt_Suc)
qed simp

lemma unit_scan:
  "scan_dr (unit_chip rd) bs s = (map (\<lambda>i. unit_out (s_unit s) (take i bs)) [0..<length bs],
     update_dr (unit_chip rd) (s\<lparr>s_bits := bs\<rparr>))"
  by (simp add: scan_dr_def unit_shifts case_prod_beta) (simp add: unit_chip_def)

lemma bits_word_low:
  "m \<le> 32 \<Longrightarrow> m \<le> n \<Longrightarrow> bits_word (take m (low_bits n w)) = ucast (take_bit m w)"
  by (intro bit_word_eqI) (auto simp: bits_word_def low_bits_def bit_simps bit_horner_sum_bit_word_iff)

lemma bits_word_high: "bits_word (drop 9 (low_bits (9 + n) w)) = take_bit n (ucast (drop_bit 9 w))"
  by (intro bit_word_eqI) (auto simp: bits_word_def low_bits_def bit_simps bit_horner_sum_bit_word_iff add.commute)

lemma small_register:
  fixes r :: u32
  assumes "r < 0x20"
  shows "bit r i \<Longrightarrow> i < 5" and "r AND 0x1f = r" and "r AND 0x40 = 0"
proof -
  have "take_bit 5 (unat r) = unat r"
    using assms by (intro take_bit_nat_eq_self) (simp add: word_less_nat_alt)
  then have r: "r = take_bit 5 r"
    by (simp add: word_unat_eq_iff unsigned_take_bit_eq)
  show bits: "bit r i \<Longrightarrow> i < 5" for i
    by (subst (asm) r) (simp add: bit_take_bit_iff)
  have masks: "(0x1f :: u32) = mask 5" "(0x40 :: u32) = push_bit 6 1"
    by (simp_all add: mask_eq_exp_minus_1)
  show "r AND 0x1f = r" "r AND 0x40 = 0"
    unfolding masks using bits [of 6] by (auto intro!: bit_word_eqI simp: bit_simps simp del: push_bit_of_1 dest: bits)
qed

lemma unit_write:
  assumes "r < 0x20" and "n \<le> 32"
  shows "s_unit (snd (chip_write (unit_chip rd) v r n s)) = unit_update rd r (take_bit n v) (s_unit s)"
proof -
  define w where "w = (if n > 0 then ucast r OR push_bit 9 (ucast v) else ucast r :: u64)"
  define bs where "bs = low_bits (9 + n) w"
  have "bits_word (take 9 bs) = ucast (take_bit 9 w)"
    unfolding bs_def by (rule bits_word_low) simp_all
  also have "\<dots> = r"
    by (intro bit_word_eqI) (auto simp: w_def bit_simps dest: small_register(1) [OF assms(1)])
  finally have cmd: "bits_word (take 9 bs) = r" .
  have "bits_word (drop 9 bs) = take_bit n (ucast (drop_bit 9 w))"
    unfolding bs_def by (rule bits_word_high)
  also have "\<dots> = take_bit n v"
    using assms(2) by (intro bit_word_eqI) (auto simp: w_def bit_simps dest: small_register(1) [OF assms(1)])
  finally have val: "bits_word (drop 9 bs) = take_bit n v" .
  have "snd (chip_write (unit_chip rd) v r n s) = update_dr (unit_chip rd) (s\<lparr>s_bits := bs\<rparr>)"
    by (simp add: chip_write_def unit_scan bs_def w_def)
  then show ?thesis
    using small_register(2,3) [OF assms(1)] by (simp add: unit_chip_def Let_def cmd val)
qed

lemma unit_read:
  assumes "r < 0x20"
  shows "\<exists>s'. chip_read (unit_chip rd) r 32 s = (Inr (unit_value (s_unit s) r), s') \<and> s_unit s' = s_unit s"
proof -
  define bs where "bs = low_bits 41 (ucast (r OR IRd_READ) :: u64)"
  let ?v = "unit_value (s_unit s) r"
  have "bits_word (take 9 bs) = ucast (take_bit 9 (ucast (r OR IRd_READ) :: u64))"
    unfolding bs_def by (rule bits_word_low) simp_all
  also have "\<dots> = r OR 0x40"
  proof (rule bit_word_eqI)
    fix i
    have "(0x40 :: u32) = push_bit 6 1"
      by simp
    then have "bit (0x40 :: u32) i \<longleftrightarrow> bit (push_bit 6 1 :: u32) i"
      by (simp only:)
    also have "\<dots> \<longleftrightarrow> i = 6"
      by (auto simp: bit_simps simp del: push_bit_of_1)
    finally have "bit (0x40 :: u32) i \<longleftrightarrow> i = 6" .
    then show "bit (ucast (take_bit 9 (ucast (r OR IRd_READ) :: u64)) :: u32) i = bit (r OR 0x40) i"
      by (auto simp: bit_simps dest: small_register(1) [OF assms(1)])
  qed
  finally have cmd: "bits_word (take 9 bs) = r OR 0x40" .
  have flags: "(r OR 0x40) AND 0x40 \<noteq> 0" "(r OR 0x40) AND 0x1f = r"
    using small_register(2,3) [OF assms] by (simp_all add: bit.conj_disj_distrib2)
  have len: "length bs = 41"
    by (simp add: bs_def)
  have "unit_out (s_unit s) (take i bs) = bit ?v (i - 9)" if "9 \<le> i" "i < 41" for i
    using that cmd flags(2) len by (simp add: unit_out_def min_def)
  then have "drop 9 (map (\<lambda>i. unit_out (s_unit s) (take i bs)) [0..<41]) = map (bit ?v) [0..<32]"
    by (intro nth_equalityI) simp_all
  moreover have "bits_word (map (bit ?v) [0..<32]) = ?v"
    by (intro bit_word_eqI) (auto simp: bits_word_def bit_horner_sum_bit_word_iff)
  moreover have "s_unit (update_dr (unit_chip rd) (s\<lparr>s_bits := bs\<rparr>)) = s_unit s"
    using flags(1) by (simp add: unit_chip_def Let_def cmd)
  moreover have "chip_read (unit_chip rd) r 32 s = (Inr (bits_word (drop 9 (map (\<lambda>i. unit_out (s_unit s) (take i bs)) [0..<41]))),
      update_dr (unit_chip rd) (s\<lparr>s_bits := bs\<rparr>))"
    by (simp add: chip_read_def unit_scan bs_def)
  ultimately show ?thesis
    by simp
qed

lemma unit_chip_ok: "serial_unit (unit_chip rd) rd s_unit"
proof -
  have w: "r < 0x20 \<Longrightarrow> n \<le> 32 \<Longrightarrow> (\<And>v c. unit_update rd r (take_bit n v) c = f v c) \<Longrightarrow>
      serial_writes (unit_chip rd) s_unit r n f" for r n f
    by (simp add: serial_writes_def unit_write)
  have r: "r < 0x20 \<Longrightarrow> (\<And>c. P (unit_value c r) c) \<Longrightarrow> serial_reads (unit_chip rd) s_unit r 32 P" for r P
    using unit_read unfolding serial_reads_def by metis
  have "take_bit 32 v = v" for v :: u32
    by (rule bit_word_eqI) (simp add: bit_simps)
  then show ?thesis
    unfolding serial_unit_def
    by (intro conjI w r) (simp_all add: unit_update_def unit_value_def bit.conj_disj_distrib2 and.assoc)
qed

end
