(* ===== verification/Usb_Lib.thy ===== *)
theory Usb_Lib
  imports Adapter
begin

text \<open>
  What the USB adapters use of libusb and of the system, as a parameter: the functions of a
  record over the state \<open>'d\<close> of the bus and everything behind it. A transfer gives the number
  of bytes written or the bytes read, or nothing for a negative result. \<open>u_control\<close> takes the
  request, its value and index and the length asked for.
\<close>

record 'd usb =
  u_devices :: "(u16 \<times> u16) list"
  u_open :: "nat \<Rightarrow> 'd \<Rightarrow> bool \<times> 'd"
  u_claim :: "'d \<Rightarrow> 'd"
  u_release :: "'d \<Rightarrow> 'd"
  u_control :: "nat \<Rightarrow> u16 \<Rightarrow> nat \<Rightarrow> nat \<Rightarrow> 'd \<Rightarrow> int \<times> 'd"
  u_write :: "u8 \<Rightarrow> u8 list \<Rightarrow> 'd \<Rightarrow> nat option \<times> 'd"
  u_read :: "u8 \<Rightarrow> nat \<Rightarrow> 'd \<Rightarrow> u8 list option \<times> 'd"

text \<open>The loops over the busses and devices: the first device of the given kind.\<close>

fun find_device :: "((u16 \<times> u16) \<Rightarrow> bool) \<Rightarrow> (u16 \<times> u16) list \<Rightarrow> nat \<Rightarrow> (nat \<times> u16) option" where
  "find_device P [] i = None"
| "find_device P (d # ds) i = (if P d then Some (i, snd d) else find_device P ds (i + 1))"

text \<open>The state of an adapter is the private part \<open>dev\<close> of the world.\<close>

definition on_dev :: "('d, 'a) act \<Rightarrow> ('d aworld, 'a) act" where
  "on_dev = zoomM dev (\<lambda>d w. w\<lparr>dev := d\<rparr>)"

end
