(* ===== verification/Adapter_Usb.thy ===== *)
theory Adapter_Usb
  imports Usb_Lib
begin

text \<open>
  adapter-usb.c, the driver of the Elvees USB-JTAG adapter. A packet for the adapter is a
  sequence of commands, each a header byte (inverted bits, of the kinds \<open>HDR\<close> and \<open>HIR\<close>), the
  value for the JTAG instruction register or the number of a debug register, and four, two or
  no bytes of data. The globals \<open>h_wr\<close>, \<open>h_rd\<close> and \<open>h_end\<close>, which \<open>adapter_open_usb\<close> sets, are
  part of the state. The arrays for packets have the size of the source: what does not fit is
  \<open>Bad_access\<close>.
\<close>

abbreviation (input) "BULK_WRITE_ENDPOINT \<equiv> (2 :: u8)"
abbreviation (input) "BULK_CONTROL_ENDPOINT \<equiv> (4 :: u8)"
abbreviation (input) "BULK_READ_ENDPOINT \<equiv> (0x86 :: u8)"
abbreviation (input) "ADAPTER_PLL_12MHZ \<equiv> (0x01 :: u8)"
abbreviation (input) "ADAPTER_ACTIVE_RESET \<equiv> (0x04 :: u8)"
abbreviation (input) "ADAPTER_DEACTIVE_RESET \<equiv> (0x05 :: u8)"
abbreviation (input) "IR_IDCODE \<equiv> (0x33 :: u8)"
abbreviation (input) "IR_DEBUG_REQUEST \<equiv> (0x44 :: u8)"
abbreviation (input) "IR_DEBUG_ENABLE \<equiv> (0x55 :: u8)"
abbreviation (input) "IR_BYPASS \<equiv> (0xff :: u8)"
abbreviation (input) "H_DEBUG \<equiv> (0x40 :: u32)"
abbreviation (input) "H_32 \<equiv> (0x30 :: u32)"
abbreviation (input) "H_16 \<equiv> (0x20 :: u32)"
abbreviation (input) "H_12 \<equiv> (0x10 :: u32)"
abbreviation (input) "H_TRST \<equiv> (0x08 :: u32)"
abbreviation (input) "H_SYSRST \<equiv> (0x04 :: u32)"
abbreviation (input) "H_BLKWR \<equiv> (0x01 :: u32)"
abbreviation (input) "H_BLKRD \<equiv> (0x02 :: u32)"
abbreviation (input) "H_BLKEND \<equiv> (0x03 :: u32)"
abbreviation (input) "H_SNGLWR \<equiv> (0x09 :: u32)"
abbreviation (input) "H_SNGLRD \<equiv> (0x0a :: u32)"
abbreviation (input) "H_SNGLEND \<equiv> (0x0b :: u32)"
abbreviation (input) "H_IDCODE \<equiv> (0x03 :: u32)"

definition HDR :: "u32 \<Rightarrow> u32" where "HDR bits = 0x7c XOR bits"
definition HIR :: "u32 \<Rightarrow> u32" where "HIR bits = 0xfc XOR bits"

record 'd usb_adapter =
  usbdev :: 'd
  h_wr :: u32
  h_rd :: u32
  h_end :: u32

type_synonym ('d, 'a) uact = "('d usb_adapter, 'a) act"

section \<open>Transfers\<close>

definition bulk_write :: "'d usb \<Rightarrow> u8 list \<Rightarrow> ('d, unit) uact" where
  "bulk_write lib wb s = (case u_write lib BULK_WRITE_ENDPOINT wb (usbdev s) of (n, d) \<Rightarrow>
     (if n = Some (length wb) then Inr () else Inl (Exit (- 1) ''Bulk write failed''), s\<lparr>usbdev := d\<rparr>))"

definition bulk_cmd :: "'d usb \<Rightarrow> u8 \<Rightarrow> ('d, unit) uact" where
  "bulk_cmd lib cmd s = (case u_write lib BULK_CONTROL_ENDPOINT [cmd] (usbdev s) of (n, d) \<Rightarrow>
     (if n = Some 1 then Inr () else Inl (Exit (- 1) ''Bulk cmd failed''), s\<lparr>usbdev := d\<rparr>))"

definition bulk_read :: "'d usb \<Rightarrow> nat \<Rightarrow> ('d, u8 list) uact" where
  "bulk_read lib rlen s = (case u_read lib BULK_READ_ENDPOINT rlen (usbdev s) of (r, d) \<Rightarrow>
     (case r of
        Some rb \<Rightarrow> if length rb = rlen then Inr rb else Inl (Exit (- 1) ''Bulk read failed'')
      | None \<Rightarrow> Inl (Exit (- 1) ''Bulk read failed''), s\<lparr>usbdev := d\<rparr>))"

definition bulk_write_read :: "'d usb \<Rightarrow> u8 list \<Rightarrow> nat \<Rightarrow> ('d, u8 list) uact" where
  "bulk_write_read lib wb rlen = seqM (bulk_write lib wb) (bulk_read lib rlen)"

section \<open>Control of the processor\<close>

definition usb_get_idcode :: "'d usb \<Rightarrow> ('d, u32) uact" where
  "usb_get_idcode lib =
     bindM (bulk_write_read lib [ucast (HIR H_DEBUG), IR_IDCODE] 2) (\<lambda>_.
     bindM (bulk_write_read lib ([ucast (HDR (H_32 OR H_IDCODE)), 0x03] @ replicate 6 0) 4) (\<lambda>rb.
     retM (push_bit 8 (push_bit 8 (push_bit 8 (ucast (rb ! 3)) + ucast (rb ! 2)) + ucast (rb ! 1)) + ucast (rb ! 0))))"

definition usb_reset_cpu :: "'d usb \<Rightarrow> ('d, unit) uact" where
  "usb_reset_cpu lib = seqM (bulk_cmd lib ADAPTER_ACTIVE_RESET) (bulk_cmd lib ADAPTER_DEACTIVE_RESET)"

definition usb_cpu_stopped :: "'d usb \<Rightarrow> ('d, bool) uact" where
  "usb_cpu_stopped lib = bindM (bulk_write_read lib [ucast (HIR H_DEBUG), IR_DEBUG_ENABLE] 2) (\<lambda>rb.
     retM (rb ! 0 AND 4 \<noteq> 0))"

definition usb_step_cpu :: "'d usb \<Rightarrow> ('d, unit) uact" where
  "usb_step_cpu lib = bulk_write lib
     [ucast (HDR H_16), ucast (OnCD_GO OR IRd_STEP_1CLK OR IRd_FLUSH_PIPE), 0, 0]"

definition usb_run_cpu :: "'d usb \<Rightarrow> ('d, unit) uact" where
  "usb_run_cpu lib = bulk_write lib [ucast (HDR H_16), ucast (OnCD_GO OR IRd_RESUME), 0, 0]"

text \<open>The first loop runs at most 1000 times, whatever it reads, the second one 102 times.\<close>

primrec request_loop :: "nat \<Rightarrow> 'd usb \<Rightarrow> u8 \<Rightarrow> ('d, unit) uact" where
  "request_loop 0 lib rb0 = retM ()"
| "request_loop (Suc n) lib rb0 =
     (if rb0 = 0x45 then retM ()
      else bindM (bulk_write_read lib [ucast (HIR H_DEBUG), IR_DEBUG_REQUEST] 2) (\<lambda>rb.
        request_loop n lib (rb ! 0)))"

primrec enable_loop :: "nat \<Rightarrow> 'd usb \<Rightarrow> ('d, unit) uact" where
  "enable_loop 0 lib = failM (Exit (- 1) ''No reply from debug request'')"
| "enable_loop (Suc n) lib =
     bindM (bulk_write_read lib [ucast (HIR H_DEBUG), IR_DEBUG_ENABLE] 2) (\<lambda>rb.
       if rb ! 0 = 0x55 then retM () else enable_loop n lib)"

text \<open>The first reply may be short; what was not read is zero.\<close>

definition usb_stop_cpu :: "'d usb \<Rightarrow> ('d, unit) uact" where
  "usb_stop_cpu lib = seqM (bulk_write lib [ucast (HIR (H_DEBUG OR H_SYSRST)), IR_DEBUG_REQUEST])
     (bindM (\<lambda>s. case u_read lib BULK_READ_ENDPOINT 2 (usbdev s) of (r, d) \<Rightarrow>
         (Inr (case r of Some (b # _) \<Rightarrow> b | _ \<Rightarrow> 0), s\<lparr>usbdev := d\<rparr>)) (\<lambda>rb0.
       seqM (request_loop 1000 lib rb0) (enable_loop 102 lib)))"

section \<open>Registers of the debug unit\<close>

definition fill_pkt :: "u32 \<Rightarrow> u32 \<Rightarrow> u32 \<Rightarrow> u8 list" where
  "fill_pkt cmd reg data = [ucast cmd, ucast reg] @ le_bytes data"

definition usb_oncd_read :: "'d usb \<Rightarrow> u32 \<Rightarrow> nat \<Rightarrow> ('d, u32) uact" where
  "usb_oncd_read lib reg nbits =
     (if nbits < 32 then
        bindM (bulk_write_read lib
            (take 4 (fill_pkt (if nbits = 16 then HDR H_16 else HDR H_12) (reg OR IRd_READ) 0)) 2)
          (\<lambda>rb. retM (le_word (rb @ [0, 0])))
      else bindM (bulk_write_read lib (fill_pkt (HDR H_32) (reg OR IRd_READ) 0) 4) (\<lambda>rb. retM (le_word rb)))"

definition usb_oncd_write :: "'d usb \<Rightarrow> u32 \<Rightarrow> u32 \<Rightarrow> nat \<Rightarrow> ('d, unit) uact" where
  "usb_oncd_write lib val reg nbits =
     (if nbits = 16 then bulk_write lib (take 4 (fill_pkt (HDR H_16) reg val))
      else if nbits = 12 then bulk_write lib (take 4 (fill_pkt (HDR H_12) reg val))
      else bulk_write lib (fill_pkt (HDR H_32) reg val))"

section \<open>Block operations\<close>

text \<open>A command of a packet, and sending a packet that was built in an array of the given size.\<close>

type_synonym usb_cmd = "u32 \<times> u32 \<times> u32"

definition fill_pkts :: "usb_cmd list \<Rightarrow> u8 list" where
  "fill_pkts cmds = concat (map (\<lambda>(cmd, reg, data). fill_pkt cmd reg data) cmds)"

definition exchange :: "'d usb \<Rightarrow> nat \<Rightarrow> usb_cmd list \<Rightarrow> nat \<Rightarrow> ('d, u8 list) uact" where
  "exchange lib cap cmds rlen =
     (if length (fill_pkts cmds) \<le> cap then bulk_write_read lib (fill_pkts cmds) rlen else failM Bad_access)"

definition check_oscr :: "u8 list \<Rightarrow> ('d, unit) uact" where
  "check_oscr rb = (if le_word rb AND OSCR_RDYm = 0 then failM (Exit 1 ''Timeout'') else retM ())"

text \<open>The last command of all packets: reading OSCR.\<close>

definition read_oscr :: usb_cmd where
  "read_oscr = (HDR H_32, OnCD_OSCR OR IRd_READ, 0)"

text \<open>A word written to an address: two commands.\<close>

definition write_pair :: "'d usb_adapter \<Rightarrow> u32 \<times> u32 \<Rightarrow> usb_cmd list" where
  "write_pair s ad = [(HDR (H_32 OR h_wr s), OnCD_OMAR, fst ad), (HDR (H_32 OR h_end s), OnCD_OMDR, snd ad)]"

definition write_pairs_pkt :: "'d usb_adapter \<Rightarrow> (u32 \<times> u32) list \<Rightarrow> usb_cmd list" where
  "write_pairs_pkt s ads = concat (map (write_pair s) ads)"

text \<open>The words \<open>*data++\<close>: reading past the end of the data is \<open>Bad_access\<close>.\<close>

definition usb_write_block :: "'d usb \<Rightarrow> nat \<Rightarrow> u32 \<Rightarrow> u32 list \<Rightarrow> ('d, unit) uact" where
  "usb_write_block lib nwords addr data =
     (if length data < max 1 nwords then failM Bad_access
      else bindM (getM id) (\<lambda>s.
        bindM (exchange lib (6 + 6 * nwords + 6)
            ([(HDR (H_32 OR h_wr s), OnCD_OMAR, addr)] @
             map (\<lambda>d. (HDR (H_32 OR h_wr s), OnCD_OMDR, d)) (take (nwords - 1) data) @
             [(HDR (H_32 OR h_end s), OnCD_OMDR, data ! (nwords - 1)), read_oscr]) 4) check_oscr))"

definition usb_write_nwords :: "'d usb \<Rightarrow> (u32 \<times> u32) list \<Rightarrow> ('d, unit) uact" where
  "usb_write_nwords lib args = bindM (getM id) (\<lambda>s.
     bindM (exchange lib (6 * 2 * length args + 6) (write_pairs_pkt s args @ [read_oscr]) 4) check_oscr)"

definition usb_read_block :: "'d usb \<Rightarrow> nat \<Rightarrow> u32 \<Rightarrow> ('d, u32 list) uact" where
  "usb_read_block lib nwords addr = bindM (getM id) (\<lambda>s.
     let t = (if h_rd s = H_BLKRD then H_32 else H_32 OR H_TRST) in
     bindM (exchange lib (6 + 6 * nwords + 6)
         ([(HDR (t OR h_rd s), OnCD_OMAR, addr)] @
          replicate (nwords - 1) (HDR (t OR h_rd s), OnCD_OMDR OR IRd_READ, 0) @
          [(HDR (t OR h_end s), OnCD_OMDR OR IRd_READ, 0), read_oscr]) (4 * nwords)) (\<lambda>data.
     bindM (bulk_read lib 4) (\<lambda>rb. seqM (check_oscr rb) (retM (le_words data)))))"

text \<open>The writes that program one word, with the address of the chip's commands for a 32-bit bus.\<close>

definition program_writes :: "u32 \<Rightarrow> flash_cmds \<Rightarrow> u32 \<times> u32 \<Rightarrow> (u32 \<times> u32) list" where
  "program_writes base c ad = [(base + fc_addr_odd c, fc_cmd_aa c), (base + fc_addr_even c, fc_cmd_55 c),
     (base + fc_addr_odd c, fc_cmd_a0 c), ad]"

text \<open>The words with their addresses.\<close>

definition word_pairs :: "nat \<Rightarrow> u32 \<Rightarrow> u32 list \<Rightarrow> (u32 \<times> u32) list" where
  "word_pairs nwords addr data = map (\<lambda>i. (addr + 4 * of_nat i, data ! i)) [0..<nwords]"

definition usb_program_block32 ::
  "'d usb \<Rightarrow> nat \<Rightarrow> u32 \<Rightarrow> u32 \<Rightarrow> u32 list \<Rightarrow> flash_cmds \<Rightarrow> ('d, unit) uact" where
  "usb_program_block32 lib nwords base addr data c =
     (if length data < nwords then failM Bad_access
      else bindM (getM id) (\<lambda>s.
        bindM (exchange lib (6 * (8 + 1) * nwords + 6)
            (concat (map (\<lambda>ad. write_pairs_pkt s (program_writes base c ad) @ [(HDR H_32, OnCD_OMDR, 0)])
               (word_pairs nwords addr data)) @ [read_oscr]) 4) check_oscr))"

text \<open>An Atmel page: a prefix that unlocks or locks, then the words.\<close>

definition usb_program_page ::
  "'d usb \<Rightarrow> (u32 \<times> u32) list \<Rightarrow> nat \<Rightarrow> u32 \<Rightarrow> u32 list \<Rightarrow> ('d, unit) uact" where
  "usb_program_page lib prefix nwords addr data = bindM (getM id) (\<lambda>s.
     let cap = 6 * 18 + 6 * 2 * nwords + 6 in
     seqM (bindM (exchange lib cap (write_pairs_pkt s prefix @ [read_oscr]) 4) check_oscr)
       (if length data < nwords then failM Bad_access
        else bindM (exchange lib cap (write_pairs_pkt s (word_pairs nwords addr data) @ [read_oscr]) 4)
          check_oscr))"

definition usb_program_block32_unprotect ::
  "'d usb \<Rightarrow> nat \<Rightarrow> u32 \<Rightarrow> u32 \<Rightarrow> u32 list \<Rightarrow> flash_cmds \<Rightarrow> ('d, unit) uact" where
  "usb_program_block32_unprotect lib nwords base addr data c = usb_program_page lib
     [(base + fc_addr_odd c, fc_cmd_aa c), (base + fc_addr_even c, fc_cmd_55 c),
      (base + fc_addr_odd c, 0x80808080), (base + fc_addr_odd c, fc_cmd_aa c),
      (base + fc_addr_even c, fc_cmd_55 c), (base + fc_addr_odd c, 0x20202020)] nwords addr data"

definition usb_program_block32_protect ::
  "'d usb \<Rightarrow> nat \<Rightarrow> u32 \<Rightarrow> u32 \<Rightarrow> u32 list \<Rightarrow> flash_cmds \<Rightarrow> ('d, unit) uact" where
  "usb_program_block32_protect lib nwords base addr data c = usb_program_page lib
     [(base + fc_addr_odd c, fc_cmd_aa c), (base + fc_addr_even c, fc_cmd_55 c),
      (base + fc_addr_odd c, fc_cmd_a0 c)] nwords addr data"

definition usb_program_block64 ::
  "'d usb \<Rightarrow> nat \<Rightarrow> u32 \<Rightarrow> u32 \<Rightarrow> u32 list \<Rightarrow> flash_cmds \<Rightarrow> ('d, unit) uact" where
  "usb_program_block64 lib nwords base addr data c =
     (if length data < nwords then failM Bad_access
      else bindM (getM id) (\<lambda>s.
        bindM (exchange lib (6 * 8 * nwords + 6)
            (write_pairs_pkt s (concat (map (\<lambda>ad. program_writes (base + (fst ad AND 4)) c ad)
               (word_pairs nwords addr data))) @ [read_oscr]) 4) check_oscr))"

definition usb_program_block32_micron :: "'d usb \<Rightarrow> nat \<Rightarrow> u32 \<Rightarrow> u32 list \<Rightarrow> ('d, unit) uact" where
  "usb_program_block32_micron lib n_minus_1 addr data =
     (if length data < n_minus_1 + 1 then failM Bad_access
      else bindM (getM id) (\<lambda>s.
        let block_addr = addr AND 0xFFC00000 in
        bindM (exchange lib (6 * (8 + 1) * (n_minus_1 + 2) + 6)
            (write_pairs_pkt s ([(block_addr, push_bit 16 (of_nat n_minus_1) OR of_nat n_minus_1)] @
               word_pairs (n_minus_1 + 1) addr data @ [(block_addr, 0x00d000d0)]) @ [read_oscr]) 4) check_oscr))"

section \<open>Opening and closing\<close>

definition usb_close_adapter :: "'d usb \<Rightarrow> ('d, unit) uact" where
  "usb_close_adapter lib = modM (\<lambda>s. s\<lparr>usbdev := u_release lib (usbdev s)\<rparr>)"

definition usb_adapter_table :: "'d usb \<Rightarrow> 'd usb_adapter adapter" where
  "usb_adapter_table lib = \<lparr>a_name = ''Elvees USB'', a_close = on_dev (usb_close_adapter lib),
     a_get_idcode = on_dev (usb_get_idcode lib), a_cpu_stopped = on_dev (usb_cpu_stopped lib),
     a_stop_cpu = on_dev (usb_stop_cpu lib), a_reset_cpu = on_dev (usb_reset_cpu lib),
     a_oncd_write = (\<lambda>v r n. on_dev (usb_oncd_write lib v r n)), a_oncd_read = (\<lambda>r n. on_dev (usb_oncd_read lib r n)),
     a_block_words = 64, a_program_block_words = 16,
     a_step_cpu = Some (on_dev (usb_step_cpu lib)), a_run_cpu = Some (on_dev (usb_run_cpu lib)),
     a_read_block = Some (\<lambda>n a. on_dev (usb_read_block lib n a)),
     a_write_block = Some (\<lambda>n a d. on_dev (usb_write_block lib n a d)),
     a_write_nwords = Some (\<lambda>args. on_dev (usb_write_nwords lib args)),
     a_program_block32 = Some (\<lambda>n b a d c. on_dev (usb_program_block32 lib n b a d c)),
     a_program_block32_unprotect = Some (\<lambda>n b a d c. on_dev (usb_program_block32_unprotect lib n b a d c)),
     a_program_block32_protect = Some (\<lambda>n b a d c. on_dev (usb_program_block32_protect lib n b a d c)),
     a_program_block64 = Some (\<lambda>n b a d c. on_dev (usb_program_block64 lib n b a d c)),
     a_program_block32_micron = Some (\<lambda>n a d. on_dev (usb_program_block32_micron lib n a d))\<rparr>"

text \<open>\<open>None\<close>: no adapter, or it cannot be opened.\<close>

definition adapter_open_usb ::
  "'d usb \<Rightarrow> bool \<Rightarrow> bool \<Rightarrow> ('d, 'd usb_adapter adapter option) uact" where
  "adapter_open_usb lib need_reset disable_block_op = seqM
     (whenM disable_block_op (modM (\<lambda>s. s\<lparr>h_wr := H_SNGLWR, h_rd := H_SNGLRD, h_end := H_SNGLEND\<rparr>)))
     (case find_device (\<lambda>(vid, pid). vid = 0x0547 \<and> pid = 0x1002) (u_devices lib) 0 of
        None \<Rightarrow> retM None
      | Some (i, pid) \<Rightarrow> bindM (\<lambda>s. case u_open lib i (usbdev s) of (b, d) \<Rightarrow> (Inr b, s\<lparr>usbdev := d\<rparr>)) (\<lambda>opened.
          if \<not> opened then retM None
          else seqM (seqsM
            [modM (\<lambda>s. s\<lparr>usbdev := u_claim lib (usbdev s)\<rparr>),
             bulk_cmd lib ADAPTER_PLL_12MHZ,
             whenM need_reset (seqM (bulk_cmd lib ADAPTER_ACTIVE_RESET) (bulk_cmd lib ADAPTER_DEACTIVE_RESET)),
             bindM (bulk_write_read lib [ucast (HDR (H_DEBUG OR H_TRST)), ucast (OnCD_MEM OR IRd_READ)] 2) (\<lambda>_. retM ()),
             bindM (bulk_write_read lib [ucast (HIR (H_DEBUG OR H_TRST OR H_SYSRST)), IR_BYPASS] 2) (\<lambda>_. retM ())])
            (retM (Some (usb_adapter_table lib)))))"

end
