(* ===== verification/Adapter_Mpsse.thy ===== *)
theory Adapter_Mpsse
  imports Usb_Lib
begin

text \<open>
  adapter-mpsse.c, the driver of FT2232 adapters: JTAG signals are clocked by MPSSE commands,
  which are collected in the buffer \<open>output\<close> and sent when it fills up or an answer is needed.

  \<open>m_output\<close> is the part of the buffer that is used (\<open>bytes_to_write\<close> is its length), \<open>m_input\<close>
  the whole array of received data. A shift of a 64-bit value by a negative or too large
  amount is undefined in C and is \<open>Bad_access\<close> here. \<open>rounds\<close> bounds the number of reads of
  one transfer, which the code repeats until all bytes have come.
\<close>

abbreviation (input) "MPSSE_IN_EP \<equiv> (0x02 :: u8)"
abbreviation (input) "MPSSE_OUT_EP \<equiv> (0x81 :: u8)"
abbreviation (input) "CLKWNEG \<equiv> (0x01 :: u8)"
abbreviation (input) "BITMODE \<equiv> (0x02 :: u8)"
abbreviation (input) "LSB_FIRST \<equiv> (0x08 :: u8)"
abbreviation (input) "WTDI \<equiv> (0x10 :: u8)"
abbreviation (input) "RTDO \<equiv> (0x20 :: u8)"
abbreviation (input) "WTMS \<equiv> (0x40 :: u8)"
abbreviation (input) "TAP_IDCODE \<equiv> (3 :: u32)"
abbreviation (input) "TAP_DEBUG_REQUEST \<equiv> (4 :: u32)"
abbreviation (input) "TAP_DEBUG_ENABLE \<equiv> (5 :: u32)"

record 'd mpsse =
  mdev :: 'd
  m_output :: "u8 list"
  m_input :: "u8 list"
  bytes_to_read :: nat
  bytes_per_word :: nat
  fix_high_bit :: u64
  high_byte_mask :: u64
  high_bit_mask :: u64
  high_byte_bits :: nat

type_synonym ('d, 'a) msact = "('d mpsse, 'a) act"

definition OUTPUT_SIZE :: nat where "OUTPUT_SIZE = 256 * 16"
definition INPUT_SIZE :: nat where "INPUT_SIZE = 64"

section \<open>Transfers\<close>

text \<open>A short write is only reported.\<close>

definition bulk_write :: "'d usb \<Rightarrow> u8 list \<Rightarrow> ('d, unit) msact" where
  "bulk_write lib bs s = (case u_write lib MPSSE_IN_EP bs (mdev s) of (n, d) \<Rightarrow>
     (if n = None then Inl (Exit (- 1) ''usb bulk write failed'') else Inr (), s\<lparr>mdev := d\<rparr>))"

text \<open>The first two bytes of an answer are modem and line status.\<close>

primrec receive_loop :: "nat \<Rightarrow> 'd usb \<Rightarrow> nat \<Rightarrow> ('d, unit) msact" where
  "receive_loop 0 lib bytes_read s =
     (if bytes_read < bytes_to_read s then Inl Out_of_fuel else Inr (), s)"
| "receive_loop (Suc r) lib bytes_read s =
     (if bytes_read < bytes_to_read s then
        (case u_read lib MPSSE_OUT_EP (bytes_to_read s - bytes_read + 2) (mdev s) of (reply, d) \<Rightarrow>
           let s = s\<lparr>mdev := d\<rparr> in
           (case reply of
              None \<Rightarrow> (Inl (Exit (- 1) ''usb bulk read failed''), s)
            | Some bs \<Rightarrow>
                if length bs > 64 then (Inl Bad_access, s)
                else if length bs \<le> 2 then receive_loop r lib bytes_read s
                else if bytes_read + (length bs - 2) > INPUT_SIZE then (Inl Bad_access, s)
                else receive_loop r lib (bytes_read + (length bs - 2))
                  (s\<lparr>m_input := take bytes_read (m_input s) @ drop 2 bs @
                     drop (bytes_read + (length bs - 2)) (m_input s)\<rparr>)))
      else (Inr (), s))"

definition mpsse_flush_output :: "nat \<Rightarrow> 'd usb \<Rightarrow> ('d, unit) msact" where
  "mpsse_flush_output rounds lib = bindM (getM id) (\<lambda>s.
     if m_output s = [] then retM ()
     else seqsM
       [bulk_write lib (m_output s),
        modM (\<lambda>s. s\<lparr>m_output := []\<rparr>),
        whenM (bytes_to_read s > 0)
          (seqM (receive_loop rounds lib 0) (modM (\<lambda>s. s\<lparr>bytes_to_read := 0\<rparr>)))])"

section \<open>Building a packet\<close>

definition put_output :: "u8 list \<Rightarrow> ('d, unit) msact" where
  "put_output bs s =
     (if length (m_output s) + length bs \<le> OUTPUT_SIZE then (Inr (), s\<lparr>m_output := m_output s @ bs\<rparr>)
      else (Inl Bad_access, s))"

text \<open>\<open>v << n\<close> on 64 bits.\<close>

definition shl64 :: "u64 \<Rightarrow> int \<Rightarrow> ('d, u64) msact" where
  "shl64 v n = (if 0 \<le> n \<and> n < 64 then retM (push_bit (nat n) v) else failM Bad_access)"

definition rd_flag :: "bool \<Rightarrow> u8" where
  "rd_flag r = (if r then RTDO else 0)"

text \<open>The prolog on TMS, of at most 14 bits.\<close>

definition send_prolog :: "nat \<Rightarrow> u32 \<Rightarrow> ('d, unit) msact" where
  "send_prolog k tms = whenM (k > 0)
     (if k < 8 then put_output [WTMS + BITMODE + CLKWNEG + LSB_FIRST, of_nat (k - 1), ucast tms]
      else put_output
        [WTMS + BITMODE + CLKWNEG + LSB_FIRST, 7 - 1, ucast (tms AND 0x7f),
         WTMS + BITMODE + CLKWNEG + LSB_FIRST, of_nat (k - 7 - 1), ucast (drop_bit 7 tms)])"

text \<open>The bookkeeping for the answer, before the data is sent.\<close>

definition expect_reply :: "nat \<Rightarrow> nat \<Rightarrow> ('d, unit) msact" where
  "expect_reply nbytes last_byte_bits = modM (\<lambda>s.
     let bpw = (if last_byte_bits > 0 then nbytes + 1 else nbytes) in
     s\<lparr>high_byte_bits := last_byte_bits, fix_high_bit := 0, high_byte_mask := 0,
       bytes_per_word := bpw, bytes_to_read := bytes_to_read s + bpw\<rparr>)"

definition tdi_bytes :: "nat \<Rightarrow> u64 \<Rightarrow> u8 list" where
  "tdi_bytes n tdi = map (\<lambda>i. ucast (drop_bit (8 * i) tdi)) [0..<n]"

definition send_bytes :: "nat \<Rightarrow> u64 \<Rightarrow> bool \<Rightarrow> ('d, unit) msact" where
  "send_bytes nbytes tdi rd = whenM (nbytes > 0)
     (put_output ([WTDI + rd_flag rd + CLKWNEG + LSB_FIRST, of_nat (nbytes - 1), of_nat ((nbytes - 1) div 256)] @
        tdi_bytes nbytes tdi))"

definition send_bits :: "nat \<Rightarrow> u64 \<Rightarrow> bool \<Rightarrow> ('d, unit) msact" where
  "send_bits last_byte_bits tdi rd = whenM (last_byte_bits > 0) (seqM
     (put_output [WTDI + rd_flag rd + BITMODE + CLKWNEG + LSB_FIRST, of_nat (last_byte_bits - 1), ucast tdi])
     (bindM (getM bytes_per_word) (\<lambda>bpw. bindM (shl64 0xff ((int bpw - 1) * 8)) (\<lambda>m.
        modM (\<lambda>s. s\<lparr>high_byte_mask := m\<rparr>)))))"

text \<open>The last bit, with TMS = 1, and the step to Update; its bit comes in a byte of its own.\<close>

definition send_last :: "u64 \<Rightarrow> bool \<Rightarrow> ('d, unit) msact" where
  "send_last tdi rd = seqM
     (put_output [WTMS + rd_flag rd + BITMODE + CLKWNEG + LSB_FIRST, 1, ucast (push_bit 7 tdi OR 1 OR push_bit 1 1)])
     (whenM rd (bindM (getM bytes_per_word) (\<lambda>bpw. bindM (shl64 0x40 (int bpw * 8)) (\<lambda>m.
        modM (\<lambda>s. s\<lparr>fix_high_bit := m, bytes_per_word := bpw + 1, bytes_to_read := bytes_to_read s + 1\<rparr>)))))"

definition send_data :: "nat \<Rightarrow> u64 \<Rightarrow> bool \<Rightarrow> ('d, unit) msact" where
  "send_data tdi_nbits tdi rd = (let nbytes = (tdi_nbits - 1) div 8; last_byte_bits = (tdi_nbits - 1) mod 8 in
     seqsM
       [whenM rd (expect_reply nbytes last_byte_bits),
        send_bytes nbytes tdi rd,
        send_bits last_byte_bits (drop_bit (8 * nbytes) tdi) rd,
        send_last (drop_bit last_byte_bits (drop_bit (8 * nbytes) tdi)) rd,
        whenM rd (bindM (shl64 1 (int tdi_nbits - 1)) (\<lambda>m. modM (\<lambda>s. s\<lparr>high_bit_mask := m\<rparr>)))])"

text \<open>
  The standard prolog 1-0-0 is added when there is data. After it no bits of an epilog are
  left: the last branch of the function is never taken.
\<close>

definition mpsse_send ::
  "nat \<Rightarrow> 'd usb \<Rightarrow> nat \<Rightarrow> u32 \<Rightarrow> nat \<Rightarrow> u64 \<Rightarrow> bool \<Rightarrow> ('d, unit) msact" where
  "mpsse_send rounds lib tms_prolog_nbits tms_prolog tdi_nbits tdi read_flag = seqM
     (bindM (getM m_output) (\<lambda>out. whenM (length out > OUTPUT_SIZE - 23) (mpsse_flush_output rounds lib)))
     (if tdi_nbits > 0 then seqM
        (send_prolog (tms_prolog_nbits + 3) (tms_prolog OR push_bit tms_prolog_nbits 1))
        (send_data tdi_nbits tdi read_flag)
      else send_prolog tms_prolog_nbits tms_prolog)"

section \<open>Received data\<close>

definition mpsse_fix_data :: "'d mpsse \<Rightarrow> u64 \<Rightarrow> u64" where
  "mpsse_fix_data s word =
     (let fix = word AND fix_high_bit s;
          word = (if high_byte_bits s > 0 then
              (word AND NOT (high_byte_mask s)) OR
              (high_byte_mask s AND drop_bit (8 - high_byte_bits s) (word AND high_byte_mask s))
            else word);
          word = word AND (high_bit_mask s - 1)
      in if fix \<noteq> 0 then word OR high_bit_mask s else word)"

text \<open>The eight bytes of the input from a place on.\<close>

definition input_word :: "nat \<Rightarrow> ('d, u64) msact" where
  "input_word i s =
     (if i + 8 \<le> length (m_input s)
      then (Inr (horner_sum ucast 256 (take 8 (drop i (m_input s)))), s) else (Inl Bad_access, s))"

definition mpsse_recv :: "nat \<Rightarrow> 'd usb \<Rightarrow> ('d, u64) msact" where
  "mpsse_recv rounds lib = seqM (mpsse_flush_output rounds lib)
     (bindM (input_word 0) (\<lambda>w. getM (\<lambda>s. mpsse_fix_data s w)))"

section \<open>Signals, speed, closing\<close>

definition mpsse_reset :: "'d usb \<Rightarrow> bool \<Rightarrow> bool \<Rightarrow> bool \<Rightarrow> ('d, unit) msact" where
  "mpsse_reset lib trst sysrst led = seqM (bulk_write lib [0x80, 0x08, 0x1b])
     (bulk_write lib [0x82, (if trst then 0 else 1) OR (if sysrst then 2 else 0) OR (if led then 8 else 0), 0x0f])"

definition mpsse_speed :: "'d usb \<Rightarrow> u32 \<Rightarrow> ('d, unit) msact" where
  "mpsse_speed lib divisor = bulk_write lib [0x86, ucast divisor, ucast (drop_bit 8 divisor)]"

definition mpsse_close :: "nat \<Rightarrow> 'd usb \<Rightarrow> ('d, unit) msact" where
  "mpsse_close rounds lib = seqsM [mpsse_flush_output rounds lib, mpsse_reset lib False False False,
     modM (\<lambda>s. s\<lparr>mdev := u_release lib (mdev s)\<rparr>)]"

section \<open>Operations of the adapter\<close>

definition mpsse_get_idcode :: "nat \<Rightarrow> 'd usb \<Rightarrow> ('d, u32) msact" where
  "mpsse_get_idcode rounds lib = seqM (mpsse_send rounds lib 6 31 32 0 True)
     (bindM (mpsse_recv rounds lib) (\<lambda>w. retM (ucast w)))"

definition mpsse_cpu_stopped :: "nat \<Rightarrow> 'd usb \<Rightarrow> ('d, bool) msact" where
  "mpsse_cpu_stopped rounds lib = seqM (mpsse_send rounds lib 1 1 4 (ucast TAP_DEBUG_ENABLE) True)
     (bindM (mpsse_recv rounds lib) (\<lambda>w. retM ((ucast w :: u32) AND 4 \<noteq> 0)))"

definition mpsse_oncd_read :: "nat \<Rightarrow> 'd usb \<Rightarrow> u32 \<Rightarrow> nat \<Rightarrow> ('d, u32) msact" where
  "mpsse_oncd_read rounds lib reg reglen = seqM
     (mpsse_send rounds lib 0 0 (9 + reglen) (ucast (reg OR IRd_READ)) True)
     (bindM (mpsse_recv rounds lib) (\<lambda>w. retM (ucast (drop_bit 9 w))))"

definition mpsse_oncd_write :: "nat \<Rightarrow> 'd usb \<Rightarrow> u32 \<Rightarrow> u32 \<Rightarrow> nat \<Rightarrow> ('d, unit) msact" where
  "mpsse_oncd_write rounds lib val reg reglen = mpsse_send rounds lib 0 0 (9 + reglen)
     (if reglen > 0 then ucast reg OR push_bit 9 (ucast val) else ucast reg) False"

primrec debug_loop :: "nat \<Rightarrow> nat \<Rightarrow> 'd usb \<Rightarrow> ('d, unit) msact" where
  "debug_loop 0 rounds lib = failM (Exit 1 ''Timeout while entering debug mode'')"
| "debug_loop (Suc n) rounds lib = seqM (mpsse_send rounds lib 1 1 4 (ucast TAP_DEBUG_ENABLE) True)
     (bindM (mpsse_recv rounds lib) (\<lambda>w. if (ucast w :: u32) = 5 then retM () else debug_loop n rounds lib))"

definition mpsse_stop_cpu :: "nat \<Rightarrow> 'd usb \<Rightarrow> ('d, unit) msact" where
  "mpsse_stop_cpu rounds lib = seqM (mpsse_send rounds lib 1 1 4 (ucast TAP_DEBUG_REQUEST) False)
     (debug_loop 50 rounds lib)"

definition mpsse_reset_cpu :: "nat \<Rightarrow> 'd usb \<Rightarrow> ('d, unit) msact" where
  "mpsse_reset_cpu rounds lib = seqsM [mpsse_flush_output rounds lib, mpsse_reset lib False True True,
     mpsse_reset lib False False True]"

section \<open>Block operations\<close>

type_synonym ('d, 'a) mwact = "('d mpsse aworld, 'a) act"

text \<open>Memory access is allowed by OSCR, through its shadow.\<close>

definition allow_memory :: "nat \<Rightarrow> 'd usb \<Rightarrow> (u32 \<Rightarrow> u32) \<Rightarrow> ('d, unit) mwact" where
  "allow_memory rounds lib f = bindM (getM oscr) (\<lambda>old. whenM (f old \<noteq> old)
     (seqM (modM (\<lambda>w. w\<lparr>oscr := f old\<rparr>)) (on_dev (mpsse_oncd_write rounds lib (f old) OnCD_OSCR 32))))"

abbreviation (input) "oscr_read \<equiv> (\<lambda>v :: u32. v OR OSCR_SlctMEM OR OSCR_RO)"
abbreviation (input) "oscr_write \<equiv> (\<lambda>v :: u32. (v AND NOT OSCR_RO) OR OSCR_SlctMEM)"

definition write_mem_word :: "nat \<Rightarrow> 'd usb \<Rightarrow> u32 \<times> u32 \<Rightarrow> ('d, unit) msact" where
  "write_mem_word rounds lib ad = seqsM [mpsse_oncd_write rounds lib (fst ad) OnCD_OMAR 32,
     mpsse_oncd_write rounds lib (snd ad) OnCD_OMDR 32, mpsse_oncd_write rounds lib 0 OnCD_MEM 0]"

text \<open>At most ten words in one transfer; each is requested by three packets.\<close>

definition request_word :: "nat \<Rightarrow> 'd usb \<Rightarrow> u32 \<Rightarrow> ('d, unit) msact" where
  "request_word rounds lib addr = seqsM [mpsse_oncd_write rounds lib addr OnCD_OMAR 32,
     mpsse_oncd_write rounds lib 0 OnCD_MEM 0,
     mpsse_send rounds lib 0 0 (9 + 32) (ucast (OnCD_OMDR OR IRd_READ)) True]"

primrec reply_words :: "nat \<Rightarrow> nat \<Rightarrow> ('d, u32 list) msact" where
  "reply_words 0 i = retM []"
| "reply_words (Suc n) i = bindM (getM bytes_per_word) (\<lambda>bpw. bindM (input_word (i * bpw)) (\<lambda>w.
     bindM (getM (\<lambda>s. ucast (drop_bit 9 (mpsse_fix_data s w)))) (\<lambda>d.
     bindM (reply_words n (i + 1)) (\<lambda>ds. retM (d # ds)))))"

function read_words_loop :: "nat \<Rightarrow> 'd usb \<Rightarrow> nat \<Rightarrow> u32 \<Rightarrow> ('d, u32 list) msact" where
  "read_words_loop rounds lib nwords addr =
     (if nwords = 0 then retM []
      else let n = min 10 nwords in
        seqM (seqsM (map (\<lambda>i. request_word rounds lib (addr + of_nat i * 4)) [0..<n]))
       (seqM (mpsse_flush_output rounds lib)
       (bindM (reply_words n 0) (\<lambda>ds.
        bindM (read_words_loop rounds lib (nwords - n) (addr + of_nat n * 4)) (\<lambda>rest. retM (ds @ rest))))))"
  by pat_completeness auto
termination
  by (relation "measure (\<lambda>(r, l, n, a). n)") auto

declare read_words_loop.simps [simp del]

definition mpsse_read_block :: "nat \<Rightarrow> 'd usb \<Rightarrow> nat \<Rightarrow> u32 \<Rightarrow> ('d, u32 list) mwact" where
  "mpsse_read_block rounds lib nwords addr = seqM (allow_memory rounds lib oscr_read)
     (on_dev (seqM (mpsse_flush_output rounds lib) (read_words_loop rounds lib nwords addr)))"

definition mpsse_write_nwords :: "nat \<Rightarrow> 'd usb \<Rightarrow> (u32 \<times> u32) list \<Rightarrow> ('d, unit) mwact" where
  "mpsse_write_nwords rounds lib args = seqM (allow_memory rounds lib oscr_write)
     (on_dev (seqsM (map (write_mem_word rounds lib) args)))"

text \<open>\<open>*data++\<close> past the end of the data is \<open>Bad_access\<close>.\<close>

primrec write_block_loop :: "nat \<Rightarrow> 'd usb \<Rightarrow> nat \<Rightarrow> u32 \<Rightarrow> u32 list \<Rightarrow> ('d, unit) msact" where
  "write_block_loop rounds lib 0 addr data = retM ()"
| "write_block_loop rounds lib (Suc n) addr data = (case data of
     [] \<Rightarrow> failM Bad_access
   | d # ds \<Rightarrow> seqM (write_mem_word rounds lib (addr, d)) (write_block_loop rounds lib n (addr + 4) ds))"

definition mpsse_write_block :: "nat \<Rightarrow> 'd usb \<Rightarrow> nat \<Rightarrow> u32 \<Rightarrow> u32 list \<Rightarrow> ('d, unit) mwact" where
  "mpsse_write_block rounds lib nwords addr data = seqM (allow_memory rounds lib oscr_write)
     (on_dev (write_block_loop rounds lib nwords addr data))"

primrec program_loop ::
  "nat \<Rightarrow> 'd usb \<Rightarrow> u32 \<Rightarrow> flash_cmds \<Rightarrow> nat \<Rightarrow> u32 \<Rightarrow> u32 list \<Rightarrow> ('d, unit) msact" where
  "program_loop rounds lib base c 0 addr data = retM ()"
| "program_loop rounds lib base c (Suc n) addr data = seqM
     (seqsM (map (write_mem_word rounds lib) [(base + fc_addr_odd c, fc_cmd_aa c),
        (base + fc_addr_even c, fc_cmd_55 c), (base + fc_addr_odd c, fc_cmd_a0 c)]))
     (case data of
        [] \<Rightarrow> failM Bad_access
      | d # ds \<Rightarrow> seqM (write_mem_word rounds lib (addr, d)) (program_loop rounds lib base c n (addr + 4) ds))"

definition mpsse_program_block32 ::
  "nat \<Rightarrow> 'd usb \<Rightarrow> nat \<Rightarrow> u32 \<Rightarrow> u32 \<Rightarrow> u32 list \<Rightarrow> flash_cmds \<Rightarrow> ('d, unit) mwact" where
  "mpsse_program_block32 rounds lib nwords base addr data c = seqM (allow_memory rounds lib oscr_write)
     (on_dev (program_loop rounds lib base c nwords addr data))"

section \<open>Opening\<close>

definition mpsse_table :: "nat \<Rightarrow> 'd usb \<Rightarrow> 'd mpsse adapter" where
  "mpsse_table rounds lib = \<lparr>a_name = ''FT2232'', a_close = on_dev (mpsse_close rounds lib),
     a_get_idcode = on_dev (mpsse_get_idcode rounds lib), a_cpu_stopped = on_dev (mpsse_cpu_stopped rounds lib),
     a_stop_cpu = on_dev (mpsse_stop_cpu rounds lib), a_reset_cpu = on_dev (mpsse_reset_cpu rounds lib),
     a_oncd_write = (\<lambda>v r n. on_dev (mpsse_oncd_write rounds lib v r n)),
     a_oncd_read = (\<lambda>r n. on_dev (mpsse_oncd_read rounds lib r n)),
     a_block_words = 999999, a_program_block_words = 999999, a_step_cpu = None, a_run_cpu = None,
     a_read_block = Some (mpsse_read_block rounds lib), a_write_block = Some (mpsse_write_block rounds lib),
     a_write_nwords = Some (mpsse_write_nwords rounds lib),
     a_program_block32 = Some (mpsse_program_block32 rounds lib), a_program_block32_unprotect = None,
     a_program_block32_protect = None, a_program_block64 = None, a_program_block32_micron = None\<rparr>"

text \<open>A control request that must give the result \<open>want\<close>; \<open>False\<close> is the \<open>goto failed\<close>.\<close>

definition control :: "'d usb \<Rightarrow> nat \<Rightarrow> u16 \<Rightarrow> nat \<Rightarrow> nat \<Rightarrow> int \<Rightarrow> ('d, bool) msact" where
  "control lib req val ix len want s =
     (case u_control lib req val ix len (mdev s) of (n, d) \<Rightarrow> (Inr (n = want), s\<lparr>mdev := d\<rparr>))"

primrec all_controls :: "'d usb \<Rightarrow> (nat \<times> u16 \<times> nat \<times> nat \<times> int) list \<Rightarrow> ('d, bool) msact" where
  "all_controls lib [] = retM True"
| "all_controls lib (r # rs) = (case r of (req, val, ix, len, want) \<Rightarrow>
     bindM (control lib req val ix len want) (\<lambda>ok. if ok then all_controls lib rs else retM False))"

definition blank_mpsse :: "'d \<Rightarrow> 'd mpsse" where
  "blank_mpsse d = \<lparr>mdev = d, m_output = [], m_input = replicate INPUT_SIZE 0, bytes_to_read = 0,
     bytes_per_word = 0, fix_high_bit = 0, high_byte_mask = 0, high_bit_mask = 0, high_byte_bits = 0\<rparr>"

text \<open>The latency of the two adapters, and their divisor (not on Windows).\<close>

definition adapter_open_mpsse :: "nat \<Rightarrow> 'd usb \<Rightarrow> ('d, 'd mpsse adapter option) msact" where
  "adapter_open_mpsse rounds lib =
     (case find_device (\<lambda>(vid, pid). vid = 0x15ba \<and> (pid = 0x0004 \<or> pid = 0x002a)) (u_devices lib) 0 of
        None \<Rightarrow> retM None
      | Some (i, pid) \<Rightarrow> bindM (\<lambda>s. case u_open lib i (mdev s) of (b, d) \<Rightarrow> (Inr b, blank_mpsse d)) (\<lambda>opened.
          if \<not> opened then retM None
          else seqM (modM (\<lambda>s. s\<lparr>mdev := u_claim lib (mdev s)\<rparr>))
            (bindM (all_controls lib
                [(0, 0, 1, 0, 0), (11, 0x20b, 1, 0, 0), (9, if pid = 0x0004 then 4 else 0, 1, 0, 0), (10, 0, 1, 1, 1)]) (\<lambda>ok.
             if \<not> ok then seqM (modM (\<lambda>s. s\<lparr>mdev := u_release lib (mdev s)\<rparr>)) (retM None)
             else seqM (seqsM
               [mpsse_reset lib False False True, mpsse_speed lib 1, bulk_write lib [0x85],
                mpsse_send rounds lib 6 31 0 0 False])
               (retM (Some (mpsse_table rounds lib)))))))"

end
