(* ===== verification/Usb_Props.thy ===== *)
theory Usb_Props
  imports Adapter_Usb Bus
begin

text \<open>
  What the packets of the Elvees USB adapter mean. The comment in front of \<open>HDR\<close> gives the format of a
  command: a header with the length of its data and its kind (a plain access, block write, block read,
  end of a block), a register, the data. A block starts with the address in OMAR; each OMDR command of
  it accesses one word, at addresses that go up by four.
\<close>

section \<open>The adapter's reading of a packet\<close>

text \<open>A header as the comment describes it: the kind in bits 1 and 0, the length in bits 5 and 4.\<close>

definition header_len :: "u8 \<Rightarrow> nat" where
  "header_len h = (if h AND 0x30 = 0 then 4 else if h AND 0x30 = 0x30 then 0 else 2)"

function usb_decode :: "u8 list \<Rightarrow> (u8 \<times> u8 \<times> u32) list option" where
  "usb_decode [] = Some []"
| "usb_decode [h] = None"
| "usb_decode (h # r # rest) =
     (if header_len h \<le> length rest
      then map_option ((#) (h AND 3, r, le_word (take (header_len h) rest @ [0, 0, 0, 0])))
        (usb_decode (drop (header_len h) rest))
      else None)"
  by pat_completeness auto
termination
  by (relation "measure length") auto

text \<open>What a sequence of commands does to memory; \<open>a\<close> is the address of the block.\<close>

fun usb_accesses :: "u32 \<Rightarrow> (u8 \<times> u8 \<times> u32) list \<Rightarrow> bus_op list" where
  "usb_accesses a [] = []"
| "usb_accesses a ((k, r, d) # cs) =
     (if k = 0 then usb_accesses a cs
      else if r = 0x0b then usb_accesses d cs
      else if r = 0x0c then BW a d # usb_accesses (a + 4) cs
      else if r = 0x4c then BR a # usb_accesses (a + 4) cs
      else usb_accesses a cs)"

definition packet_accesses :: "u8 list \<Rightarrow> bus_op list option" where
  "packet_accesses wb = map_option (usb_accesses 0) (usb_decode wb)"

section \<open>The packets of the driver\<close>

text \<open>The kinds the driver uses: those of blocks, or those of \<open>disable_block_op\<close>.\<close>

definition kinds_ok :: "'d usb_adapter \<Rightarrow> bool" where
  "kinds_ok s \<longleftrightarrow> (h_wr s, h_rd s, h_end s) \<in>
     {(H_BLKWR, H_BLKRD, H_BLKEND), (H_SNGLWR, H_SNGLRD, H_SNGLEND)}"

definition access :: "usb_cmd \<Rightarrow> u8 \<times> u8 \<times> u32" where
  "access c = (ucast (fst c) AND 3, ucast (fst (snd c)), snd (snd c))"

lemma decode_append:
  assumes "\<forall>c \<in> set cs. header_len (ucast (fst c)) = 4"
  shows "usb_decode (fill_pkts cs @ rest) = map_option ((@) (map access cs)) (usb_decode rest)"
  using assms
proof (induction cs)
  case Nil
  then show ?case
    by (cases "usb_decode rest") (simp_all add: fill_pkts_def)
next
  case (Cons c cs)
  obtain cmd r d where c: "c = (cmd, r, d)"
    by (cases c)
  obtain b0 b1 b2 b3 where d: "le_bytes d = [b0, b1, b2, b3]"
    using le_bytes_four by blast
  have "le_word [b0, b1, b2, b3, 0, 0, 0, 0] = le_word [b0, b1, b2, b3]"
    by (simp add: le_word_def)
  with le_word_bytes [of d] have w: "le_word [b0, b1, b2, b3, 0, 0, 0, 0] = d"
    by (simp add: d)
  then show ?case
    using Cons by (cases "usb_decode rest") (auto simp: fill_pkts_def c fill_pkt_def d access_def)
qed

lemma decode_cmds:
  "\<forall>c \<in> set cs. header_len (ucast (fst c)) = 4 \<Longrightarrow> packet_accesses (fill_pkts cs) = Some (usb_accesses 0 (map access cs))"
  using decode_append [of cs "[]"] by (simp add: packet_accesses_def)

lemma length_fill_pkts: "length (fill_pkts cs) = 6 * length cs"
  by (induction cs) (auto simp: fill_pkts_def fill_pkt_def)

lemma kinds_simps:
  assumes "kinds_ok s"
  shows "header_len (ucast (HDR (H_32 OR h_wr s))) = 4" "header_len (ucast (HDR (H_32 OR h_end s))) = 4"
    "(ucast (HDR (H_32 OR h_wr s)) AND 3 :: u8) = 1" "(ucast (HDR (H_32 OR h_end s)) AND 3 :: u8) = 3"
    "header_len (ucast (HDR (H_32 OR h_rd s))) = 4" "header_len (ucast (HDR (0x38 OR h_rd s))) = 4"
    "header_len (ucast (HDR (0x38 OR h_end s))) = 4"
    "(ucast (HDR (H_32 OR h_rd s)) AND 3 :: u8) = 2" "(ucast (HDR (0x38 OR h_rd s)) AND 3 :: u8) = 2"
    "(ucast (HDR (0x38 OR h_end s)) AND 3 :: u8) = 3"
    "header_len (ucast (HDR H_32)) = 4" "(ucast (HDR H_32) AND 3 :: u8) = 0"
  using assms by (auto simp: kinds_ok_def HDR_def header_len_def)

lemmas access_simps = kinds_simps access_def

text \<open>Memory accesses of the parts of a packet.\<close>

lemma accesses_pairs:
  assumes "kinds_ok s"
  shows "\<exists>b. \<forall>cs. usb_accesses a (map access (write_pairs_pkt s ads) @ cs) =
    map (\<lambda>(a, d). BW a d) ads @ usb_accesses b cs"
proof (induction ads arbitrary: a)
  case Nil
  then show ?case
    by (auto simp: write_pairs_pkt_def)
next
  case (Cons p ads)
  then show ?case
    using assms by (cases p) (simp add: write_pairs_pkt_def write_pair_def access_simps)
qed

lemma accesses_oscr [simp]: "usb_accesses a [access read_oscr] = []"
  by (simp add: read_oscr_def access_def HDR_def)

lemma pairs_headers: "kinds_ok s \<Longrightarrow> \<forall>c \<in> set (write_pairs_pkt s ads). header_len (ucast (fst c)) = 4"
  by (auto simp: write_pairs_pkt_def write_pair_def kinds_simps)

lemma oscr_header: "header_len (ucast (fst read_oscr)) = 4"
  by (simp add: read_oscr_def HDR_def header_len_def)

lemma length_pairs: "length (write_pairs_pkt s ads) = 2 * length ads"
  by (induction ads) (auto simp: write_pairs_pkt_def write_pair_def)

lemma accesses_program:
  assumes "kinds_ok s"
  shows "usb_accesses a (map access (concat (map (\<lambda>ad. write_pairs_pkt s (program_writes base c ad) @
      [(HDR H_32, OnCD_OMDR, 0)]) ads)) @ [access read_oscr]) =
    map (\<lambda>(a, d). BW a d) (concat (map (program_writes base c) ads))"
proof (induction ads arbitrary: a)
  case (Cons p ads)
  have "usb_accesses b (access (HDR H_32, OnCD_OMDR, 0) # cs) = usb_accesses b cs" for b cs
    by (simp add: access_def HDR_def)
  moreover obtain b where "usb_accesses a (map access (write_pairs_pkt s (program_writes base c p)) @ cs) =
      map (\<lambda>(a, d). BW a d) (program_writes base c p) @ usb_accesses b cs" for cs
    using accesses_pairs [OF assms] by blast
  ultimately show ?case
    using Cons by (simp add: append.assoc del: usb_accesses.simps)
qed simp

lemma access_steps:
  "usb_accesses a ((1, 0x0b, d) # cs) = usb_accesses d cs" "usb_accesses a ((2, 0x0b, d) # cs) = usb_accesses d cs"
  "usb_accesses a ((1, 0x0c, d) # cs) = BW a d # usb_accesses (a + 4) cs"
  "usb_accesses a ((3, 0x0c, d) # cs) = BW a d # usb_accesses (a + 4) cs"
  "usb_accesses a ((2, 0x4c, d) # cs) = BR a # usb_accesses (a + 4) cs"
  "usb_accesses a ((3, 0x4c, d) # cs) = BR a # usb_accesses (a + 4) cs"
  by simp_all

text \<open>A block: the address once, then its words.\<close>

lemma accesses_words:
  assumes "kinds_ok s"
  shows "usb_accesses a (map (\<lambda>d. access (HDR (H_32 OR h_wr s), OnCD_OMDR, d)) ds @ cs) =
    map (\<lambda>i. BW (a + 4 * of_nat i) (ds ! i)) [0..<length ds] @
    usb_accesses (a + 4 * of_nat (length ds)) cs"
proof (induction ds arbitrary: a)
  case (Cons d ds)
  have "access (HDR (H_32 OR h_wr s), OnCD_OMDR, d) = (1, 0x0c, d)"
    using assms by (simp add: access_simps)
  then show ?case
    by (simp add: Cons map_upt_Suc access_steps algebra_simps del: upt_Suc usb_accesses.simps)
qed simp

lemma accesses_reads:
  "usb_accesses a (replicate n (2, 0x4c, 0) @ cs) =
    map (\<lambda>i. BR (a + 4 * of_nat i)) [0..<n] @ usb_accesses (a + 4 * of_nat n) cs"
  by (induction n arbitrary: a)
    (simp_all add: map_upt_Suc access_steps algebra_simps del: upt_Suc usb_accesses.simps)

section \<open>The operations\<close>

text \<open>An operation that sends one packet of commands with 32 bits of data, and reads an answer.\<close>

lemma exchange_packet:
  assumes "length cs \<le> k" and "\<forall>c \<in> set cs. header_len (ucast (fst c)) = 4"
  shows "exchange lib (6 * k) cs rlen = bulk_write_read lib (fill_pkts cs) rlen \<and>
    packet_accesses (fill_pkts cs) = Some (usb_accesses 0 (map access cs))"
  using assms by (simp add: exchange_def length_fill_pkts decode_cmds)

lemma write_nwords_packet:
  assumes "kinds_ok s"
  shows "\<exists>wb. usb_write_nwords lib args s = bindM (bulk_write_read lib wb 4) check_oscr s \<and>
    packet_accesses wb = Some (map (\<lambda>(a, d). BW a d) args)"
proof (intro exI conjI)
  let ?cs = "write_pairs_pkt s args @ [read_oscr]"
  have "exchange lib (6 * (2 * length args + 1)) ?cs 4 = bulk_write_read lib (fill_pkts ?cs) 4 \<and>
      packet_accesses (fill_pkts ?cs) = Some (usb_accesses 0 (map access ?cs))"
    using pairs_headers [OF assms] oscr_header by (intro exchange_packet) (auto simp: length_pairs)
  then show "usb_write_nwords lib args s = bindM (bulk_write_read lib (fill_pkts ?cs) 4) check_oscr s"
      and "packet_accesses (fill_pkts ?cs) = Some (map (\<lambda>(a, d). BW a d) args)"
    using accesses_pairs [OF assms, of 0 args]
    by (auto simp: usb_write_nwords_def act_simps algebra_simps simp del: usb_accesses.simps)
qed

lemma program_block32_packet:
  assumes "kinds_ok s" and "n \<le> length data"
  shows "\<exists>wb. usb_program_block32 lib n base addr data c s = bindM (bulk_write_read lib wb 4) check_oscr s \<and>
    packet_accesses wb =
      Some (map (\<lambda>(a, d). BW a d) (concat (map (program_writes base c) (word_pairs n addr data))))"
proof (intro exI conjI)
  let ?cs = "concat (map (\<lambda>ad. write_pairs_pkt s (program_writes base c ad) @ [(HDR H_32, OnCD_OMDR, 0)])
    (word_pairs n addr data)) @ [read_oscr]"
  have "length ?cs = 9 * n + 1"
    by (simp add: length_concat comp_def length_pairs program_writes_def word_pairs_def sum_list_triv)
  moreover have "\<forall>x \<in> set ?cs. header_len (ucast (fst x)) = 4"
    using pairs_headers [OF assms(1)] oscr_header kinds_simps [OF assms(1)] by auto
  ultimately have "exchange lib (6 * (9 * n + 1)) ?cs 4 = bulk_write_read lib (fill_pkts ?cs) 4 \<and>
      packet_accesses (fill_pkts ?cs) = Some (usb_accesses 0 (map access ?cs))"
    by (intro exchange_packet) auto
  then show "usb_program_block32 lib n base addr data c s = bindM (bulk_write_read lib (fill_pkts ?cs) 4) check_oscr s"
      and "packet_accesses (fill_pkts ?cs) =
        Some (map (\<lambda>(a, d). BW a d) (concat (map (program_writes base c) (word_pairs n addr data))))"
    using accesses_program [OF assms(1), of 0 base c "word_pairs n addr data"] assms(2)
    by (auto simp: usb_program_block32_def act_simps algebra_simps simp del: usb_accesses.simps)
qed

lemma write_block_packet:
  assumes "kinds_ok s" and "0 < n" and "n \<le> length data"
  shows "\<exists>wb. usb_write_block lib n addr data s = bindM (bulk_write_read lib wb 4) check_oscr s \<and>
    packet_accesses wb = Some (map (\<lambda>(a, d). BW a d) (word_pairs n addr data))"
proof -
  obtain k where n: "n = Suc k"
    using assms(2) by (cases n) auto
  let ?ds = "take k data"
  let ?cs = "[(HDR (H_32 OR h_wr s), OnCD_OMAR, addr)] @ map (\<lambda>d. (HDR (H_32 OR h_wr s), OnCD_OMDR, d)) ?ds @
     [(HDR (H_32 OR h_end s), OnCD_OMDR, data ! k), read_oscr]"
  have l: "length ?ds = k"
    using assms(3) by (simp add: n)
  have p: "exchange lib (6 * (n + 2)) ?cs 4 = bulk_write_read lib (fill_pkts ?cs) 4 \<and>
      packet_accesses (fill_pkts ?cs) = Some (usb_accesses 0 (map access ?cs))"
    using kinds_simps [OF assms(1)] oscr_header l by (intro exchange_packet) (auto simp: n)
  have "usb_accesses 0 (map access ?cs) = map (\<lambda>(a, d). BW a d) (word_pairs n addr data)"
  proof -
    have "access (HDR (H_32 OR h_wr s), OnCD_OMAR, addr) = (1, 0x0b, addr)"
        "access (HDR (H_32 OR h_end s), OnCD_OMDR, data ! k) = (3, 0x0c, data ! k)"
      using assms(1) by (simp_all add: access_simps)
    then show ?thesis
      using accesses_words [OF assms(1), of addr ?ds] l
      by (auto simp: access_steps word_pairs_def n algebra_simps comp_def simp del: usb_accesses.simps)
  qed
  then show ?thesis
    using p assms(3) by (intro exI [of _ "fill_pkts ?cs"])
      (auto simp: usb_write_block_def act_simps n algebra_simps simp del: usb_accesses.simps)
qed

lemma program_block64_packet:
  assumes "kinds_ok s" and "n \<le> length data"
  shows "\<exists>wb. usb_program_block64 lib n base addr data c s = bindM (bulk_write_read lib wb 4) check_oscr s \<and>
    packet_accesses wb = Some (map (\<lambda>(a, d). BW a d)
      (concat (map (\<lambda>ad. program_writes (base + (fst ad AND 4)) c ad) (word_pairs n addr data))))"
proof (intro exI conjI)
  let ?ads = "concat (map (\<lambda>ad. program_writes (base + (fst ad AND 4)) c ad) (word_pairs n addr data))"
  let ?cs = "write_pairs_pkt s ?ads @ [read_oscr]"
  have "length ?ads = 4 * n"
    by (simp add: length_concat comp_def program_writes_def word_pairs_def sum_list_triv)
  then have "exchange lib (6 * (8 * n + 1)) ?cs 4 = bulk_write_read lib (fill_pkts ?cs) 4 \<and>
      packet_accesses (fill_pkts ?cs) = Some (usb_accesses 0 (map access ?cs))"
    using pairs_headers [OF assms(1)] oscr_header by (intro exchange_packet) (auto simp: length_pairs)
  then show "usb_program_block64 lib n base addr data c s = bindM (bulk_write_read lib (fill_pkts ?cs) 4) check_oscr s"
      and "packet_accesses (fill_pkts ?cs) = Some (map (\<lambda>(a, d). BW a d) ?ads)"
    using accesses_pairs [OF assms(1), of 0 ?ads] assms(2)
    by (auto simp: usb_program_block64_def act_simps algebra_simps simp del: usb_accesses.simps)
qed

text \<open>A block read: two answers, the words and the status.\<close>

definition read_answers :: "'d usb \<Rightarrow> u8 list \<Rightarrow> nat \<Rightarrow> ('d, u32 list) uact" where
  "read_answers lib wb n = bindM (bulk_write_read lib wb (4 * n)) (\<lambda>data.
     bindM (bulk_read lib 4) (\<lambda>rb. seqM (check_oscr rb) (retM (le_words data))))"

lemma read_block_packet:
  assumes "kinds_ok s" and "0 < n"
  shows "\<exists>wb. usb_read_block lib n addr s = read_answers lib wb n s \<and>
    packet_accesses wb = Some (map (\<lambda>i. BR (addr + 4 * of_nat i)) [0..<n])"
proof -
  obtain k where n: "n = Suc k"
    using assms(2) by (cases n) auto
  define t where "t = (if h_rd s = H_BLKRD then H_32 else H_32 OR H_TRST)"
  let ?cs = "[(HDR (t OR h_rd s), OnCD_OMAR, addr)] @ replicate k (HDR (t OR h_rd s), OnCD_OMDR OR IRd_READ, 0) @
    [(HDR (t OR h_end s), OnCD_OMDR OR IRd_READ, 0), read_oscr]"
  have p: "exchange lib (6 * (n + 2)) ?cs (4 * n) = bulk_write_read lib (fill_pkts ?cs) (4 * n) \<and>
      packet_accesses (fill_pkts ?cs) = Some (usb_accesses 0 (map access ?cs))"
    using kinds_simps [OF assms(1)] oscr_header by (intro exchange_packet) (auto simp: n t_def)
  have "usb_accesses 0 (map access ?cs) = map (\<lambda>i. BR (addr + 4 * of_nat i)) [0..<n]"
  proof -
    have "access (HDR (t OR h_rd s), OnCD_OMAR, addr) = (2, 0x0b, addr)"
        "access (HDR (t OR h_rd s), OnCD_OMDR OR IRd_READ, 0) = (2, 0x4c, 0)"
        "access (HDR (t OR h_end s), OnCD_OMDR OR IRd_READ, 0) = (3, 0x4c, 0)"
      using assms(1) by (auto simp: kinds_ok_def access_def HDR_def t_def)
    then show ?thesis
      using accesses_reads [of addr k]
      by (auto simp: access_steps n algebra_simps simp del: usb_accesses.simps)
  qed
  then show ?thesis
    using p by (intro exI [of _ "fill_pkts ?cs"])
      (auto simp: usb_read_block_def read_answers_def act_simps n t_def algebra_simps simp del: usb_accesses.simps)
qed


definition echo_usb :: "u8 list usb" where
  "echo_usb = \<lparr>u_devices = [(0x0547, 0x1002)], u_open = (\<lambda>_ d. (True, d)), u_claim = id, u_release = id,
     u_control = (\<lambda>_ _ _ _ d. (0, d)), u_write = (\<lambda>_ wb d. (Some (length wb), d @ wb)),
     u_read = (\<lambda>_ n d. (Some (replicate n 0xff), d))\<rparr>"


end
