(* ===== verification/Mpsse_Props.thy ===== *)
theory Mpsse_Props
  imports Adapter_Mpsse Tap Safety
begin

text \<open>
  What the packets of the FT2232 driver mean. The commands of the MPSSE engine that the driver
  uses, as the comments of \<open>mpsse_send\<close> give them: clocking bits of a byte out on TMS, TDI being
  held at bit 7, and clocking bytes or bits out on TDI, TMS staying as it is, with or without
  reading TDO. Read bits enter a byte from above.
\<close>

section \<open>Commands and the clocks they make\<close>

datatype mcmd = Tms bool nat u8 | Data_bytes bool "u8 list" | Data_bits bool nat u8

fun enc :: "mcmd \<Rightarrow> u8 list" where
  "enc (Tms r k b) = [0x4b + rd_flag r, of_nat (k - 1), b]"
| "enc (Data_bytes r bs) = [0x19 + rd_flag r, of_nat (length bs - 1), of_nat ((length bs - 1) div 256)] @ bs"
| "enc (Data_bits r k b) = [0x1b + rd_flag r, of_nat (k - 1), b]"

fun mcmd_ok :: "mcmd \<Rightarrow> bool" where
  "mcmd_ok (Tms r k b) \<longleftrightarrow> 1 \<le> k \<and> k \<le> 7"
| "mcmd_ok (Data_bytes r bs) \<longleftrightarrow> 1 \<le> length bs \<and> length bs \<le> 0x10000"
| "mcmd_ok (Data_bits r k b) \<longleftrightarrow> 1 \<le> k \<and> k \<le> 8"

text \<open>The engine reads its commands one after the other.\<close>

function mpsse_parse :: "u8 list \<Rightarrow> mcmd list option" where
  "mpsse_parse bs =
     (if bs = [] then Some []
      else if length bs < 3 then None
      else let c = bs ! 0; n = bs ! 1; b = bs ! 2; rest = drop 3 bs; k = unat n + 256 * unat b + 1 in
        if c = 0x4b \<or> c = 0x6b then map_option ((#) (Tms (c = 0x6b) (unat n + 1) b)) (mpsse_parse rest)
        else if c = 0x1b \<or> c = 0x3b then map_option ((#) (Data_bits (c = 0x3b) (unat n + 1) b)) (mpsse_parse rest)
        else if (c = 0x19 \<or> c = 0x39) \<and> k \<le> length rest then
          map_option ((#) (Data_bytes (c = 0x39) (take k rest))) (mpsse_parse (drop k rest))
        else None)"
  by pat_completeness auto
termination
  by (relation "measure length") auto

declare mpsse_parse.simps [simp del]

lemma parse_Nil [simp]: "mpsse_parse [] = Some []"
  by (simp add: mpsse_parse.simps)

lemma parse_Cons:
  "mpsse_parse (c # n # b # rest) = (let k = unat n + 256 * unat b + 1 in
     if c = 0x4b \<or> c = 0x6b then map_option ((#) (Tms (c = 0x6b) (unat n + 1) b)) (mpsse_parse rest)
     else if c = 0x1b \<or> c = 0x3b then map_option ((#) (Data_bits (c = 0x3b) (unat n + 1) b)) (mpsse_parse rest)
     else if (c = 0x19 \<or> c = 0x39) \<and> k \<le> length rest then
       map_option ((#) (Data_bytes (c = 0x39) (take k rest))) (mpsse_parse (drop k rest))
     else None)"
  by (subst mpsse_parse.simps) (simp add: Let_def)

lemma parse_enc:
  assumes "mcmd_ok c"
  shows "mpsse_parse (enc c @ rest) = map_option ((#) c) (mpsse_parse rest)"
proof (cases c)
  case (Tms r k b)
  then obtain j where k: "k = Suc j" and "j < 8"
    using assms by (cases k) simp_all
  then have "unat (of_nat j :: u8) = j"
    by (simp add: unat_of_nat)
  then show ?thesis
    by (simp add: Tms k rd_flag_def parse_Cons del: of_nat_Suc)
next
  case (Data_bits r k b)
  then obtain j where k: "k = Suc j" and "j < 8"
    using assms by (cases k) simp_all
  then have "unat (of_nat j :: u8) = j"
    by (simp add: unat_of_nat)
  then show ?thesis
    by (simp add: Data_bits k rd_flag_def parse_Cons del: of_nat_Suc)
next
  case (Data_bytes r bs)
  then obtain j where k: "length bs = Suc j" and "j < 65536"
    using assms by (cases "length bs") simp_all
  then have "unat (of_nat j :: u8) + 256 * unat (of_nat (j div 256) :: u8) = j"
    by (simp add: unat_of_nat div_less_iff_less_mult)
  then show ?thesis
    by (simp add: Data_bytes k rd_flag_def parse_Cons Let_def del: of_nat_Suc)
qed

lemma parse_encs: "list_all mcmd_ok cs \<Longrightarrow> mpsse_parse (concat (map enc cs)) = Some cs"
  by (induction cs) (simp_all add: parse_enc)

text \<open>The clocks, given the level of TMS before: pairs of TMS and TDI; and the level after.\<close>

definition byte_bits :: "nat \<Rightarrow> u8 \<Rightarrow> bool list" where
  "byte_bits k b = map (bit b) [0..<k]"

fun cmd_clocks :: "bool \<Rightarrow> mcmd \<Rightarrow> (bool \<times> bool) list" where
  "cmd_clocks l (Tms r k b) = map (\<lambda>t. (t, bit b 7)) (byte_bits k b)"
| "cmd_clocks l (Data_bytes r bs) = map (\<lambda>t. (l, t)) (concat (map (byte_bits 8) bs))"
| "cmd_clocks l (Data_bits r k b) = map (\<lambda>t. (l, t)) (byte_bits k b)"

fun cmd_level :: "bool \<Rightarrow> mcmd \<Rightarrow> bool" where
  "cmd_level l (Tms r k b) = bit b (k - 1)"
| "cmd_level l _ = l"

primrec cmds_clocks :: "bool \<Rightarrow> mcmd list \<Rightarrow> (bool \<times> bool) list" where
  "cmds_clocks l [] = []"
| "cmds_clocks l (c # cs) = cmd_clocks l c @ cmds_clocks (cmd_level l c) cs"

lemma cmds_clocks_append:
  "cmds_clocks l (cs @ ds) = cmds_clocks l cs @ cmds_clocks (foldl cmd_level l cs) ds"
  by (induction cs arbitrary: l) simp_all

section \<open>The commands of a packet\<close>

definition tms_cmds :: "nat \<Rightarrow> u32 \<Rightarrow> mcmd list" where
  "tms_cmds k t = (if k = 0 then [] else if k < 8 then [Tms False k (ucast t)]
     else [Tms False 7 (ucast (t AND 0x7f)), Tms False (k - 7) (ucast (drop_bit 7 t))])"

definition data_cmds :: "nat \<Rightarrow> u64 \<Rightarrow> bool \<Rightarrow> mcmd list" where
  "data_cmds n tdi r = (let nb = (n - 1) div 8; l = (n - 1) mod 8 in
     (if nb > 0 then [Data_bytes r (tdi_bytes nb tdi)] else []) @
     (if l > 0 then [Data_bits r l (ucast (drop_bit (8 * nb) tdi))] else []) @
     [Tms r 2 (ucast (push_bit 7 (drop_bit (n - 1) tdi) OR 1 OR push_bit 1 1))])"

definition send_cmds :: "nat \<Rightarrow> u32 \<Rightarrow> nat \<Rightarrow> u64 \<Rightarrow> bool \<Rightarrow> mcmd list" where
  "send_cmds k t n tdi r =
     (if n > 0 then tms_cmds (k + 3) (t OR push_bit k 1) @ data_cmds n tdi r else tms_cmds k t)"

lemma length_tdi_bytes [simp]: "length (tdi_bytes n tdi) = n"
  by (simp add: tdi_bytes_def)

lemma send_cmds_ok:
  assumes "k \<le> 11" and "n \<le> 64"
  shows "list_all mcmd_ok (send_cmds k t n tdi r)"
proof -
  have "(n - 1) div 8 < 8"
    using assms(2) by (simp add: less_mult_imp_div_less)
  then show ?thesis
    using assms by (auto simp: send_cmds_def tms_cmds_def data_cmds_def Let_def)
qed

lemma length_send_cmds:
  assumes "k \<le> 11" and "n \<le> 64"
  shows "length (concat (map enc (send_cmds k t n tdi r))) \<le> 23"
proof -
  have "(n - 1) div 8 < 8"
    using assms(2) by (simp add: less_mult_imp_div_less)
  then show ?thesis
    by (auto simp: send_cmds_def tms_cmds_def data_cmds_def Let_def)
qed

text \<open>The bits: TMS of the prolog, and TDI of the data.\<close>

lemma byte_bits_at:
  assumes "l \<le> 8"
  shows "byte_bits l (ucast (drop_bit a tdi)) = map (bit tdi) [a..<a + l]"
  using assms by (intro nth_equalityI) (simp_all add: byte_bits_def bit_simps)

lemma bits_of_bytes:
  assumes "n \<le> 8"
  shows "concat (map (byte_bits 8) (tdi_bytes n tdi)) = low_bits (8 * n) tdi"
  using assms
proof (induction n)
  case (Suc n)
  have "byte_bits 8 (ucast (drop_bit (8 * n) tdi)) = map (bit tdi) [8 * n..<8 * n + 8]"
    by (rule byte_bits_at) simp
  then have "low_bits (8 * n) tdi @ byte_bits 8 (ucast (drop_bit (8 * n) tdi)) = low_bits (8 * Suc n) tdi"
    using upt_add_eq_append [of 0 "8 * n" 8] by (simp add: low_bits_def add.commute)
  then show ?case
    using Suc by (simp add: tdi_bytes_def)
qed (simp add: tdi_bytes_def low_bits_def)

lemma low_bits_split:
  assumes "a \<le> n"
  shows "low_bits n w = low_bits a w @ map (bit w) [a..<n]"
  using upt_add_eq_append [of 0 a "n - a"] assms by (simp add: low_bits_def)

lemma shift_clocks_snoc: "shift_clocks (bs @ [b]) = map (\<lambda>t. (False, t)) bs @ [(True, b)]"
  by (simp add: shift_clocks_def)

lemma data_clocks:
  assumes "1 \<le> n" and "n \<le> 64"
  shows "cmds_clocks False (data_cmds n tdi r) = shift_clocks (low_bits n tdi) @ [(True, bit tdi (n - 1))]"
proof -
  let ?nb = "(n - 1) div 8" and ?l = "(n - 1) mod 8"
  have n: "8 * ?nb + ?l = n - 1" "?nb < 8" "?l < 8"
    using assms(2) by (simp_all add: less_mult_imp_div_less)
  let ?last = "ucast (push_bit 7 (drop_bit (n - 1) tdi) OR 1 OR push_bit 1 1) :: u8"
  have last: "cmd_clocks x (Tms r 2 ?last) = [(True, bit tdi (n - 1)), (True, bit tdi (n - 1))]" for x
    by (simp add: byte_bits_def bit_simps numeral_2_eq_2)
  have bytes: "cmds_clocks False (if ?nb > 0 then [Data_bytes r (tdi_bytes ?nb tdi)] else []) =
      map (\<lambda>t. (False, t)) (low_bits (8 * ?nb) tdi)"
    using bits_of_bytes [of ?nb tdi] n(2) by (auto simp: low_bits_def)
  have "byte_bits ?l (ucast (drop_bit (8 * ?nb) tdi)) = map (bit tdi) [8 * ?nb..<n - 1]"
    using byte_bits_at [of ?l "8 * ?nb"] n(1,3) by simp
  then have bits: "cmds_clocks False (if ?l > 0 then [Data_bits r ?l (ucast (drop_bit (8 * ?nb) tdi))] else []) =
      map (\<lambda>t. (False, t)) (map (bit tdi) [8 * ?nb..<n - 1])"
    using n(1) by auto
  have "low_bits n tdi = low_bits (n - 1) tdi @ [bit tdi (n - 1)]"
    using assms(1) by (cases n) (simp_all add: low_bits_def)
  then have "shift_clocks (low_bits n tdi) = map (\<lambda>t. (False, t)) (low_bits (n - 1) tdi) @ [(True, bit tdi (n - 1))]"
    by (simp only: shift_clocks_snoc)
  also have "low_bits (n - 1) tdi = low_bits (8 * ?nb) tdi @ map (bit tdi) [8 * ?nb..<n - 1]"
    by (rule low_bits_split) simp
  finally have "shift_clocks (low_bits n tdi) =
      map (\<lambda>t. (False, t)) (low_bits (8 * ?nb) tdi) @ map (\<lambda>t. (False, t)) (map (bit tdi) [8 * ?nb..<n - 1]) @
      [(True, bit tdi (n - 1))]"
    by simp
  moreover have "foldl cmd_level False (if ?nb > 0 then [Data_bytes r (tdi_bytes ?nb tdi)] else []) = False"
    "foldl cmd_level False (if ?l > 0 then [Data_bits r ?l (ucast (drop_bit (8 * ?nb) tdi))] else []) = False"
    by simp_all
  ultimately show ?thesis
    unfolding data_cmds_def Let_def cmds_clocks_append bytes bits
    by (simp only: bits cmds_clocks.simps last append.simps append_assoc append_Nil2)
qed


section \<open>The code builds these commands\<close>

text \<open>How the code lays out the answer of a read of \<open>n\<close> bits.\<close>

definition data_bytes :: "nat \<Rightarrow> nat" where
  "data_bytes n = (n - 1) div 8 + (if (n - 1) mod 8 > 0 then 1 else 0)"

definition expected :: "nat \<Rightarrow> 'd mpsse \<Rightarrow> 'd mpsse" where
  "expected n s = s\<lparr>high_byte_bits := (n - 1) mod 8, fix_high_bit := push_bit (8 * data_bytes n) 0x40,
     high_byte_mask := (if (n - 1) mod 8 > 0 then push_bit (8 * (data_bytes n - 1)) 0xff else 0),
     high_bit_mask := push_bit (n - 1) 1,
     bytes_per_word := data_bytes n + 1, bytes_to_read := bytes_to_read s + data_bytes n + 1\<rparr>"

text \<open>A packet that is not read still changes one mask if it has bits besides whole bytes.\<close>

definition unread :: "nat \<Rightarrow> 'd mpsse \<Rightarrow> 'd mpsse" where
  "unread n s = (if n > 0 \<and> (n - 1) mod 8 > 0
     then s\<lparr>high_byte_mask := push_bit (8 * (bytes_per_word s - 1)) 0xff\<rparr> else s)"

definition sent :: "nat \<Rightarrow> u32 \<Rightarrow> nat \<Rightarrow> u64 \<Rightarrow> bool \<Rightarrow> 'd mpsse \<Rightarrow> 'd mpsse" where
  "sent k t n tdi r s = (if r \<and> n > 0 then expected n s else unread n s)
     \<lparr>m_output := m_output s @ concat (map enc (send_cmds k t n tdi r))\<rparr>"

lemma send_prolog_run:
  assumes "length (m_output s) + 6 \<le> OUTPUT_SIZE"
  shows "send_prolog k t s = (Inr (), s\<lparr>m_output := m_output s @ concat (map enc (tms_cmds k t))\<rparr>)"
  using assms by (simp add: send_prolog_def whenM_apply put_output_def tms_cmds_def rd_flag_def)

lemma data_bytes_bound:
  assumes "n \<le> 8 * k + 1"
  shows "data_bytes n \<le> k"
proof -
  define q where "q = (n - 1) div 8"
  define l where "l = (n - 1) mod 8"
  have "8 * q + l \<le> 8 * k"
    using assms by (simp add: q_def l_def)
  then have "q + (if l > 0 then 1 else 0) \<le> k"
    by (simp split: if_split)
  then show ?thesis
    by (simp add: data_bytes_def q_def l_def)
qed

lemma send_bytes_run:
  assumes "length (m_output s) + 3 + n \<le> OUTPUT_SIZE"
  shows "send_bytes n tdi r s = (Inr (), s\<lparr>m_output := m_output s @
    (if n > 0 then enc (Data_bytes r (tdi_bytes n tdi)) else [])\<rparr>)"
  using assms by (simp add: send_bytes_def whenM_apply put_output_def rd_flag_def)

lemma send_bits_run:
  assumes "length (m_output s) + 3 \<le> OUTPUT_SIZE" and "1 \<le> bytes_per_word s" and "bytes_per_word s \<le> 8"
  shows "send_bits l tdi r s = (Inr (), (if l > 0
    then s\<lparr>m_output := m_output s @ enc (Data_bits r l (ucast tdi)),
           high_byte_mask := push_bit (8 * (bytes_per_word s - 1)) 0xff\<rparr> else s))"
proof -
  have "nat ((int (bytes_per_word s) - 1) * 8) = 8 * (bytes_per_word s - 1)"
    using assms(2) by (simp add: nat_mult_distrib nat_diff_distrib)
  then show ?thesis
    using assms by (simp add: send_bits_def act_simps put_output_def shl64_def rd_flag_def)
qed

lemma send_last_run:
  assumes "length (m_output s) + 3 \<le> OUTPUT_SIZE" and "r \<Longrightarrow> bytes_per_word s \<le> 7"
  shows "send_last tdi r s = (Inr (), (if r
    then s\<lparr>fix_high_bit := push_bit (8 * bytes_per_word s) 0x40, bytes_per_word := bytes_per_word s + 1,
           bytes_to_read := bytes_to_read s + 1\<rparr> else s)
    \<lparr>m_output := m_output s @ enc (Tms r 2 (ucast (push_bit 7 tdi OR 1 OR push_bit 1 1)))\<rparr>)"
  using assms by (cases r) (simp_all add: send_last_def act_simps put_output_def shl64_def rd_flag_def
      nat_mult_distrib mult.commute [of _ 8])

lemma send_data_run:
  assumes "length (m_output s) + 17 \<le> OUTPUT_SIZE" and "1 \<le> n" and "n \<le> 64"
    and "r \<Longrightarrow> n \<le> 57" and "\<not> r \<Longrightarrow> 1 \<le> bytes_per_word s \<and> bytes_per_word s \<le> 8"
  shows "send_data n tdi r s = (Inr (), (if r then expected n s else unread n s)
     \<lparr>m_output := m_output s @ concat (map enc (data_cmds n tdi r))\<rparr>)"
proof -
  let ?nb = "(n - 1) div 8" and ?l = "(n - 1) mod 8"
  define s1 where "s1 = (if r then s\<lparr>high_byte_bits := ?l, fix_high_bit := 0, high_byte_mask := 0,
    bytes_per_word := data_bytes n, bytes_to_read := bytes_to_read s + data_bytes n\<rparr> else s)"
  have s1: "whenM r (expect_reply ?nb ?l) s = (Inr (), s1)"
    by (simp add: whenM_apply expect_reply_def modM_apply s1_def Let_def data_bytes_def)
  have nb: "?nb \<le> 7"
    using assms(3) by auto
  have bpw: "r \<Longrightarrow> data_bytes n \<le> 7" "r \<Longrightarrow> ?l > 0 \<Longrightarrow> 1 \<le> data_bytes n"
    using assms(4) data_bytes_bound [of n 7] by (auto simp: data_bytes_def)
  have ok: "?l > 0 \<Longrightarrow> 1 \<le> bytes_per_word s1 \<and> bytes_per_word s1 \<le> 8"
    using bpw assms(5) by (cases r) (auto simp: s1_def)
  have last: "drop_bit ?l (drop_bit (8 * ?nb) tdi) = drop_bit (n - 1) tdi"
    by (simp add: add.commute)
  define s2 where "s2 = s1\<lparr>m_output := m_output s @ (if ?nb > 0 then enc (Data_bytes r (tdi_bytes ?nb tdi)) else [])\<rparr>"
  have s2: "send_bytes ?nb tdi r s1 = (Inr (), s2)"
    using assms(1) nb by (subst send_bytes_run) (simp_all add: s1_def s2_def)
  define s3 where "s3 = (if ?l > 0
    then s2\<lparr>m_output := m_output s2 @ enc (Data_bits r ?l (ucast (drop_bit (8 * ?nb) tdi))),
            high_byte_mask := push_bit (8 * (bytes_per_word s1 - 1)) 0xff\<rparr> else s2)"
  have len2: "length (m_output s2) + 6 \<le> OUTPUT_SIZE"
    using assms(1) nb by (simp add: s2_def)
  have s3: "send_bits ?l (drop_bit (8 * ?nb) tdi) r s2 = (Inr (), s3)"
  proof (cases "?l > 0")
    case True
    then show ?thesis
      using ok len2 by (subst send_bits_run) (simp_all add: s2_def s3_def)
  next
    case False
    then show ?thesis
      by (simp add: send_bits_def whenM_apply s3_def)
  qed
  define s4 where "s4 = (if r then s3\<lparr>fix_high_bit := push_bit (8 * bytes_per_word s1) 0x40,
      bytes_per_word := bytes_per_word s1 + 1, bytes_to_read := bytes_to_read s1 + 1\<rparr> else s3)
    \<lparr>m_output := m_output s3 @ enc (Tms r 2 (ucast (push_bit 7 (drop_bit (n - 1) tdi) OR 1 OR push_bit 1 1)))\<rparr>"
  have len3: "length (m_output s3) + 3 \<le> OUTPUT_SIZE"
    using len2 by (simp add: s3_def)
  have b3: "bytes_per_word s3 = bytes_per_word s1" "bytes_to_read s3 = bytes_to_read s1"
    by (simp_all add: s3_def s2_def)
  have s4: "send_last (drop_bit (n - 1) tdi) r s3 = (Inr (), s4)"
    using len3 bpw(1) by (subst send_last_run) (simp_all add: b3 s4_def s1_def)
  have s5: "whenM r (bindM (shl64 1 (int n - 1)) (\<lambda>m. modM (\<lambda>s. s\<lparr>high_bit_mask := m\<rparr>))) s4 =
      (Inr (), if r then s4\<lparr>high_bit_mask := push_bit (n - 1) 1\<rparr> else s4)"
    using assms(2,3) by (simp add: act_simps shl64_def nat_diff_distrib)
  have "send_data n tdi r s = (Inr (), if r then s4\<lparr>high_bit_mask := push_bit (n - 1) 1\<rparr> else s4)"
    unfolding send_data_def Let_def last
    by (simp only: seqsM.simps seqM_apply retM_apply s1 s2 s3 s4 s5 prod.case sum.case)
  also have "\<dots> = (Inr (), (if r then expected n s else unread n s)
     \<lparr>m_output := m_output s @ concat (map enc (data_cmds n tdi r))\<rparr>)"
    using assms(2) by (cases r; cases "?l > 0"; cases "?nb > 0")
      (simp_all only: s4_def s3_def s2_def s1_def expected_def unread_def data_cmds_def Let_def if_True if_False,
       simp_all)
  finally show ?thesis .
qed

lemma not_full: "length out + 23 \<le> OUTPUT_SIZE \<Longrightarrow> \<not> OUTPUT_SIZE - 23 < length out"
  by simp

lemma mpsse_send_run:
  assumes "length (m_output s) + 23 \<le> OUTPUT_SIZE" and "k \<le> 11" and "n \<le> 64"
    and "r \<Longrightarrow> n \<le> 57" and "\<not> r \<Longrightarrow> n > 0 \<Longrightarrow> 1 \<le> bytes_per_word s \<and> bytes_per_word s \<le> 8"
  shows "mpsse_send rounds lib k t n tdi r s = (Inr (), sent k t n tdi r s)"
proof (cases "n > 0")
  case True
  define s1 where "s1 = s\<lparr>m_output := m_output s @ concat (map enc (tms_cmds (k + 3) (t OR push_bit k 1)))\<rparr>"
  have s1: "send_prolog (k + 3) (t OR push_bit k 1) s = (Inr (), s1)"
    unfolding s1_def using assms(1) by (intro send_prolog_run) simp
  have len: "length (m_output s1) + 17 \<le> OUTPUT_SIZE"
    using assms(1) by (simp add: s1_def tms_cmds_def)
  have s2: "send_data n tdi r s1 = (Inr (), (if r then expected n s1 else unread n s1)
      \<lparr>m_output := m_output s1 @ concat (map enc (data_cmds n tdi r))\<rparr>)"
    using True assms(3-5) len by (intro send_data_run) (simp_all add: s1_def)
  have "mpsse_send rounds lib k t n tdi r s = send_data n tdi r s1"
    using True not_full [OF assms(1)] by (simp add: mpsse_send_def act_simps s1 del: push_bit_of_1)
  also have "\<dots> = (Inr (), sent k t n tdi r s)"
    using True unfolding s2
    by (simp add: s1_def sent_def send_cmds_def expected_def unread_def del: push_bit_of_1)
  finally show ?thesis .
next
  case False
  have "send_prolog k t s = (Inr (), s\<lparr>m_output := m_output s @ concat (map enc (tms_cmds k t))\<rparr>)"
    using assms(1) by (intro send_prolog_run) simp
  then show ?thesis
    using False not_full [OF assms(1)] by (simp add: mpsse_send_def act_simps sent_def send_cmds_def unread_def)
qed

section \<open>The packets are scans\<close>

text \<open>What a packet of the driver does at a parked port: a scan, or a reset and a scan.\<close>

definition packet_scan :: "nat \<Rightarrow> 'c scan_chip \<Rightarrow> bool list \<Rightarrow> 'c \<Rightarrow> bool list \<times> 'c" where
  "packet_scan k C = (if k = 0 then scan_dr C else scan_ir C)"

lemma prolog_clocks:
  "cmds_clocks l (tms_cmds 3 (0 OR push_bit 0 1)) = [(True, False), (False, False), (False, False)]"
  "cmds_clocks l (tms_cmds 4 (1 OR push_bit 1 1)) = [(True, False), (True, False), (False, False), (False, False)]"
  "foldl cmd_level l (tms_cmds 3 (0 OR push_bit 0 1)) = False"
  "foldl cmd_level l (tms_cmds 4 (1 OR push_bit 1 1)) = False"
  by (cases l; code_simp)+

lemma packet_clocks:
  assumes "k = 0 \<and> t = 0 \<or> k = 1 \<and> t = 1" and "1 \<le> n" and "n \<le> 64" and "parked (tap_state p)"
  shows "clocks C (cmds_clocks l (send_cmds k t n tdi r)) p =
    (replicate (3 + k) False @ fst (packet_scan k C (low_bits n tdi) (the_chip p)) @ [False],
     \<lparr>tap_state = (if k = 0 then Update_DR else Update_IR),
      the_chip = snd (packet_scan k C (low_bits n tdi) (the_chip p))\<rparr>)"
proof -
  have bs: "low_bits n tdi \<noteq> []"
    using assms(2) by (simp add: low_bits_def)
  note data = data_clocks [OF assms(2,3), of tdi r]
  from assms(1) show ?thesis
  proof (elim disjE conjE)
    assume k: "k = 0" "t = 0"
    have "cmds_clocks l (send_cmds k t n tdi r) = [(True, False), (False, False), (False, False)] @
        shift_clocks (low_bits n tdi) @ [(True, bit tdi (n - 1))]"
      using assms(2) prolog_clocks(1,3) [of l] data by (simp add: k send_cmds_def cmds_clocks_append)
    then show ?thesis
      by (simp only: dr_scan_run [OF assms(4) bs]) (simp add: k packet_scan_def numeral_eq_Suc)
  next
    assume k: "k = 1" "t = 1"
    have "cmds_clocks l (send_cmds k t n tdi r) = [(True, False), (True, False), (False, False), (False, False)] @
        shift_clocks (low_bits n tdi) @ [(True, bit tdi (n - 1))]"
      using assms(2) prolog_clocks(2,4) [of l] data by (simp add: k send_cmds_def cmds_clocks_append)
    then show ?thesis
      by (simp only: ir_scan_run [OF assms(4) bs]) (simp add: k packet_scan_def numeral_eq_Suc)
  qed
qed

lemma length_packet_scan [simp]: "length (fst (packet_scan k C bs c)) = length bs"
  by (simp add: packet_scan_def)

section \<open>The bits of the answer\<close>

text \<open>
  How the bits \<open>o\<close> that were read lie in the received word: whole bytes; then \<open>l\<close> bits at the
  upper end of a byte; the last one in bit 6 of the byte after.
\<close>

definition reply_layout :: "nat \<Rightarrow> (nat \<Rightarrow> bool) \<Rightarrow> u64 \<Rightarrow> bool" where
  "reply_layout n ob w \<longleftrightarrow> (let nb = (n - 1) div 8; l = (n - 1) mod 8 in
     (\<forall>i < 8 * nb. bit w i = ob i) \<and> (\<forall>j < l. bit w (8 * nb + (8 - l) + j) = ob (8 * nb + j)) \<and>
     bit w (8 * data_bytes n + 6) = ob (n - 1))"

lemma bit_byte_mask: "bit (push_bit a 0xff :: u64) i \<longleftrightarrow> a \<le> i \<and> i < a + 8 \<and> i < 64"
proof -
  have "(0xff :: u64) = mask 8"
    by (simp add: mask_eq_exp_minus_1)
  show ?thesis
    unfolding \<open>0xff = mask 8\<close> by (auto simp: bit_simps)
qed

lemma and_bit_mask:
  assumes "a + 6 < 64"
  shows "w AND (push_bit a 0x40 :: u64) \<noteq> 0 \<longleftrightarrow> bit w (a + 6)"
proof -
  have "(push_bit a 0x40 :: u64) = push_bit (a + 6) 1"
    by (simp add: push_bit_eq_mult power_add)
  then have "w AND (push_bit a 0x40 :: u64) = (if bit w (a + 6) then push_bit (a + 6) 1 else 0)"
    by (intro bit_word_eqI) (auto simp: bit_simps)
  moreover have "(push_bit (a + 6) 1 :: u64) \<noteq> 0"
    using assms by (simp add: push_bit_eq_0_iff)
  ultimately show ?thesis
    by simp
qed

lemma fix_recovers:
  assumes "1 \<le> n" and "n \<le> 57" and "reply_layout n ob w"
  shows "bit (mpsse_fix_data (sent k t n tdi True s) w) i \<longleftrightarrow> i < n \<and> ob i"
proof -
  define nb where "nb = (n - 1) div 8"
  define l where "l = (n - 1) mod 8"
  define B where "B = data_bytes n"
  define u where "u = sent k t n tdi True s"
  have n: "n - 1 = 8 * nb + l" "l < 8" "n = 8 * nb + l + 1"
    using assms(1) by (simp_all add: nb_def l_def)
  have B: "B = (if l > 0 then nb + 1 else nb)" "B \<le> 7"
    using data_bytes_bound [of n 7] assms(2) by (simp_all add: B_def data_bytes_def nb_def l_def)
  have lay: "\<And>i. i < 8 * nb \<Longrightarrow> bit w i = ob i" "\<And>j. j < l \<Longrightarrow> bit w (8 * nb + (8 - l) + j) = ob (8 * nb + j)"
      "bit w (8 * B + 6) = ob (n - 1)"
    using assms(3) by (simp_all add: reply_layout_def Let_def nb_def l_def B_def)
  have u: "high_byte_bits u = l" "fix_high_bit u = push_bit (8 * B) 0x40" "high_bit_mask u = push_bit (n - 1) 1"
      "high_byte_mask u = (if l > 0 then push_bit (8 * nb) 0xff else 0)"
    using assms(1) B(1) by (auto simp: u_def sent_def expected_def l_def B_def nb_def)
  define m where "m = (push_bit (8 * nb) 0xff :: u64)"
  have m: "bit m i \<longleftrightarrow> 8 * nb \<le> i \<and> i < 8 * nb + 8 \<and> i < 64" for i
    unfolding m_def by (rule bit_byte_mask)
  define x where "x = (if l > 0 then (w AND NOT m) OR (m AND drop_bit (8 - l) (w AND m)) else w)"
  have x: "bit x j \<longleftrightarrow> ob j" if "j < n - 1" for j
  proof (cases "j < 8 * nb")
    case True
    then show ?thesis
      using lay(1) that n assms(2) by (auto simp: x_def bit_simps m)
  next
    case False
    define j' where "j' = j - 8 * nb"
    have j: "j = 8 * nb + j'" "j' < l"
      using False that n(1) by (simp_all add: j'_def)
    have "8 * nb + 8 \<le> 64"
      using B j(2) by (simp split: if_splits)
    then show ?thesis
      using lay(2) [OF j(2)] j n(2) by (auto simp: x_def bit_simps m add_ac)
  qed
  have top: "w AND fix_high_bit u \<noteq> 0 \<longleftrightarrow> ob (n - 1)"
    unfolding u lay(3) [symmetric] using B(2) by (intro and_bit_mask) simp
  have "mpsse_fix_data u w = (if ob (n - 1) then (x AND mask (n - 1)) OR push_bit (n - 1) 1 else x AND mask (n - 1))"
    unfolding mpsse_fix_data_def Let_def top unfolding u by (simp add: x_def m_def mask_eq_exp_minus_1)
  then show ?thesis
    using x assms(2) n(3) unfolding u_def [symmetric] by (auto simp: bit_simps less_Suc_eq)
qed

text \<open>
  C19: the corrections that \<open>mpsse_fix_data\<close> makes with the masks that
  \<open>mpsse_send\<close> left behind undo the layout of the answer, for reads of up to 57 bits: the result
  is the bits that were read, in their order, and zeroes above.
\<close>

theorem mpsse_fix_recovers:
  assumes "1 \<le> n" and "n \<le> 57" and "reply_layout n ob w"
  shows "bit (mpsse_fix_data (sent k t n tdi True s) w) i \<longleftrightarrow> i < n \<and> ob i"
  using assms by (rule fix_recovers)

lemma mpsse_fix_recovers_witness:
  "\<forall>i. bit (mpsse_fix_data (sent 1 1 4 5 True (blank_mpsse ())) 0x40a0) i \<longleftrightarrow> i < 4 \<and> bit (0xd :: u8) i"
proof
  fix i
  have layout: "reply_layout 4 (bit (0xd :: u8)) 0x40a0"
    by code_simp
  show "bit (mpsse_fix_data (sent 1 1 4 5 True (blank_mpsse ())) 0x40a0) i \<longleftrightarrow> i < 4 \<and> bit (0xd :: u8) i"
    by (rule mpsse_fix_recovers [OF _ _ layout]) simp_all
qed

text \<open>
  C12: with room in the buffer, \<open>mpsse_send\<close> appends bytes that the MPSSE
  engine reads as commands whose clocks perform a scan: of the data register without a prolog,
  of the instruction register with the prolog 1. On any chip and from any parked state of its
  port the bits of \<open>tdi\<close> are shifted in, first bit first, the register is updated with them, the
  port is parked again and the bits on TDO meanwhile are those of the scan.
\<close>

theorem mpsse_packet_scans:
  assumes "k = 0 \<and> t = 0 \<or> k = 1 \<and> t = 1" and "1 \<le> n" and "n \<le> (if r then 57 else 64)"
    and "length (m_output s) + 23 \<le> OUTPUT_SIZE" and "1 \<le> bytes_per_word s" and "bytes_per_word s \<le> 8"
  shows "\<exists>s' bs cs. mpsse_send rounds lib k t n tdi r s = (Inr (), s') \<and>
    m_output s' = m_output s @ bs \<and> mpsse_parse bs = Some cs \<and>
    (\<forall>C l p. parked (tap_state p) \<longrightarrow> clocks C (cmds_clocks l cs) p =
       (replicate (3 + k) False @ fst (packet_scan k C (low_bits n tdi) (the_chip p)) @ [False],
        \<lparr>tap_state = (if k = 0 then Update_DR else Update_IR),
         the_chip = snd (packet_scan k C (low_bits n tdi) (the_chip p))\<rparr>))"
proof -
  let ?cs = "send_cmds k t n tdi r"
  have k: "k \<le> 11" and n: "n \<le> 64"
    using assms(1,3) by (auto split: if_splits)
  have "mpsse_send rounds lib k t n tdi r s = (Inr (), sent k t n tdi r s)"
    using assms(3-6) k n by (intro mpsse_send_run) (auto split: if_splits)
  moreover have "m_output (sent k t n tdi r s) = m_output s @ concat (map enc ?cs)"
    by (simp add: sent_def)
  moreover have "mpsse_parse (concat (map enc ?cs)) = Some ?cs"
    by (rule parse_encs [OF send_cmds_ok [OF k n]])
  ultimately show ?thesis
    using packet_clocks [OF assms(1,2) n] by blast
qed

lemma mpsse_packet_scans_witness:
  "\<exists>s' bs cs. mpsse_send 0 (undefined :: unit usb) 0 0 41 0x4c True ((blank_mpsse ())\<lparr>bytes_per_word := 5\<rparr>) =
      (Inr (), s') \<and>
    m_output s' = [] @ bs \<and> mpsse_parse bs = Some cs \<and>
    (\<forall>(C :: nat scan_chip) l p. parked (tap_state p) \<longrightarrow> clocks C (cmds_clocks l cs) p =
       (replicate (3 + 0) False @ fst (packet_scan 0 C (low_bits 41 0x4c) (the_chip p)) @ [False],
        \<lparr>tap_state = (if 0 = (0 :: nat) then Update_DR else Update_IR),
         the_chip = snd (packet_scan 0 C (low_bits 41 0x4c) (the_chip p))\<rparr>))"
  using mpsse_packet_scans [where k = 0 and t = 0 and n = 41 and r = True and tdi = "0x4c"
      and s = "(blank_mpsse ())\<lparr>bytes_per_word := 5\<rparr>" and rounds = 0 and lib = "undefined :: unit usb"]
  by (simp add: blank_mpsse_def OUTPUT_SIZE_def)

end
