(* ===== verification/Mpsse_Link.thy ===== *)
theory Mpsse_Link
  imports Mpsse_Props Scan_Unit
begin

text \<open>
  The FT2232 driver over the MPSSE engine. \<open>mpsse_engine\<close> states the documented behaviour of
  the adapter behind libusb: it performs the commands that are written to it, with the clocks
  of \<open>Mpsse_Props\<close> at the port of a chip, and keeps the bytes read for the host, which receives
  them after two bytes of status, at least one in each transfer.

  \<open>linked\<close> is the simulation between a driver with commands in its buffer and the chip as it
  will be when they have been sent.
\<close>

section \<open>The engine\<close>

record 'c engine =
  e_port :: "'c port"
  e_level :: bool
  e_replies :: "u8 list"

text \<open>Bits read one by one enter their byte from above.\<close>

definition byte_of_bits :: "bool list \<Rightarrow> u8" where
  "byte_of_bits os = horner_sum of_bool 2 os"

definition from_above :: "bool list \<Rightarrow> u8" where
  "from_above os = byte_of_bits (replicate (8 - length os) False @ os)"

fun cmd_reply :: "mcmd \<Rightarrow> bool list \<Rightarrow> u8 list" where
  "cmd_reply (Tms r k b) os = (if r then [from_above os] else [])"
| "cmd_reply (Data_bytes r bs) os =
     (if r then map (\<lambda>i. byte_of_bits (take 8 (drop (8 * i) os))) [0..<length bs] else [])"
| "cmd_reply (Data_bits r k b) os = (if r then [from_above os] else [])"

definition exec_cmd :: "'c scan_chip \<Rightarrow> mcmd \<Rightarrow> 'c engine \<Rightarrow> 'c engine" where
  "exec_cmd C c e = (case clocks C (cmd_clocks (e_level e) c) (e_port e) of (os, p) \<Rightarrow>
     \<lparr>e_port = p, e_level = cmd_level (e_level e) c, e_replies = e_replies e @ cmd_reply c os\<rparr>)"

primrec exec_cmds :: "'c scan_chip \<Rightarrow> mcmd list \<Rightarrow> 'c engine \<Rightarrow> 'c engine" where
  "exec_cmds C [] e = e"
| "exec_cmds C (c # cs) e = exec_cmds C cs (exec_cmd C c e)"

definition mpsse_engine :: "'c scan_chip \<Rightarrow> ('d \<Rightarrow> 'c engine) \<Rightarrow> 'd usb \<Rightarrow> bool" where
  "mpsse_engine C view lib \<longleftrightarrow>
     (\<forall>bs cs d. mpsse_parse bs = Some cs \<longrightarrow>
        (\<exists>d'. u_write lib MPSSE_IN_EP bs d = (Some (length bs), d') \<and> view d' = exec_cmds C cs (view d))) \<and>
     (\<forall>n d. n > 2 \<longrightarrow>
        (\<exists>x y j d'. u_read lib MPSSE_OUT_EP n d = (Some (x # y # take j (e_replies (view d))), d') \<and>
           j \<le> n - 2 \<and> (0 < j \<or> e_replies (view d) = []) \<and>
           view d' = (view d)\<lparr>e_replies := drop j (e_replies (view d))\<rparr>))"

lemma exec_cmds_append: "exec_cmds C (cs @ ds) e = exec_cmds C ds (exec_cmds C cs e)"
  by (induction cs arbitrary: e) simp_all

section \<open>The replies of a sequence of commands\<close>

fun cmd_length :: "mcmd \<Rightarrow> nat" where
  "cmd_length (Tms r k b) = k"
| "cmd_length (Data_bytes r bs) = 8 * length bs"
| "cmd_length (Data_bits r k b) = k"

lemma length_concat_bytes: "length (concat (map (byte_bits 8) bs)) = 8 * length bs"
  by (induction bs) (simp_all add: byte_bits_def)

lemma length_cmd_clocks [simp]: "length (cmd_clocks l c) = cmd_length c"
  by (cases c) (simp_all add: length_concat_bytes, simp_all add: byte_bits_def)

primrec cmds_replies :: "mcmd list \<Rightarrow> bool list \<Rightarrow> u8 list" where
  "cmds_replies [] os = []"
| "cmds_replies (c # cs) os = cmd_reply c (take (cmd_length c) os) @ cmds_replies cs (drop (cmd_length c) os)"

lemma exec_cmds_run:
  "exec_cmds C cs e = (case clocks C (cmds_clocks (e_level e) cs) (e_port e) of (os, p) \<Rightarrow>
     \<lparr>e_port = p, e_level = foldl cmd_level (e_level e) cs, e_replies = e_replies e @ cmds_replies cs os\<rparr>)"
  by (induction cs arbitrary: e) (simp_all add: clocks_append exec_cmd_def case_prod_beta)

lemma cmds_replies_append:
  "cmds_replies (cs @ ds) os = cmds_replies cs os @ cmds_replies ds (drop (sum_list (map cmd_length cs)) os)"
  by (induction cs arbitrary: os) (simp_all add: add.commute)

text \<open>Packets that are not read have no reply.\<close>

lemma unread_replies: "cmds_replies (send_cmds k t n tdi False) os = []"
  by (simp add: send_cmds_def tms_cmds_def data_cmds_def Let_def)

text \<open>The reply of a packet that is read.\<close>

definition packet_reply :: "nat \<Rightarrow> bool list \<Rightarrow> u8 list" where
  "packet_reply n os = (let nb = (n - 1) div 8; l = (n - 1) mod 8 in
     map (\<lambda>i. byte_of_bits (take 8 (drop (8 * i) os))) [0..<nb] @
     (if l > 0 then [from_above (take l (drop (8 * nb) os))] else []) @ [from_above [os ! (n - 1), False]])"

lemma length_packet_reply [simp]: "length (packet_reply n os) = data_bytes n + 1"
  by (simp add: packet_reply_def data_bytes_def Let_def)

lemma tms_cmds_length: "sum_list (map cmd_length (tms_cmds k t)) = k"
  by (simp add: tms_cmds_def)

lemma tms_cmds_replies: "cmds_replies (tms_cmds k t) os = []"
  by (simp add: tms_cmds_def)

lemma split_reply:
  assumes "length os = a + b + 1"
  obtains A B x where "os = A @ B @ [x]" and "length A = a" and "length B = b"
proof -
  have "length (drop b (drop a os)) = Suc 0"
    using assms by simp
  then obtain x where x: "drop b (drop a os) = [x]"
    by (cases "drop b (drop a os)") (simp_all del: drop_drop length_drop)
  have "take a os @ take b (drop a os) @ drop b (drop a os) = os"
    by (simp only: append_take_drop_id)
  then show ?thesis
    using that [of "take a os" "take b (drop a os)" x] assms x by simp
qed

lemma packet_replies:
  assumes "1 \<le> n" and "length os = n"
  shows "cmds_replies (send_cmds k t n tdi True) (replicate (3 + k) False @ os @ [False]) = packet_reply n os"
proof -
  define nb where "nb = (n - 1) div 8"
  define l where "l = (n - 1) mod 8"
  have n: "n - 1 = 8 * nb + l" "length os = 8 * nb + l + 1"
    using assms by (simp_all add: nb_def l_def)
  obtain A B x where os: "os = A @ B @ [x]" and A: "length A = 8 * nb" and B: "length B = l"
    by (rule split_reply [OF n(2)])
  let ?W = "map (\<lambda>i. byte_of_bits (take 8 (drop (8 * i) A))) [0..<nb]"
  let ?L = "if l > 0 then [from_above B] else []"
  have bytes: "cmds_replies (if nb > 0 then [Data_bytes True (tdi_bytes nb tdi)] else []) (A @ ys) = ?W" for ys
    using A by simp
  have bits: "cmds_replies (if l > 0 then [Data_bits True l b] else []) (B @ ys) = ?L" for b ys
    using B by simp
  have last: "cmds_replies [Tms True 2 b] [x, False] = [from_above [x, False]]" for b
    by simp
  have len: "sum_list (map cmd_length (if nb > 0 then [Data_bytes True (tdi_bytes nb tdi)] else [])) = length A"
      "sum_list (map cmd_length (if l > 0 then [Data_bits True l b] else [])) = length B" for b
    using A B by simp_all
  have drop_length: "drop (length xs) (xs @ ys) = ys" for xs ys :: "bool list"
    by simp
  have "cmds_replies (send_cmds k t n tdi True) (replicate (3 + k) False @ os @ [False]) =
      cmds_replies (data_cmds n tdi True) (A @ B @ [x, False])"
    using assms(1) by (simp add: send_cmds_def cmds_replies_append tms_cmds_replies tms_cmds_length os)
  also have "\<dots> = ?W @ ?L @ [from_above [x, False]]"
    unfolding data_cmds_def Let_def nb_def [symmetric] l_def [symmetric] cmds_replies_append len
      bytes drop_length bits last ..
  also have "map (\<lambda>i. byte_of_bits (take 8 (drop (8 * i) A))) [0..<nb] =
      map (\<lambda>i. byte_of_bits (take 8 (drop (8 * i) os))) [0..<nb]"
  proof (rule map_cong [OF refl])
    fix i
    assume "i \<in> set [0..<nb]"
    then have "take 8 (drop (8 * i) os) = take 8 (drop (8 * i) A)"
      by (simp add: os A)
    then show "byte_of_bits (take 8 (drop (8 * i) A)) = byte_of_bits (take 8 (drop (8 * i) os))"
      by simp
  qed
  finally have r: "cmds_replies (send_cmds k t n tdi True) (replicate (3 + k) False @ os @ [False]) =
      map (\<lambda>i. byte_of_bits (take 8 (drop (8 * i) os))) [0..<nb] @ ?L @ [from_above [x, False]]" .
  have "x = os ! (n - 1)" "B = take l (drop (8 * nb) os)"
    by (simp_all only: n) (simp_all add: os A B nth_append)
  then show ?thesis
    unfolding r by (simp only: packet_reply_def Let_def nb_def [symmetric] l_def [symmetric])
qed

section \<open>The received word\<close>

lemma bit_input_word:
  assumes "i < 8" and "j < length xs" and "8 * j + i < 64"
  shows "bit (horner_sum ucast 256 xs :: u64) (8 * j + i) \<longleftrightarrow> bit (xs ! j :: u8) i"
  using assms(2,3)
proof (induction xs arbitrary: j)
  case (Cons x xs)
  let ?r = "horner_sum ucast 256 xs :: u64"
  have "bit (ucast x :: u64) m \<Longrightarrow> \<not> bit (push_bit 8 ?r) m" for m
    using bit_imp_le_length [of x m] by (auto simp: bit_simps)
  then have "(ucast x :: u64) + push_bit 8 ?r = ucast x OR push_bit 8 ?r"
    by (intro disjunctive_add) blast
  then have "horner_sum ucast 256 (x # xs) = (ucast x :: u64) OR push_bit 8 ?r"
    by (simp add: push_bit_eq_mult mult.commute)
  moreover have "bit ((ucast x :: u64) OR push_bit 8 ?r) (8 * j + i) \<longleftrightarrow> bit ((x # xs) ! j) i"
    using Cons.IH [of "j - 1"] Cons.prems assms(1)
    by (cases j) (auto simp: bit_simps dest: bit_imp_le_length)
  ultimately show ?case
    by simp
qed simp

lemma bit_byte_of_bits: "bit (byte_of_bits os) i \<longleftrightarrow> i < 8 \<and> i < length os \<and> os ! i"
  by (auto simp: byte_of_bits_def bit_horner_sum_bit_word_iff)

lemma bit_from_above:
  assumes "length os \<le> 8" and "j < length os"
  shows "bit (from_above os) (8 - length os + j) \<longleftrightarrow> os ! j"
  using assms by (auto simp: from_above_def bit_byte_of_bits nth_append)

lemma packet_reply_layout:
  assumes "1 \<le> n" and "n \<le> 57" and "length os = n"
  shows "reply_layout n ((!) os) (horner_sum ucast 256 (take 8 (packet_reply n os @ rest)))"
proof -
  define nb where "nb = (n - 1) div 8"
  define l where "l = (n - 1) mod 8"
  have n: "n - 1 = 8 * nb + l" "l < 8" "length os = 8 * nb + l + 1"
    using assms(1,3) by (simp_all add: nb_def l_def)
  let ?L = "if l > 0 then [from_above (take l (drop (8 * nb) os))] else []"
  have dB: "data_bytes n = nb + length ?L" "data_bytes n \<le> 7"
    using data_bytes_bound [of n 7] assms(2) by (simp_all add: data_bytes_def nb_def l_def)
  define xs where "xs = take 8 (packet_reply n os @ rest)"
  have at: "xs ! j = packet_reply n os ! j" if "j \<le> data_bytes n" for j
    using that dB(2) by (simp add: xs_def nth_append)
  have len: "j \<le> data_bytes n \<Longrightarrow> j < length xs" for j
    using dB(2) by (simp add: xs_def)
  have bits: "bit (horner_sum ucast 256 xs :: u64) (8 * j + i) \<longleftrightarrow> bit (packet_reply n os ! j) i"
    if "i < 8" "j \<le> data_bytes n" for i j
    using bit_input_word [of i j xs] len [OF that(2)] at [OF that(2)] that dB(2) by simp
  have reply: "packet_reply n os = map (\<lambda>i. byte_of_bits (take 8 (drop (8 * i) os))) [0..<nb] @ ?L @
      [from_above [os ! (n - 1), False]]"
    by (simp only: packet_reply_def Let_def nb_def [symmetric] l_def [symmetric])
  have "bit (horner_sum ucast 256 xs :: u64) i = os ! i" if "i < 8 * nb" for i
  proof -
    have i: "8 * (i div 8) + i mod 8 = i" "i div 8 < nb"
      using that by (simp_all add: less_mult_imp_div_less)
    have "8 * (i div 8) \<le> length os" "i mod 8 < length os - 8 * (i div 8)"
      using that n(3) i(1) by linarith+
    then have "bit (packet_reply n os ! (i div 8)) (i mod 8) = os ! i"
      using i by (simp add: reply nth_append bit_byte_of_bits)
    then show ?thesis
      using bits [of "i mod 8" "i div 8"] i dB(1) by simp
  qed
  moreover have "bit (horner_sum ucast 256 xs :: u64) (8 * nb + (8 - l) + j) = os ! (8 * nb + j)" if "j < l" for j
  proof -
    have "packet_reply n os ! nb = from_above (take l (drop (8 * nb) os))"
      using that by (simp add: reply nth_append)
    then have "bit (packet_reply n os ! nb) (8 - l + j) = os ! (8 * nb + j)"
      using bit_from_above [of "take l (drop (8 * nb) os)" j] that n(2,3) by simp
    then show ?thesis
      using bits [of "8 - l + j" nb] that n(2) dB(1) by (simp add: add.assoc)
  qed
  moreover have "bit (horner_sum ucast 256 xs :: u64) (8 * data_bytes n + 6) = os ! (n - 1)"
  proof -
    have "packet_reply n os ! data_bytes n = from_above [os ! (n - 1), False]"
      unfolding dB(1) by (simp add: reply nth_append)
    then show ?thesis
      using bits [of 6 "data_bytes n"] bit_from_above [of "[os ! (n - 1), False]" 0] by simp
  qed
  ultimately show ?thesis
    unfolding reply_layout_def Let_def nb_def [symmetric] l_def [symmetric] xs_def [symmetric] by blast
qed

section \<open>The simulation\<close>

text \<open>
  \<open>buffered\<close>: the driver's buffer holds commands that take the engine to the state \<open>e\<close>, with the
  replies that the driver expects. \<open>linked_to\<close>: there its port is parked, with the chip \<open>c\<close>.
\<close>

definition buffered :: "'c scan_chip \<Rightarrow> ('d \<Rightarrow> 'c engine) \<Rightarrow> 'd mpsse \<Rightarrow> 'c engine \<Rightarrow> bool" where
  "buffered C view s e \<longleftrightarrow>
     (\<exists>cs. list_all mcmd_ok cs \<and> m_output s = concat (map enc cs) \<and> exec_cmds C cs (view (mdev s)) = e) \<and>
     e_replies (view (mdev s)) = [] \<and> bytes_to_read s = length (e_replies e) \<and>
     length (m_output s) \<le> OUTPUT_SIZE \<and> length (m_input s) = INPUT_SIZE"

definition linked_to :: "'c scan_chip \<Rightarrow> ('d \<Rightarrow> 'c engine) \<Rightarrow> 'd mpsse \<Rightarrow> 'c \<Rightarrow> u8 list \<Rightarrow> bool" where
  "linked_to C view s c R \<longleftrightarrow>
     (\<exists>e. buffered C view s e \<and> parked (tap_state (e_port e)) \<and> the_chip (e_port e) = c \<and> e_replies e = R) \<and>
     1 \<le> bytes_per_word s \<and> bytes_per_word s \<le> 8"

definition linked :: "'c scan_chip \<Rightarrow> ('d \<Rightarrow> 'c engine) \<Rightarrow> 'd mpsse \<Rightarrow> 'c \<Rightarrow> bool" where
  "linked C view s c \<longleftrightarrow> linked_to C view s c []"

lemma receive_run:
  assumes "mpsse_engine C view lib" and "length (m_input s) = INPUT_SIZE"
    and "bytes_to_read s = k + length (e_replies (view (mdev s)))" and "bytes_to_read s \<le> 62"
    and "length (e_replies (view (mdev s))) \<le> rounds"
  shows "\<exists>d. receive_loop rounds lib k s = (Inr (), s\<lparr>mdev := d,
      m_input := take k (m_input s) @ e_replies (view (mdev s)) @ drop (bytes_to_read s) (m_input s)\<rparr>) \<and>
    view d = (view (mdev s))\<lparr>e_replies := []\<rparr>"
  using assms(2-)
proof (induction rounds arbitrary: k s)
  case 0
  then show ?case
    by (intro exI [of _ "mdev s"]) simp
next
  case (Suc rounds)
  let ?R = "e_replies (view (mdev s))"
  show ?case
  proof (cases "?R = []")
    case True
    then show ?thesis
      using Suc.prems by (intro exI [of _ "mdev s"]) simp
  next
    case False
    then have k: "k < bytes_to_read s"
      using Suc.prems(2) by simp
    then obtain x y j d where d: "u_read lib MPSSE_OUT_EP (bytes_to_read s - k + 2) (mdev s) = (Some (x # y # take j ?R), d)"
        "j \<le> bytes_to_read s - k" "0 < j" "view d = (view (mdev s))\<lparr>e_replies := drop j ?R\<rparr>"
      using assms(1) False unfolding mpsse_engine_def by (metis add_diff_cancel_right' less_add_same_cancel2 zero_less_diff)
    have j: "length (take j ?R) = j"
      using d(2) Suc.prems(2) by simp
    have kj: "k + j \<le> 62" "j \<le> 62"
      using k d(2) Suc.prems(3) by simp_all
    define s1 where "s1 = s\<lparr>mdev := d, m_input := take k (m_input s) @ take j ?R @ drop (k + j) (m_input s)\<rparr>"
    have "receive_loop (Suc rounds) lib k s = receive_loop rounds lib (k + j) s1"
      using k d(1,3) j kj by (simp add: Let_def s1_def INPUT_SIZE_def)
    moreover have "\<exists>d'. receive_loop rounds lib (k + j) s1 = (Inr (), s1\<lparr>mdev := d',
          m_input := take (k + j) (m_input s1) @ e_replies (view (mdev s1)) @ drop (bytes_to_read s1) (m_input s1)\<rparr>) \<and>
        view d' = (view (mdev s1))\<lparr>e_replies := []\<rparr>"
      using Suc.prems d(2-4) j k by (intro Suc.IH) (simp_all add: s1_def INPUT_SIZE_def)
    moreover have "take (k + j) (m_input s1) @ e_replies (view (mdev s1)) @ drop (bytes_to_read s1) (m_input s1) =
        take k (m_input s) @ ?R @ drop (bytes_to_read s) (m_input s)"
      using Suc.prems(1-3) d(2,4) j append_take_drop_id [of j ?R]
      by (simp add: s1_def INPUT_SIZE_def add.commute del: append_take_drop_id)
    ultimately show ?thesis
      using d(4) by (auto simp: s1_def)
  qed
qed

definition flushed :: "u8 list \<Rightarrow> 'd \<Rightarrow> 'd mpsse \<Rightarrow> 'd mpsse" where
  "flushed R d s = s\<lparr>mdev := d, m_output := [], bytes_to_read := 0, m_input := R @ drop (length R) (m_input s)\<rparr>"

lemma flushed_fields [simp]:
  "high_byte_bits (flushed R d s) = high_byte_bits s" "high_byte_mask (flushed R d s) = high_byte_mask s"
  "high_bit_mask (flushed R d s) = high_bit_mask s" "fix_high_bit (flushed R d s) = fix_high_bit s"
  "bytes_per_word (flushed R d s) = bytes_per_word s" "m_output (flushed R d s) = []"
  "m_input (flushed R d s) = R @ drop (length R) (m_input s)"
  by (simp_all add: flushed_def)

lemma fix_data_flushed: "mpsse_fix_data (flushed R d s) = mpsse_fix_data s"
  by (rule ext) (simp only: mpsse_fix_data_def flushed_fields)

lemma flush_buffered:
  assumes "mpsse_engine C view lib" and "buffered C view s e" and "length (e_replies e) \<le> min 62 rounds"
  shows "\<exists>d. mpsse_flush_output rounds lib s = (Inr (), flushed (e_replies e) d s) \<and>
    buffered C view (flushed (e_replies e) d s) (e\<lparr>e_replies := []\<rparr>)"
proof -
  obtain cs where cs: "list_all mcmd_ok cs" "m_output s = concat (map enc cs)" "exec_cmds C cs (view (mdev s)) = e"
    and l: "e_replies (view (mdev s)) = []" "bytes_to_read s = length (e_replies e)" "length (m_input s) = INPUT_SIZE"
    using assms(2) unfolding buffered_def by blast
  have parse: "mpsse_parse (m_output s) = Some cs"
    unfolding cs(2) by (rule parse_encs [OF cs(1)])
  show ?thesis
  proof (cases "m_output s = []")
    case True
    then have "cs = []"
      using parse by (metis option.inject parse_Nil)
    then have "e_replies e = []"
      using cs(3) l(1) by auto
    moreover from this have eq: "e\<lparr>e_replies := []\<rparr> = e"
      by (cases e) simp
    ultimately show ?thesis
      unfolding eq using True assms(2) l
      by (intro exI [of _ "mdev s"]) (simp add: mpsse_flush_output_def act_simps flushed_def buffered_def)
  next
    case False
    obtain d1 where d1: "u_write lib MPSSE_IN_EP (m_output s) (mdev s) = (Some (length (m_output s)), d1)" "view d1 = e"
      using assms(1) parse cs(3) unfolding mpsse_engine_def by blast
    define s1 where "s1 = s\<lparr>mdev := d1, m_output := []\<rparr>"
    have "\<exists>d. receive_loop rounds lib 0 s1 = (Inr (), s1\<lparr>mdev := d,
          m_input := take 0 (m_input s1) @ e_replies (view (mdev s1)) @ drop (bytes_to_read s1) (m_input s1)\<rparr>) \<and>
        view d = (view (mdev s1))\<lparr>e_replies := []\<rparr>"
      using assms(3) l d1(2) by (intro receive_run [OF assms(1)]) (simp_all add: s1_def)
    then obtain d where d: "receive_loop rounds lib 0 s1 =
          (Inr (), s1\<lparr>mdev := d, m_input := e_replies e @ drop (length (e_replies e)) (m_input s)\<rparr>)"
        "view d = e\<lparr>e_replies := []\<rparr>"
      using l(2) d1(2) by (auto simp: s1_def)
    let ?d = "if e_replies e = [] then d1 else d"
    have "mpsse_flush_output rounds lib s = (Inr (), flushed (e_replies e) ?d s)"
      using False d1(1) d(1) l(2) by (simp add: mpsse_flush_output_def act_simps bulk_write_def s1_def flushed_def)
    moreover have "view ?d = e\<lparr>e_replies := []\<rparr>"
      using d1(2) d(2) by simp
    then have "buffered C view (flushed (e_replies e) ?d s) (e\<lparr>e_replies := []\<rparr>)"
      using l(3) assms(3)
      by (auto simp: buffered_def flushed_def INPUT_SIZE_def OUTPUT_SIZE_def intro!: exI [of _ "[]"])
    ultimately show ?thesis
      by blast
  qed
qed

lemma flush_run:
  assumes "mpsse_engine C view lib" and "linked_to C view s c R" and "length R \<le> min 62 rounds"
  shows "\<exists>d. mpsse_flush_output rounds lib s = (Inr (), flushed R d s) \<and> linked_to C view (flushed R d s) c []"
proof -
  obtain e where e: "buffered C view s e" "parked (tap_state (e_port e))" "the_chip (e_port e) = c" "e_replies e = R"
    using assms(2) unfolding linked_to_def by blast
  then obtain d where "mpsse_flush_output rounds lib s = (Inr (), flushed R d s)"
      "buffered C view (flushed R d s) (e\<lparr>e_replies := []\<rparr>)"
    using flush_buffered [OF assms(1) e(1), of rounds] assms(3) by auto
  then show ?thesis
    using assms(2) e unfolding linked_to_def by (intro exI [of _ d]) force
qed

text \<open>Sending with room in the buffer, and sending after which it may have to be flushed first.\<close>

lemma packet_tms: "k = 0 \<and> t = 0 \<or> k = 1 \<and> t = (1 :: u32) \<Longrightarrow> k \<le> (11 :: nat)"
  by auto

lemma idcode_prolog:
  "cmds_clocks l (tms_cmds 9 (31 OR push_bit 6 1)) = (replicate 5 (True, False) @ [(False, False)]) @
    [(True, False), (False, False), (False, False)]"
  "foldl cmd_level l (tms_cmds 9 (31 OR push_bit 6 1)) = False"
  by (cases l; code_simp)+

lemma exec_packet:
  assumes "k = 0 \<and> t = 0 \<or> k = 1 \<and> t = 1" and "1 \<le> n" and "n \<le> 64" and "parked (tap_state (e_port e))"
  shows "the_chip (e_port (exec_cmds C (send_cmds k t n tdi r) e)) =
      snd (packet_scan k C (low_bits n tdi) (the_chip (e_port e)))" (is ?chip)
    and "parked (tap_state (e_port (exec_cmds C (send_cmds k t n tdi r) e)))" (is ?parked)
    and "e_replies (exec_cmds C (send_cmds k t n tdi r) e) = e_replies e @
      (if r then packet_reply n (fst (packet_scan k C (low_bits n tdi) (the_chip (e_port e)))) else [])" (is ?replies)
proof -
  note run = exec_cmds_run packet_clocks [OF assms]
  show ?chip ?parked
    by (simp_all add: run parked_def)
  show ?replies
    using assms(2) by (cases r) (simp_all add: run unread_replies packet_replies)
qed

lemma sent_fields [simp]:
  "mdev (sent k t n tdi r s) = mdev s" "m_input (sent k t n tdi r s) = m_input s"
  "m_output (sent k t n tdi r s) = m_output s @ concat (map enc (send_cmds k t n tdi r))"
  "bytes_to_read (sent k t n tdi r s) = bytes_to_read s + (if r \<and> n > 0 then data_bytes n + 1 else 0)"
  "bytes_per_word (sent k t n tdi r s) = (if r \<and> n > 0 then data_bytes n + 1 else bytes_per_word s)"
  by (auto simp: sent_def expected_def unread_def)

lemma sent_buffered:
  assumes "buffered C view s e" and "length (m_output s) + 23 \<le> OUTPUT_SIZE" and "k \<le> 11" and "n \<le> 64"
    and "length (e_replies (exec_cmds C (send_cmds k t n tdi r) e)) =
      length (e_replies e) + (if r \<and> n > 0 then data_bytes n + 1 else 0)"
  shows "buffered C view (sent k t n tdi r s) (exec_cmds C (send_cmds k t n tdi r) e)"
proof -
  obtain cs where cs: "list_all mcmd_ok cs" "m_output s = concat (map enc cs)" "exec_cmds C cs (view (mdev s)) = e"
    using assms(1) unfolding buffered_def by blast
  have "list_all mcmd_ok (cs @ send_cmds k t n tdi r)"
      "m_output (sent k t n tdi r s) = concat (map enc (cs @ send_cmds k t n tdi r))"
      "exec_cmds C (cs @ send_cmds k t n tdi r) (view (mdev s)) = exec_cmds C (send_cmds k t n tdi r) e"
    using cs send_cmds_ok [OF assms(3,4)] by (simp_all add: exec_cmds_append)
  moreover have "length (m_output (sent k t n tdi r s)) \<le> OUTPUT_SIZE"
    using assms(2) length_send_cmds [OF assms(3,4), of t tdi r] by simp
  ultimately show ?thesis
    using assms(1,5) unfolding buffered_def by (intro conjI exI) simp_all
qed

lemma send_run:
  assumes "linked_to C view s c R" and "length (m_output s) + 23 \<le> OUTPUT_SIZE"
    and "k = 0 \<and> t = 0 \<or> k = 1 \<and> t = 1" and "1 \<le> n" and "n \<le> (if r then 57 else 64)"
  shows "mpsse_send rounds lib k t n tdi r s = (Inr (), sent k t n tdi r s) \<and>
    linked_to C view (sent k t n tdi r s) (snd (packet_scan k C (low_bits n tdi) c))
      (R @ (if r then packet_reply n (fst (packet_scan k C (low_bits n tdi) c)) else []))"
proof
  have k: "k \<le> 11" and n: "n \<le> 64"
    using assms(3,5) by (auto split: if_splits)
  have bpw: "1 \<le> bytes_per_word s" "bytes_per_word s \<le> 8"
    using assms(1) by (simp_all add: linked_to_def)
  show "mpsse_send rounds lib k t n tdi r s = (Inr (), sent k t n tdi r s)"
    using assms(2,5) k n bpw by (intro mpsse_send_run) (auto split: if_splits)
  obtain e where e: "buffered C view s e" "parked (tap_state (e_port e))" "the_chip (e_port e) = c" "e_replies e = R"
    using assms(1) unfolding linked_to_def by blast
  let ?e = "exec_cmds C (send_cmds k t n tdi r) e"
  note packet = exec_packet [OF assms(3,4) n e(2), of C tdi r]
  have "buffered C view (sent k t n tdi r s) ?e"
    using packet(3) assms(4) by (intro sent_buffered [OF e(1) assms(2) k n]) simp
  moreover have "r \<Longrightarrow> data_bytes n \<le> 7"
    using data_bytes_bound [of n 7] assms(5) by simp
  ultimately show "linked_to C view (sent k t n tdi r s) (snd (packet_scan k C (low_bits n tdi) c))
      (R @ (if r then packet_reply n (fst (packet_scan k C (low_bits n tdi) c)) else []))"
    using packet e(3,4) bpw unfolding linked_to_def by (intro conjI exI [of _ ?e]) simp_all
qed

lemma send_any:
  assumes "mpsse_engine C view lib" and "linked C view s c"
    and "k = 0 \<and> t = 0 \<or> k = 1 \<and> t = 1" and "1 \<le> n" and "n \<le> (if r then 57 else 64)"
  obtains s0 where "linked C view s0 c" and "mpsse_send rounds lib k t n tdi r s = (Inr (), sent k t n tdi r s0)"
    and "linked_to C view (sent k t n tdi r s0) (snd (packet_scan k C (low_bits n tdi) c))
      (if r then packet_reply n (fst (packet_scan k C (low_bits n tdi) c)) else [])"
proof (cases "OUTPUT_SIZE - 23 < length (m_output s)")
  case False
  then have "length (m_output s) + 23 \<le> OUTPUT_SIZE"
    by (simp add: OUTPUT_SIZE_def)
  then show ?thesis
    using send_run [OF _ _ assms(3-5), of C view s c "[]"] assms(2) that by (simp add: linked_def)
next
  case True
  obtain s0 where s0: "mpsse_flush_output rounds lib s = (Inr (), s0)" "linked C view s0 c" "m_output s0 = []"
    using flush_run [OF assms(1), of s c "[]" rounds] assms(2) unfolding linked_def by auto
  have "mpsse_send rounds lib k t n tdi r s = mpsse_send rounds lib k t n tdi r s0"
    using True s0(1,3) by (simp add: mpsse_send_def act_simps)
  then show ?thesis
    using send_run [OF _ _ assms(3-5), of C view s0 c "[]"] s0(2,3) that
    by (simp add: linked_def OUTPUT_SIZE_def)
qed

section \<open>The operations as scans of the chip\<close>

lemma mpsse_write_linked:
  assumes "mpsse_engine C view lib" and "linked C view s c" and "len \<le> 32"
  shows "\<exists>s'. mpsse_oncd_write rounds lib v rn len s = (Inr (), s') \<and> linked C view s' (snd (chip_write C v rn len c))"
proof -
  obtain s0 where "linked C view s0 c"
    and "mpsse_oncd_write rounds lib v rn len s = (Inr (), sent 0 0 (9 + len)
      (if len > 0 then ucast rn OR push_bit 9 (ucast v) else ucast rn) False s0)"
    and "linked C view (sent 0 0 (9 + len) (if len > 0 then ucast rn OR push_bit 9 (ucast v) else ucast rn) False s0)
      (snd (chip_write C v rn len c))"
    using send_any [OF assms(1,2), of 0 0 "9 + len" False rounds
        "if len > 0 then ucast rn OR push_bit 9 (ucast v) else ucast rn"] assms(3)
    by (simp add: mpsse_oncd_write_def linked_def chip_write_def packet_scan_def) blast
  then show ?thesis
    by blast
qed

lemma recv_run:
  assumes "mpsse_engine C view lib" and "1 \<le> n" and "n \<le> 57" and "length os = n" and "rounds \<ge> 8"
    and "linked_to C view (sent k t n tdi True s0) c (packet_reply n os)"
  shows "\<exists>w s'. mpsse_recv rounds lib (sent k t n tdi True s0) = (Inr w, s') \<and> linked C view s' c \<and>
    (\<forall>i. bit w i \<longleftrightarrow> i < n \<and> os ! i)"
proof -
  let ?s = "sent k t n tdi True s0" and ?R = "packet_reply n os"
  have len: "length ?R \<le> 8"
    using data_bytes_bound [of n 7] assms(3) by simp
  then obtain d where d: "mpsse_flush_output rounds lib ?s = (Inr (), flushed ?R d ?s)" "linked_to C view (flushed ?R d ?s) c []"
    using flush_run [OF assms(1,6), of rounds] assms(5) by auto
  let ?w = "horner_sum ucast 256 (take 8 (?R @ drop (length ?R) (m_input ?s))) :: u64"
  have "length (m_input (flushed ?R d ?s)) = INPUT_SIZE"
    using d(2) by (auto simp: linked_to_def buffered_def)
  then have "mpsse_recv rounds lib ?s = (Inr (mpsse_fix_data (flushed ?R d ?s) ?w), flushed ?R d ?s)"
    using d(1) by (simp add: mpsse_recv_def act_simps input_word_def) (simp add: flushed_def INPUT_SIZE_def)
  moreover have "bit (mpsse_fix_data ?s ?w) i \<longleftrightarrow> i < n \<and> os ! i" for i
    by (rule fix_recovers [OF assms(2,3) packet_reply_layout [OF assms(2-4)]])
  ultimately show ?thesis
    unfolding fix_data_flushed using d(2) unfolding linked_def by blast
qed

lemma mpsse_read_linked:
  assumes "mpsse_engine C view lib" and "linked C view s c" and "len \<le> 32" and "rounds \<ge> 8"
  shows "\<exists>s'. mpsse_oncd_read rounds lib rn len s = (fst (chip_read C rn len c), s') \<and>
    linked C view s' (snd (chip_read C rn len c))"
proof -
  let ?b = "low_bits (9 + len) (ucast (rn OR IRd_READ))"
  let ?os = "fst (scan_dr C ?b c)"
  obtain s0 where s0: "mpsse_send rounds lib 0 0 (9 + len) (ucast (rn OR IRd_READ)) True s =
      (Inr (), sent 0 0 (9 + len) (ucast (rn OR IRd_READ)) True s0)"
    and l: "linked_to C view (sent 0 0 (9 + len) (ucast (rn OR IRd_READ)) True s0) (snd (scan_dr C ?b c))
      (packet_reply (9 + len) ?os)"
    using send_any [OF assms(1,2), of 0 0 "9 + len" True rounds "ucast (rn OR IRd_READ)"] assms(3)
    by (simp add: packet_scan_def) blast
  obtain w s' where w: "mpsse_recv rounds lib (sent 0 0 (9 + len) (ucast (rn OR IRd_READ)) True s0) = (Inr w, s')"
      "linked C view s' (snd (scan_dr C ?b c))" "\<forall>i. bit w i \<longleftrightarrow> i < 9 + len \<and> ?os ! i"
    using recv_run [OF assms(1) _ _ _ assms(4) l] assms(3) by auto
  have "(ucast (drop_bit 9 w) :: u32) = bits_word (drop 9 ?os)"
    using w(3) assms(3) by (intro bit_word_eqI) (auto simp: bit_simps bits_word_def bit_horner_sum_bit_word_iff)
  then show ?thesis
    using s0 w(1,2) by (simp add: mpsse_oncd_read_def act_simps chip_read_def case_prod_beta)
qed

section \<open>From opening to the first scan\<close>

text \<open>
  After \<open>adapter_open_mpsse\<close> the number of bytes per word is still zero; reading IDCODE sets it.
  It resets the port first, from whatever state the chip is in.
\<close>

lemma idcode_packet:
  fixes e :: "'c engine"
  obtains c0 where "the_chip (e_port (exec_cmds C (send_cmds 6 31 32 0 True) e)) =
      snd (scan_dr C (replicate 32 False) (port_reset C c0))"
    and "tap_state (e_port (exec_cmds C (send_cmds 6 31 32 0 True) e)) = Update_DR"
    and "e_replies (exec_cmds C (send_cmds 6 31 32 0 True) e) =
      e_replies e @ packet_reply 32 (fst (scan_dr C (replicate 32 False) (port_reset C c0)))"
proof -
  obtain os c0 where reset: "clocks C (replicate 5 (True, False) @ [(False, False)]) (e_port e) =
      (os, \<lparr>tap_state = Run_Idle, the_chip = port_reset C c0\<rparr>)"
    using reset_run [of C False False "e_port e"] by auto
  have os: "length os = 6"
    using reset length_clocks [of C "replicate 5 (True, False) @ [(False, False)]" "e_port e"] by simp
  let ?b = "replicate 32 False"
  let ?S = "scan_dr C ?b (port_reset C c0)"
  have low: "low_bits 32 0 = ?b"
    by (rule nth_equalityI) (simp_all add: low_bits_def)
  have run: "clocks C ([(True, False), (False, False), (False, False)] @ shift_clocks ?b @ [(True, False)])
      \<lparr>tap_state = Run_Idle, the_chip = port_reset C c0\<rparr> =
      ([False, False, False] @ fst ?S @ [False], \<lparr>tap_state = Update_DR, the_chip = snd ?S\<rparr>)"
    by (subst dr_scan_run) (simp_all add: parked_def)
  have data: "cmds_clocks False (data_cmds 32 0 True) = shift_clocks ?b @ [(True, False)]"
    using data_clocks [of 32 0 True] by (simp add: low)
  have "cmds_clocks (e_level e) (send_cmds 6 31 32 0 True) =
      (replicate 5 (True, False) @ [(False, False)]) @
      ([(True, False), (False, False), (False, False)] @ shift_clocks ?b @ [(True, False)])"
    using idcode_prolog [of "e_level e"] data by (simp add: send_cmds_def cmds_clocks_append)
  then have c: "clocks C (cmds_clocks (e_level e) (send_cmds 6 31 32 0 True)) (e_port e) =
      (os @ [False, False, False] @ fst ?S @ [False], \<lparr>tap_state = Update_DR, the_chip = snd ?S\<rparr>)"
    by (simp only: clocks_append [of C "replicate 5 (True, False) @ [(False, False)]"] reset fst_conv snd_conv run)
  have "cmds_replies (send_cmds 6 31 32 0 True) (os @ [False, False, False] @ fst ?S @ [False]) =
      cmds_replies (data_cmds 32 0 True) (fst ?S @ [False])"
    using os by (simp add: send_cmds_def cmds_replies_append tms_cmds_replies tms_cmds_length)
  also have "\<dots> = cmds_replies (send_cmds 0 0 32 0 True) (replicate (3 + 0) False @ fst ?S @ [False])"
    by (simp add: send_cmds_def cmds_replies_append tms_cmds_replies tms_cmds_length)
  also have "\<dots> = packet_reply 32 (fst ?S)"
    by (rule packet_replies) simp_all
  finally show ?thesis
    using that [of c0] by (simp add: exec_cmds_run c)
qed

lemma idcode_run:
  assumes "mpsse_engine C view lib" and "buffered C view s e" and "e_replies e = []" and "rounds \<ge> 8"
  shows "\<exists>s' c0. mpsse_get_idcode rounds lib s =
      (Inr (bits_word (fst (scan_dr C (replicate 32 False) (port_reset C c0)))), s') \<and>
    linked C view s' (snd (scan_dr C (replicate 32 False) (port_reset C c0)))"
proof -
  obtain s0 e0 where s0: "mpsse_send rounds lib 6 31 32 0 True s = (Inr (), sent 6 31 32 0 True s0)"
      "buffered C view s0 e0" "e_replies e0 = []" "length (m_output s0) + 23 \<le> OUTPUT_SIZE"
  proof (cases "OUTPUT_SIZE - 23 < length (m_output s)")
    case False
    then have "length (m_output s) + 23 \<le> OUTPUT_SIZE"
      by (simp add: OUTPUT_SIZE_def)
    then show ?thesis
      using assms(2,3) that mpsse_send_run [of s 6 32 True] by simp
  next
    case True
    obtain d where d: "mpsse_flush_output rounds lib s = (Inr (), flushed [] d s)" "buffered C view (flushed [] d s) e"
      using flush_buffered [OF assms(1,2), of rounds] assms(3) by (cases e) auto
    have "mpsse_send rounds lib 6 31 32 0 True s = mpsse_send rounds lib 6 31 32 0 True (flushed [] d s)"
      using True d(1) by (simp add: mpsse_send_def act_simps)
    then show ?thesis
      using d(2) assms(3) that mpsse_send_run [of "flushed [] d s" 6 32 True] by (simp add: OUTPUT_SIZE_def)
  qed
  obtain c0 where c0: "the_chip (e_port (exec_cmds C (send_cmds 6 31 32 0 True) e0)) =
        snd (scan_dr C (replicate 32 False) (port_reset C c0))"
      "tap_state (e_port (exec_cmds C (send_cmds 6 31 32 0 True) e0)) = Update_DR"
      "e_replies (exec_cmds C (send_cmds 6 31 32 0 True) e0) =
        e_replies e0 @ packet_reply 32 (fst (scan_dr C (replicate 32 False) (port_reset C c0)))"
    by (rule idcode_packet)
  let ?S = "scan_dr C (replicate 32 False) (port_reset C c0)"
  have "buffered C view (sent 6 31 32 0 True s0) (exec_cmds C (send_cmds 6 31 32 0 True) e0)"
    using c0(3) by (intro sent_buffered [OF s0(2,4)]) simp_all
  then have l: "linked_to C view (sent 6 31 32 0 True s0) (snd ?S) (packet_reply 32 (fst ?S))"
    using c0 s0(3) unfolding linked_to_def
    by (intro conjI exI [of _ "exec_cmds C (send_cmds 6 31 32 0 True) e0"]) (simp_all add: parked_def data_bytes_def)
  obtain w s' where w: "mpsse_recv rounds lib (sent 6 31 32 0 True s0) = (Inr w, s')" "linked C view s' (snd ?S)"
      "\<forall>i. bit w i \<longleftrightarrow> i < 32 \<and> fst ?S ! i"
    using recv_run [OF assms(1) _ _ _ assms(4) l] by auto
  have "(ucast w :: u32) = bits_word (fst ?S)"
    using w(3) by (intro bit_word_eqI) (auto simp: bit_simps bits_word_def bit_horner_sum_bit_word_iff)
  then show ?thesis
    using s0(1) w(1,2) by (intro exI [of _ s'] exI [of _ c0]) (simp add: mpsse_get_idcode_def act_simps)
qed

end
