(* ===== verification/Mpsse_Block.thy ===== *)
theory Mpsse_Block
  imports Mpsse_Link Simulation
begin

text \<open>
  The block operations of the FT2232 driver, which put many packets into one transfer, are the
  word by word accesses through the debug unit that the target layer makes without them.
\<close>

section \<open>Word accesses of the chip\<close>

definition chip_write_word :: "'c scan_chip \<Rightarrow> u32 \<times> u32 \<Rightarrow> ('c, unit) act" where
  "chip_write_word C ad = seqsM [chip_write C (fst ad) OnCD_OMAR 32, chip_write C (snd ad) OnCD_OMDR 32,
     chip_write C 0 OnCD_MEM 0]"

definition chip_read_word :: "'c scan_chip \<Rightarrow> u32 \<Rightarrow> ('c, u32) act" where
  "chip_read_word C a = seqM (chip_write C a OnCD_OMAR 32)
     (seqM (chip_write C 0 OnCD_MEM 0) (chip_read C OnCD_OMDR 32))"

definition chip_allow :: "'c scan_chip \<Rightarrow> (u32 \<Rightarrow> u32) \<Rightarrow> ('c aworld, unit) act" where
  "chip_allow C f = bindM (getM oscr) (\<lambda>old. whenM (f old \<noteq> old)
     (seqM (modM (\<lambda>w. w\<lparr>oscr := f old\<rparr>)) (on_dev (chip_write C (f old) OnCD_OSCR 32))))"

text \<open>The worlds: the same shadow of OSCR, a driver linked to the chip.\<close>

definition linked_world :: "'c scan_chip \<Rightarrow> ('d \<Rightarrow> 'c engine) \<Rightarrow> 'd mpsse aworld \<Rightarrow> 'c aworld \<Rightarrow> bool" where
  "linked_world C view w W \<longleftrightarrow> oscr w = oscr W \<and> linked C view (dev w) (dev W)"

lemma sim_on_dev:
  assumes "sim (linked C view) m M"
  shows "sim (linked_world C view) (on_dev m) (on_dev M)"
proof (rule simI)
  fix w W
  assume w: "linked_world C view w W"
  then have "linked C view (dev w) (dev W)"
    by (simp add: linked_world_def)
  with assms obtain s' where "m (dev w) = (fst (M (dev W)), s')" "linked C view s' (snd (M (dev W)))"
    by (rule simE)
  then show "\<exists>w'. on_dev m w = (fst (on_dev M W), w') \<and> linked_world C view w' (snd (on_dev M W))"
    using w by (cases "M (dev W)") (simp add: on_dev_def zoomM_apply linked_world_def)
qed

lemma sim_oncd_write:
  assumes "mpsse_engine C view lib" and "len \<le> 32"
  shows "sim (linked C view) (mpsse_oncd_write rounds lib v rn len) (chip_write C v rn len)"
  using mpsse_write_linked [OF assms(1) _ assms(2), of _ _ rounds v rn]
  by (intro simI) (fastforce simp: chip_write_def)

lemma sim_oncd_read:
  assumes "mpsse_engine C view lib" and "len \<le> 32" and "rounds \<ge> 8"
  shows "sim (linked C view) (mpsse_oncd_read rounds lib rn len) (chip_read C rn len)"
  using mpsse_read_linked [OF assms(1) _ assms(2,3)] by (intro simI)

lemma sim_allow:
  assumes "mpsse_engine C view lib"
  shows "sim (linked_world C view) (allow_memory rounds lib f) (chip_allow C f)"
proof -
  have "sim (linked_world C view)
      (whenM (f v \<noteq> v) (seqM (modM (\<lambda>w. w\<lparr>oscr := f v\<rparr>)) (on_dev (mpsse_oncd_write rounds lib (f v) OnCD_OSCR 32))))
      (whenM (f v \<noteq> v) (seqM (modM (\<lambda>w. w\<lparr>oscr := f v\<rparr>)) (on_dev (chip_write C (f v) OnCD_OSCR 32))))" for v
    by (intro sim_whenM sim_seqM sim_modM sim_on_dev sim_oncd_write [OF assms]) (simp_all add: linked_world_def)
  then show ?thesis
    unfolding allow_memory_def chip_allow_def
    by (intro sim_bindM sim_getM) (simp_all add: linked_world_def)
qed

section \<open>Writing\<close>

lemma sim_write_word:
  assumes "mpsse_engine C view lib"
  shows "sim (linked C view) (write_mem_word rounds lib ad) (chip_write_word C ad)"
  unfolding write_mem_word_def chip_write_word_def by (intro sim_intros sim_oncd_write [OF assms]) simp_all

lemma write_block_loop_each:
  "write_block_loop rounds lib (length ds) a ds = write_each (write_mem_word rounds lib) a ds"
  by (induction ds arbitrary: a) simp_all

lemma write_block_loop_take:
  "n \<le> length ds \<Longrightarrow> write_block_loop rounds lib n a (take n ds) = write_block_loop rounds lib n a ds"
  by (induction n arbitrary: a ds) (auto split: list.split)

lemma sim_write_block:
  assumes "mpsse_engine C view lib"
  shows "sim (linked_world C view) (mpsse_write_block rounds lib (length ds) a ds)
    (seqM (chip_allow C oscr_write) (on_dev (write_each (chip_write_word C) a ds)))"
  unfolding mpsse_write_block_def write_block_loop_each
  by (intro sim_seqM sim_allow [OF assms] sim_on_dev sim_write_each sim_write_word [OF assms])

lemma sim_write_nwords:
  assumes "mpsse_engine C view lib"
  shows "sim (linked_world C view) (mpsse_write_nwords rounds lib args)
    (seqM (chip_allow C oscr_write) (on_dev (seqsM (map (chip_write_word C) args))))"
  unfolding mpsse_write_nwords_def
  by (intro sim_seqM sim_allow [OF assms] sim_on_dev sim_seqs_map sim_write_word [OF assms])

definition chip_program :: "'c scan_chip \<Rightarrow> u32 \<Rightarrow> flash_cmds \<Rightarrow> u32 \<times> u32 \<Rightarrow> ('c, unit) act" where
  "chip_program C base c ad = seqM
     (seqsM (map (chip_write_word C) [(base + fc_addr_odd c, fc_cmd_aa c), (base + fc_addr_even c, fc_cmd_55 c),
        (base + fc_addr_odd c, fc_cmd_a0 c)]))
     (chip_write_word C ad)"

lemma program_loop_each:
  "program_loop rounds lib base c (length ds) a ds = write_each (\<lambda>ad. seqM
     (seqsM (map (write_mem_word rounds lib) [(base + fc_addr_odd c, fc_cmd_aa c), (base + fc_addr_even c, fc_cmd_55 c),
        (base + fc_addr_odd c, fc_cmd_a0 c)]))
     (write_mem_word rounds lib ad)) a ds"
  by (induction ds arbitrary: a) (simp_all add: seqM_assoc)

lemma sim_program_block32:
  assumes "mpsse_engine C view lib"
  shows "sim (linked_world C view) (mpsse_program_block32 rounds lib (length ds) base a ds c)
    (seqM (chip_allow C oscr_write) (on_dev (write_each (chip_program C base c) a ds)))"
  unfolding mpsse_program_block32_def program_loop_each chip_program_def
  by (intro sim_seqM sim_allow [OF assms] sim_on_dev sim_write_each sim_seqs_map sim_write_word [OF assms])

section \<open>Reading\<close>

text \<open>The masks of a register of 32 bits: 41 bits with the command, in six bytes.\<close>

definition masks41 :: "'d mpsse \<Rightarrow> bool" where
  "masks41 s \<longleftrightarrow> high_byte_bits s = 0 \<and> fix_high_bit s = push_bit 40 0x40 \<and> high_byte_mask s = 0 \<and>
     high_bit_mask s = push_bit 40 1 \<and> bytes_per_word s = 6"

lemma masks41_sent: "masks41 (sent k t 41 tdi True s)"
  by (simp add: masks41_def sent_def expected_def data_bytes_def)

lemma masks41_fix:
  assumes "masks41 s" and "length os = 41"
  shows "(ucast (drop_bit 9 (mpsse_fix_data s (horner_sum ucast 256 (take 8 (packet_reply 41 os @ rest))))) :: u32) =
    bits_word (drop 9 os)"
proof -
  let ?w = "horner_sum ucast 256 (take 8 (packet_reply 41 os @ rest)) :: u64"
  have "mpsse_fix_data s ?w = mpsse_fix_data (sent 0 0 41 0 True s) ?w"
    using assms(1) masks41_sent [of 0 0 0 s] unfolding masks41_def mpsse_fix_data_def by (simp only:)
  moreover have "bit (mpsse_fix_data (sent 0 0 41 0 True s) ?w) i \<longleftrightarrow> i < 41 \<and> os ! i" for i
    by (rule fix_recovers [OF _ _ packet_reply_layout [OF _ _ assms(2)]]) simp_all
  ultimately show ?thesis
    using assms(2) by (intro bit_word_eqI) (auto simp: bit_simps bits_word_def bit_horner_sum_bit_word_iff)
qed

text \<open>A step with room in the buffer.\<close>

definition step_to :: "'c scan_chip \<Rightarrow> ('d \<Rightarrow> 'c engine) \<Rightarrow> 'd mpsse \<Rightarrow> 'd mpsse \<Rightarrow> 'c \<Rightarrow> u8 list \<Rightarrow> nat \<Rightarrow> bool" where
  "step_to C view s s' c' R k \<longleftrightarrow> linked_to C view s' c' R \<and> length (m_output s') \<le> length (m_output s) + k"

lemma request_write:
  assumes "linked_to C view s c R" and "length (m_output s) + 23 \<le> OUTPUT_SIZE" and "len \<le> 32"
  shows "\<exists>s'. mpsse_oncd_write rounds lib v rn len s = (Inr (), s') \<and>
    step_to C view s s' (snd (chip_write C v rn len c)) R 23"
proof -
  let ?tdi = "if len > 0 then ucast rn OR push_bit 9 (ucast v) else ucast rn :: u64"
  have "mpsse_send rounds lib 0 0 (9 + len) ?tdi False s = (Inr (), sent 0 0 (9 + len) ?tdi False s)"
      "linked_to C view (sent 0 0 (9 + len) ?tdi False s) (snd (packet_scan 0 C (low_bits (9 + len) ?tdi) c)) R"
    using send_run [OF assms(1,2), of 0 0 "9 + len" False rounds lib ?tdi] assms(3) by simp_all
  moreover have "length (concat (map enc (send_cmds 0 0 (9 + len) ?tdi False))) \<le> 23"
    using assms(3) by (intro length_send_cmds) simp_all
  ultimately show ?thesis
    unfolding mpsse_oncd_write_def step_to_def
    by (intro exI [of _ "sent 0 0 (9 + len) ?tdi False s"]) (simp add: chip_write_def packet_scan_def)
qed

lemma request_run:
  assumes "linked_to C view s c R" and "length (m_output s) + 69 \<le> OUTPUT_SIZE"
  shows "\<exists>s' os. request_word rounds lib a s = (Inr (), s') \<and>
    step_to C view s s' (snd (chip_read_word C a c)) (R @ packet_reply 41 os) 69 \<and> masks41 s' \<and> length os = 41 \<and>
    fst (chip_read_word C a c) = Inr (bits_word (drop 9 os))"
proof -
  let ?c1 = "snd (chip_write C a OnCD_OMAR 32 c)"
  obtain s1 where s1: "mpsse_oncd_write rounds lib a OnCD_OMAR 32 s = (Inr (), s1)" "step_to C view s s1 ?c1 R 23"
    using request_write [OF assms(1), of 32 rounds lib a OnCD_OMAR] assms(2) by auto
  let ?c2 = "snd (chip_write C 0 OnCD_MEM 0 ?c1)"
  obtain s2 where s2: "mpsse_oncd_write rounds lib 0 OnCD_MEM 0 s1 = (Inr (), s2)" "step_to C view s1 s2 ?c2 R 23"
    using request_write [of C view s1 ?c1 R 0 rounds lib 0 OnCD_MEM] s1(2) assms(2) by (auto simp: step_to_def)
  let ?tdi = "ucast (OnCD_OMDR OR IRd_READ) :: u64"
  let ?S = "scan_dr C (low_bits 41 ?tdi) ?c2"
  let ?s3 = "sent 0 0 41 ?tdi True s2"
  have s3: "mpsse_send rounds lib 0 0 (9 + 32) ?tdi True s2 = (Inr (), ?s3)"
      "linked_to C view ?s3 (snd ?S) (R @ packet_reply 41 (fst ?S))"
    using send_run [of C view s2 ?c2 R 0 0 41 True rounds lib ?tdi] s1(2) s2(2) assms(2)
    by (simp_all add: step_to_def packet_scan_def)
  have "length (m_output ?s3) \<le> length (m_output s2) + 23"
    using length_send_cmds [of 0 41 0 ?tdi True] by simp
  then have "step_to C view s ?s3 (snd ?S) (R @ packet_reply 41 (fst ?S)) 69"
    using s3(2) s1(2) s2(2) by (simp add: step_to_def)
  moreover have "chip_read_word C a c = (Inr (bits_word (drop 9 (fst ?S))), snd ?S)"
    by (simp add: chip_read_word_def act_simps chip_read_def chip_write_def case_prod_beta)
  moreover have "request_word rounds lib a s = (Inr (), ?s3)"
    using s1(1) s2(1) s3(1) by (simp add: request_word_def act_simps)
  ultimately show ?thesis
    using masks41_sent by (intro exI [of _ ?s3] exI [of _ "fst ?S"]) simp
qed

lemma requests_run:
  assumes "linked_to C view s c R" and "length (m_output s) + 69 * n \<le> OUTPUT_SIZE"
  shows "\<exists>s' oss. seqsM (map (\<lambda>i. request_word rounds lib (a + of_nat i * 4)) [0..<n]) s = (Inr (), s') \<and>
    step_to C view s s' (snd (read_each (chip_read_word C) n a c)) (R @ concat (map (packet_reply 41) oss)) (69 * n) \<and>
    (n > 0 \<or> masks41 s \<longrightarrow> masks41 s') \<and> length oss = n \<and> (\<forall>os \<in> set oss. length os = 41) \<and>
    fst (read_each (chip_read_word C) n a c) = Inr (map (\<lambda>os. bits_word (drop 9 os)) oss)"
  using assms
proof (induction n arbitrary: s c R a)
  case 0
  then show ?case
    by (simp add: retM_apply step_to_def)
next
  case (Suc n)
  obtain s1 os where s1: "request_word rounds lib a s = (Inr (), s1)"
      "step_to C view s s1 (snd (chip_read_word C a c)) (R @ packet_reply 41 os) 69" "masks41 s1" "length os = 41"
      "fst (chip_read_word C a c) = Inr (bits_word (drop 9 os))"
    using request_run [OF Suc.prems(1), of rounds lib a] Suc.prems(2) by auto
  let ?c1 = "snd (chip_read_word C a c)"
  obtain s2 oss where s2: "seqsM (map (\<lambda>i. request_word rounds lib (a + 4 + of_nat i * 4)) [0..<n]) s1 = (Inr (), s2)"
      "step_to C view s1 s2 (snd (read_each (chip_read_word C) n (a + 4) ?c1))
         ((R @ packet_reply 41 os) @ concat (map (packet_reply 41) oss)) (69 * n)"
      "masks41 s2" "length oss = n" "\<forall>os \<in> set oss. length os = 41"
      "fst (read_each (chip_read_word C) n (a + 4) ?c1) = Inr (map (\<lambda>os. bits_word (drop 9 os)) oss)"
    using Suc.IH [of s1 ?c1 "R @ packet_reply 41 os" "a + 4"] s1(2,3) Suc.prems(2) by (auto simp: step_to_def)
  have "map (\<lambda>i. request_word rounds lib (a + of_nat i * 4)) [0..<Suc n] =
      request_word rounds lib a # map (\<lambda>i. request_word rounds lib (a + 4 + of_nat i * 4)) [0..<n]"
    by (simp add: upt_conv_Cons map_Suc_upt [symmetric] algebra_simps del: upt_Suc)
  then have "seqsM (map (\<lambda>i. request_word rounds lib (a + of_nat i * 4)) [0..<Suc n]) s = (Inr (), s2)"
    using s1(1) s2(1) by (simp add: seqM_apply del: upt_Suc)
  moreover have "read_each (chip_read_word C) (Suc n) a c =
      (Inr (map (\<lambda>os. bits_word (drop 9 os)) (os # oss)), snd (read_each (chip_read_word C) n (a + 4) ?c1))"
    using s1(5) s2(6) by (cases "chip_read_word C a c"; cases "read_each (chip_read_word C) n (a + 4) ?c1")
      (simp add: act_simps)
  ultimately show ?case
    using s1(2,4) s2(2-5) by (intro exI [of _ s2] exI [of _ "os # oss"]) (simp add: step_to_def)
qed

lemma reply_words_run:
  assumes "masks41 s" and "length (m_input s) = INPUT_SIZE" and "length oss + i \<le> 10"
    and "m_input s = pre @ concat (map (packet_reply 41) oss) @ rest" and "length pre = 6 * i"
    and "\<forall>os \<in> set oss. length os = 41"
  shows "reply_words (length oss) i s = (Inr (map (\<lambda>os. bits_word (drop 9 os)) oss), s)"
  using assms(3-6)
proof (induction oss arbitrary: i pre)
  case Nil
  then show ?case
    by (simp add: retM_apply)
next
  case (Cons os oss)
  have bpw: "bytes_per_word s = 6"
    using assms(1) by (simp add: masks41_def)
  have "drop (i * 6) (m_input s) = packet_reply 41 os @ concat (map (packet_reply 41) oss) @ rest"
    using Cons.prems(2,3) by (simp add: mult.commute)
  moreover have "i * 6 + 8 \<le> length (m_input s)"
    using assms(2) Cons.prems(1) by (simp add: INPUT_SIZE_def)
  ultimately have w: "input_word (i * 6) s =
      (Inr (horner_sum ucast 256 (take 8 (packet_reply 41 os @ concat (map (packet_reply 41) oss) @ rest))), s)"
    by (simp only: input_word_def if_True)
  have d: "(ucast (drop_bit 9 (mpsse_fix_data s (horner_sum ucast 256
      (take 8 (packet_reply 41 os @ concat (map (packet_reply 41) oss) @ rest))))) :: u32) = bits_word (drop 9 os)"
    using Cons.prems(4) by (intro masks41_fix [OF assms(1)]) simp
  have "reply_words (length oss) (i + 1) s = (Inr (map (\<lambda>os. bits_word (drop 9 os)) oss), s)"
    using Cons.prems by (intro Cons.IH [of _ "pre @ packet_reply 41 os"]) (simp_all add: data_bytes_def)
  then show ?case
    by (simp only: list.size reply_words.simps add_Suc_right add_0_right bindM_apply getM_apply bpw w d retM_apply
        prod.case sum.case list.map Suc_eq_plus1 [symmetric])
qed

lemma length_replies: "\<forall>os \<in> set oss. length os = 41 \<Longrightarrow> length (concat (map (packet_reply 41) oss)) = 6 * length oss"
  by (induction oss) (simp_all add: data_bytes_def)

lemma chunk_run:
  assumes "mpsse_engine C view lib" and "linked C view s c" and "m_output s = []" and "n \<le> 10" and "n > 0"
    and "rounds \<ge> 60"
  shows "\<exists>s1 s' ds. seqsM (map (\<lambda>i. request_word rounds lib (a + of_nat i * 4)) [0..<n]) s = (Inr (), s1) \<and>
    mpsse_flush_output rounds lib s1 = (Inr (), s') \<and> reply_words n 0 s' = (Inr ds, s') \<and>
    read_each (chip_read_word C) n a c = (Inr ds, snd (read_each (chip_read_word C) n a c)) \<and>
    linked C view s' (snd (read_each (chip_read_word C) n a c)) \<and> m_output s' = []"
proof -
  let ?c = "snd (read_each (chip_read_word C) n a c)"
  obtain s1 oss where s1: "seqsM (map (\<lambda>i. request_word rounds lib (a + of_nat i * 4)) [0..<n]) s = (Inr (), s1)"
      "step_to C view s s1 ?c ([] @ concat (map (packet_reply 41) oss)) (69 * n)" "masks41 s1" "length oss = n"
      "\<forall>os \<in> set oss. length os = 41" "fst (read_each (chip_read_word C) n a c) = Inr (map (\<lambda>os. bits_word (drop 9 os)) oss)"
    using requests_run [of C view s c "[]" n rounds lib a] assms(2-5) by (auto simp: linked_def OUTPUT_SIZE_def)
  let ?R = "concat (map (packet_reply 41) oss)"
  have R: "length ?R = 6 * n" "length ?R \<le> min 62 rounds"
    using length_replies [OF s1(5)] s1(4) assms(4,6) by simp_all
  have l1: "linked_to C view s1 ?c ?R"
    using s1(2) by (simp add: step_to_def)
  obtain d where d: "mpsse_flush_output rounds lib s1 = (Inr (), flushed ?R d s1)"
      "linked_to C view (flushed ?R d s1) ?c []"
    using flush_run [OF assms(1) l1 R(2)] by blast
  have "reply_words (length oss) 0 (flushed ?R d s1) = (Inr (map (\<lambda>os. bits_word (drop 9 os)) oss), flushed ?R d s1)"
  proof (rule reply_words_run)
    show "masks41 (flushed ?R d s1)"
      using s1(3) by (simp add: masks41_def)
    show "length (m_input (flushed ?R d s1)) = INPUT_SIZE"
      using d(2) by (auto simp: linked_to_def buffered_def)
  qed (use s1(4,5) assms(4) in \<open>simp_all\<close>)
  then show ?thesis
    using s1(1,4,6) d by (intro exI [of _ s1] exI [of _ "flushed ?R d s1"] exI [of _ "map (\<lambda>os. bits_word (drop 9 os)) oss"])
      (simp add: linked_def prod_eq_iff)
qed

lemma read_loop_run:
  assumes "mpsse_engine C view lib" and "linked C view s c" and "m_output s = []" and "rounds \<ge> 60"
  shows "\<exists>s'. read_words_loop rounds lib nwords a s = (fst (read_each (chip_read_word C) nwords a c), s') \<and>
    linked C view s' (snd (read_each (chip_read_word C) nwords a c))"
  using assms(2,3)
proof (induction nwords arbitrary: a s c rule: less_induct)
  case (less nwords)
  show ?case
  proof (cases "nwords = 0")
    case True
    then show ?thesis
      using less.prems by (simp add: read_words_loop.simps retM_apply)
  next
    case False
    define n where "n = min 10 nwords"
    have n: "n \<le> 10" "n > 0" "nwords = n + (nwords - n)"
      using False by (simp_all add: n_def)
    obtain s1 s2 ds where s: "seqsM (map (\<lambda>i. request_word rounds lib (a + of_nat i * 4)) [0..<n]) s = (Inr (), s1)"
        "mpsse_flush_output rounds lib s1 = (Inr (), s2)" "reply_words n 0 s2 = (Inr ds, s2)"
        "read_each (chip_read_word C) n a c = (Inr ds, snd (read_each (chip_read_word C) n a c))"
        "linked C view s2 (snd (read_each (chip_read_word C) n a c))" "m_output s2 = []"
      using chunk_run [OF assms(1) less.prems n(1,2) assms(4)] by blast
    let ?c2 = "snd (read_each (chip_read_word C) n a c)"
    let ?rest = "read_each (chip_read_word C) (nwords - n) (a + of_nat n * 4)"
    obtain s3 where s3: "read_words_loop rounds lib (nwords - n) (a + of_nat n * 4) s2 = (fst (?rest ?c2), s3)"
        "linked C view s3 (snd (?rest ?c2))"
      using less.IH [of "nwords - n" s2 ?c2 "a + of_nat n * 4"] n s(5,6) by auto
    have "read_words_loop rounds lib nwords a s =
        bindM (read_words_loop rounds lib (nwords - n) (a + of_nat n * 4)) (\<lambda>rest. retM (ds @ rest)) s2"
      using False s(1-3) by (subst read_words_loop.simps) (simp add: n_def [symmetric] Let_def seqM_apply bindM_apply)
    moreover
    have split: "read_each (chip_read_word C) nwords a =
        bindM (read_each (chip_read_word C) n a) (\<lambda>ds. bindM ?rest (\<lambda>rest. retM (ds @ rest)))"
      using read_each_add [of "chip_read_word C" n "nwords - n" a] n(3) by simp
    have "read_each (chip_read_word C) nwords a c = bindM ?rest (\<lambda>rest. retM (ds @ rest)) ?c2"
      unfolding split by (subst bindM_apply, subst s(4)) simp
    ultimately show ?thesis
      using s3 by (cases "?rest ?c2"; cases "fst (?rest ?c2)") (auto simp: bindM_apply retM_apply)
  qed
qed

lemma sim_read_block:
  assumes "mpsse_engine C view lib" and "rounds \<ge> 60"
  shows "sim (linked_world C view) (mpsse_read_block rounds lib nwords a)
    (seqM (chip_allow C oscr_read) (on_dev (read_each (chip_read_word C) nwords a)))"
proof -
  have "sim (linked C view) (seqM (mpsse_flush_output rounds lib) (read_words_loop rounds lib nwords a))
      (read_each (chip_read_word C) nwords a)"
  proof (rule simI)
    fix s c
    assume "linked C view s c"
    then obtain s1 where s1: "mpsse_flush_output rounds lib s = (Inr (), s1)" "linked C view s1 c" "m_output s1 = []"
      using flush_run [OF assms(1), of s c "[]" rounds] unfolding linked_def by auto
    then show "\<exists>s'. seqM (mpsse_flush_output rounds lib) (read_words_loop rounds lib nwords a) s =
        (fst (read_each (chip_read_word C) nwords a c), s') \<and> linked C view s' (snd (read_each (chip_read_word C) nwords a c))"
      using read_loop_run [OF assms(1) s1(2,3) assms(2)] by (simp add: seqM_apply)
  qed
  then show ?thesis
    unfolding mpsse_read_block_def by (intro sim_seqM sim_allow [OF assms(1)] sim_on_dev)
qed

section \<open>The link is kept\<close>

text \<open>An operation that returns and keeps the link, from every linked state.\<close>

definition keeps_link :: "'c scan_chip \<Rightarrow> ('d \<Rightarrow> 'c engine) \<Rightarrow> ('d mpsse aworld, 'a) act \<Rightarrow> bool" where
  "keeps_link C view m \<longleftrightarrow>
     (\<forall>w. (\<exists>c. linked C view (dev w) c) \<longrightarrow> (\<exists>x w'. m w = (Inr x, w') \<and> (\<exists>c. linked C view (dev w') c)))"

lemma keeps_link_on_dev:
  fixes view :: "'d \<Rightarrow> 'c engine"
  assumes "\<And>s c. linked C view s c \<Longrightarrow> \<exists>x s' c'. m s = (Inr x, s') \<and> linked C view s' c'"
  shows "keeps_link C view (on_dev m)"
  unfolding keeps_link_def
proof (intro allI impI)
  fix w :: "'d mpsse aworld"
  assume "\<exists>c. linked C view (dev w) c"
  then obtain x s' c' where "m (dev w) = (Inr x, s')" "linked C view s' c'"
    using assms by blast
  then show "\<exists>x w'. on_dev m w = (Inr x, w') \<and> (\<exists>c. linked C view (dev w') c)"
    by (intro exI [of _ x] exI [of _ "w\<lparr>dev := s'\<rparr>"]) (auto simp: on_dev_def zoomM_apply)
qed

lemma keeps_link_sim:
  fixes view :: "'d \<Rightarrow> 'c engine"
  assumes "sim (linked_world C view) m M" and "\<And>W. \<exists>x. fst (M W) = Inr x"
  shows "keeps_link C view m"
  unfolding keeps_link_def
proof (intro allI impI)
  fix w :: "'d mpsse aworld"
  assume "\<exists>c. linked C view (dev w) c"
  then obtain c where "linked_world C view w \<lparr>oscr = oscr w, dev = c\<rparr>"
    by (auto simp: linked_world_def)
  then obtain w' where "m w = (fst (M \<lparr>oscr = oscr w, dev = c\<rparr>), w')"
      "linked_world C view w' (snd (M \<lparr>oscr = oscr w, dev = c\<rparr>))"
    by (rule simE [OF assms(1)])
  then show "\<exists>x w'. m w = (Inr x, w') \<and> (\<exists>c. linked C view (dev w') c)"
    using assms(2) [of "\<lparr>oscr = oscr w, dev = c\<rparr>"] unfolding linked_world_def by metis
qed

lemma chip_ops_return [simp]:
  "fst (chip_write C v r n c) = Inr ()" "\<exists>x. fst (chip_read C r n c) = Inr x"
  by (simp_all add: chip_write_def chip_read_def case_prod_beta)

lemma seqM_returns: "(\<And>s. \<exists>x. fst (m s) = Inr x) \<Longrightarrow> (\<And>s. \<exists>x. fst (n s) = Inr x) \<Longrightarrow> \<exists>x. fst (seqM m n s) = Inr x"
  by (metis (no_types, lifting) case_prod_conv fst_conv seqM_apply old.sum.simps(6) surjective_pairing)

lemma chip_block_returns:
  "\<exists>x. fst (chip_allow C f W) = Inr x" "\<exists>x. fst (on_dev (chip_write_word C ad) W) = Inr x"
  "\<exists>x. fst (chip_write_word C ad c) = Inr x" "\<exists>x. fst (chip_read_word C a c) = Inr x"
proof -
  show "\<exists>x. fst (chip_allow C f W) = Inr x"
    by (simp add: chip_allow_def act_simps on_dev_def case_prod_beta)
  show w: "\<exists>x. fst (chip_write_word C ad c) = Inr x" for ad c
    by (simp add: chip_write_word_def act_simps chip_write_def)
  show "\<exists>x. fst (on_dev (chip_write_word C ad) W) = Inr x"
    using w by (simp add: on_dev_def zoomM_apply case_prod_beta)
  show "\<exists>x. fst (chip_read_word C a c) = Inr x"
    by (simp add: chip_read_word_def act_simps chip_write_def chip_read_def case_prod_beta)
qed

lemma on_dev_returns: "(\<And>c. \<exists>x. fst (m c) = Inr x) \<Longrightarrow> \<exists>x. fst (on_dev m W) = Inr x"
  by (simp add: on_dev_def zoomM_apply case_prod_beta)

lemma write_each_returns: "(\<And>ad c. \<exists>x. fst (f ad c) = Inr x) \<Longrightarrow> \<exists>x. fst (write_each f a ds c) = Inr x"
proof (induction ds arbitrary: a c)
  case (Cons d ds)
  show ?case
    unfolding write_each.simps by (rule seqM_returns [OF Cons.prems Cons.IH [OF Cons.prems]])
qed (simp add: retM_apply)

lemma seqs_returns: "(\<And>y c. \<exists>x. fst (f y c) = Inr x) \<Longrightarrow> \<exists>x. fst (seqsM (map f ys) c) = Inr x"
proof (induction ys arbitrary: c)
  case (Cons y ys)
  show ?case
    unfolding list.map seqsM.simps by (rule seqM_returns [OF Cons.prems Cons.IH [OF Cons.prems]])
qed (simp add: retM_apply)

lemma read_each_returns: "(\<And>a c. \<exists>x. fst (f a c) = Inr x) \<Longrightarrow> \<exists>x. fst (read_each f n a c) = Inr x"
proof (induction n arbitrary: a c)
  case (Suc n)
  obtain d c1 where d: "f a c = (Inr d, c1)"
    using Suc.prems by (metis prod.collapse)
  obtain ds c2 where "read_each f n (a + 4) c1 = (Inr ds, c2)"
    using Suc.IH [OF Suc.prems] by (metis prod.collapse)
  then show ?case
    using d by (simp add: act_simps)
qed (simp add: retM_apply)

lemma tap_status_run:
  assumes "mpsse_engine C view lib" and "linked C view s c" and "rounds \<ge> 8"
  shows "\<exists>w s'. seqM (mpsse_send rounds lib 1 1 4 v True) (mpsse_recv rounds lib) s = (Inr w, s') \<and>
    linked C view s' (snd (scan_ir C (low_bits 4 v) c))"
proof -
  obtain s0 where s0: "mpsse_send rounds lib 1 1 4 v True s = (Inr (), sent 1 1 4 v True s0)"
    and l: "linked_to C view (sent 1 1 4 v True s0) (snd (packet_scan 1 C (low_bits 4 v) c))
      (packet_reply 4 (fst (packet_scan 1 C (low_bits 4 v) c)))"
    using send_any [OF assms(1,2), of 1 1 4 True rounds v] by auto
  obtain w s' where "mpsse_recv rounds lib (sent 1 1 4 v True s0) = (Inr w, s')"
      "linked C view s' (snd (packet_scan 1 C (low_bits 4 v) c))"
    using recv_run [OF assms(1) _ _ _ assms(3) l] by auto
  then show ?thesis
    using s0 by (simp add: seqM_apply packet_scan_def)
qed

lemma cpu_stopped_linked:
  assumes "mpsse_engine C view lib" and "linked C view s c" and "rounds \<ge> 8"
  shows "\<exists>x s' c'. mpsse_cpu_stopped rounds lib s = (Inr x, s') \<and> linked C view s' c'"
proof -
  obtain w s' where "seqM (mpsse_send rounds lib 1 1 4 (ucast TAP_DEBUG_ENABLE) True) (mpsse_recv rounds lib) s = (Inr w, s')"
      "linked C view s' (snd (scan_ir C (low_bits 4 (ucast TAP_DEBUG_ENABLE)) c))"
    using tap_status_run [OF assms] by blast
  moreover have "mpsse_cpu_stopped rounds lib = bindM (seqM (mpsse_send rounds lib 1 1 4 (ucast TAP_DEBUG_ENABLE) True)
      (mpsse_recv rounds lib)) (\<lambda>w. retM ((ucast w :: u32) AND 4 \<noteq> 0))"
    by (simp add: mpsse_cpu_stopped_def seqM_def bindM_assoc)
  ultimately show ?thesis
    by (auto simp: bindM_apply retM_apply)
qed

lemma linked_buffered: "linked C view s c \<Longrightarrow> \<exists>e. buffered C view s e \<and> e_replies e = []"
  by (auto simp: linked_def linked_to_def)

end
