(* ===== verification/Mpsse_Target.thy ===== *)
theory Mpsse_Target
  imports Mpsse_Block Elvees_Mem
begin

text \<open>
  The target layer over the FT2232 driver: a driver that is linked to a chip with the debug unit
  at the end of its scan chain keeps the laws of the unit (\<open>oncd_unit\<close>) and of the block
  functions (\<open>block_ops\<close>) that the target layer relies on, so that what is proved over them
  holds down to the USB transfers.
\<close>

section \<open>The chip behind the driver\<close>

text \<open>The chip as it will be when the buffer has been sent, and the view of the unit through it.\<close>

definition pending_chip :: "'c scan_chip \<Rightarrow> ('d \<Rightarrow> 'c engine) \<Rightarrow> 'd mpsse \<Rightarrow> 'c" where
  "pending_chip C view s = the_chip (e_port (exec_cmds C (the (mpsse_parse (m_output s))) (view (mdev s))))"

definition linked_ok :: "'c scan_chip \<Rightarrow> ('d \<Rightarrow> 'c engine) \<Rightarrow> 'd mpsse \<Rightarrow> bool" where
  "linked_ok C view s \<longleftrightarrow> (\<exists>c. linked C view s c)"

definition unit_view :: "'c scan_chip \<Rightarrow> ('d \<Rightarrow> 'c engine) \<Rightarrow> ('c \<Rightarrow> chip) \<Rightarrow> 'd mpsse \<Rightarrow> chip" where
  "unit_view C view cv s = cv (pending_chip C view s)"

lemma linked_pending:
  assumes "linked C view s c"
  shows "pending_chip C view s = c"
proof -
  obtain cs where "list_all mcmd_ok cs" "m_output s = concat (map enc cs)"
      "the_chip (e_port (exec_cmds C cs (view (mdev s)))) = c"
    using assms unfolding linked_def linked_to_def buffered_def by blast
  then show ?thesis
    by (simp add: pending_chip_def parse_encs)
qed

lemma linked_view: "linked C view s c \<Longrightarrow> linked_ok C view s \<and> unit_view C view cv s = cv c"
  by (auto simp: linked_ok_def unit_view_def linked_pending)

lemma linked_okE:
  assumes "linked_ok C view s"
  obtains c where "linked C view s c" and "\<And>cv. unit_view C view cv s = cv c"
  using assms unfolding linked_ok_def unit_view_def by (metis linked_pending)

section \<open>The basic functions\<close>

lemma mpsse_table_simps [simp]:
  "a_oncd_write (mpsse_table reads lib) v r n = on_dev (mpsse_oncd_write reads lib v r n)"
  "a_oncd_read (mpsse_table reads lib) r n = on_dev (mpsse_oncd_read reads lib r n)"
  "a_read_block (mpsse_table reads lib) = Some (mpsse_read_block reads lib)"
  "a_write_block (mpsse_table reads lib) = Some (mpsse_write_block reads lib)"
  "a_block_words (mpsse_table reads lib) = 999999"
  by (simp_all add: mpsse_table_def)

lemma mpsse_serial:
  assumes "mpsse_engine C view lib" and "reads \<ge> 8"
  shows "serial_adapter (mpsse_table reads lib) C (linked C view) (pending_chip C view)"
proof
  show "\<exists>d. a_oncd_write (mpsse_table reads lib) v r n w = (Inr (), w\<lparr>dev := d\<rparr>) \<and>
      linked C view d (snd (chip_write C v r n c))" if "linked C view (dev w) c" "n \<le> 32" for w c n v r
    using mpsse_write_linked [OF assms(1) that, of reads v r] by (auto simp: on_dev_def zoomM_apply)
  show "\<exists>d. a_oncd_read (mpsse_table reads lib) r 32 w = (fst (chip_read C r 32 c), w\<lparr>dev := d\<rparr>) \<and>
      linked C view d (snd (chip_read C r 32 c))" if "linked C view (dev w) c" for w c r
    using mpsse_read_linked [OF assms(1) that _ assms(2), of 32 r] by (auto simp: on_dev_def zoomM_apply)
qed (rule linked_pending)

lemma mpsse_oncd_unit:
  assumes "mpsse_engine C view lib" and "serial_unit C rd cv" and "reads \<ge> 8"
  shows "oncd_unit (linked_ok C view) rd (unit_view C view cv) (mpsse_table reads lib)"
  using serial_adapter.unit_laws [OF mpsse_serial [OF assms(1,3)] assms(2)]
  by (simp add: linked_ok_def [abs_def] unit_view_def [abs_def])

section \<open>The block functions\<close>

lemma chip_words:
  assumes "serial_unit C rd cv"
  shows "c_oscr (cv c) AND 3 = 3 \<Longrightarrow> phys_of a = a \<Longrightarrow>
      \<exists>c'. chip_read_word C a c = (Inr (rd (hist (cv c)) a), c') \<and> hist (cv c') = hist (cv c) @ [BR a] \<and>
        c_oscr (cv c') = c_oscr (cv c)" (is "?m3 \<Longrightarrow> ?a \<Longrightarrow> ?read")
    and "c_oscr (cv c) AND 3 = 1 \<Longrightarrow>
      \<exists>c'. chip_write_word C (a, d) c = (Inr (), c') \<and> hist (cv c') = hist (cv c) @ [BW a d] \<and>
        c_oscr (cv c') = c_oscr (cv c)" (is "?m1 \<Longrightarrow> ?wr")
proof -
  have w: "cv (snd (chip_write C v OnCD_OMAR 32 c)) = (cv c)\<lparr>omar := v\<rparr>"
      "cv (snd (chip_write C v OnCD_OMDR 32 c)) = (cv c)\<lparr>omdr := v\<rparr>"
      "cv (snd (chip_write C 0 OnCD_MEM 0 c)) = mem_access rd (cv c)" for v c
    using assms by (simp_all add: serial_unit_def serial_writes_def)
  have ok: "fst (chip_write C v r n c) = Inr ()" for v r n c
    by (simp add: chip_write_def)
  obtain x c' where r: "chip_read C OnCD_OMDR 32 (snd (chip_write C 0 OnCD_MEM 0 (snd (chip_write C a OnCD_OMAR 32 c)))) =
      (Inr x, c')" "cv c' = mem_access rd ((cv c)\<lparr>omar := a\<rparr>)" "x = omdr (mem_access rd ((cv c)\<lparr>omar := a\<rparr>))"
    using assms unfolding serial_unit_def serial_reads_def by (metis w(1,3))
  have "chip_read_word C a c = (Inr x, c')"
    using r(1) ok by (simp add: chip_read_word_def seqM_apply case_prod_beta)
  then show ?read if ?m3 ?a
    using r(2,3) mode_select(2) [OF that(1)] by (simp add: mem_access_def)
  let ?c3 = "snd (chip_write C 0 OnCD_MEM 0 (snd (chip_write C d OnCD_OMDR 32 (snd (chip_write C a OnCD_OMAR 32 c)))))"
  have "chip_write_word C (a, d) c = (Inr (), ?c3)"
    by (simp add: chip_write_word_def seqM_apply case_prod_beta retM_apply ok prod_eq_iff)
  then show ?wr if ?m1
    using mode_select(1) [OF that] by (simp add: w mem_access_def)
qed

lemma phys_range_Suc:
  assumes "phys_range a (Suc n)"
  shows "phys_of a = a" and "phys_range (a + 4) n"
  using assms phys_range_drop [OF assms, of 1] unfolding phys_range_def by auto

lemma read_each_bus:
  assumes "serial_unit C rd cv" and "c_oscr (cv c) AND 3 = 3" and "phys_range a n"
  shows "\<exists>c'. read_each (chip_read_word C) n a c = (fst (bus_read_words rd a n (hist (cv c))), c') \<and>
    hist (cv c') = snd (bus_read_words rd a n (hist (cv c))) \<and> c_oscr (cv c') = c_oscr (cv c)"
  using assms(2,3)
proof (induction n arbitrary: a c)
  case (Suc n)
  note p = phys_range_Suc [OF Suc.prems(2)]
  obtain c1 where c1: "chip_read_word C a c = (Inr (rd (hist (cv c)) a), c1)"
      "hist (cv c1) = hist (cv c) @ [BR a]" "c_oscr (cv c1) = c_oscr (cv c)"
    using chip_words(1) [OF assms(1) Suc.prems(1) p(1)] by blast
  obtain c2 where "read_each (chip_read_word C) n (a + 4) c1 = (fst (bus_read_words rd (a + 4) n (hist (cv c1))), c2)"
      "hist (cv c2) = snd (bus_read_words rd (a + 4) n (hist (cv c1)))" "c_oscr (cv c2) = c_oscr (cv c1)"
    using Suc.IH [of c1 "a + 4"] Suc.prems(1) c1(3) p(2) by auto
  then show ?case
    using c1 p(1)
    by (cases "bus_read_words rd (a + 4) n (hist (cv c) @ [BR a])"; cases "fst (bus_read_words rd (a + 4) n (hist (cv c) @ [BR a]))")
      (auto simp: bindM_apply bus_read_def retM_apply)
qed (simp add: retM_apply)

lemma write_each_bus:
  assumes "serial_unit C rd cv" and "c_oscr (cv c) AND 3 = 1" and "phys_range a (length ds)"
  shows "\<exists>c'. write_each (chip_write_word C) a ds c = (Inr (), c') \<and>
    hist (cv c') = hist (cv c) @ bw_all (block_pairs a (length ds) ds) \<and> c_oscr (cv c') = c_oscr (cv c)"
  using assms(2,3)
proof (induction ds arbitrary: a c)
  case (Cons d ds)
  note p = phys_range_Suc [OF Cons.prems(2) [simplified]]
  obtain c1 where c1: "chip_write_word C (a, d) c = (Inr (), c1)"
      "hist (cv c1) = hist (cv c) @ [BW a d]" "c_oscr (cv c1) = c_oscr (cv c)"
    using chip_words(2) [OF assms(1) Cons.prems(1)] by blast
  obtain c2 where "write_each (chip_write_word C) (a + 4) ds c1 = (Inr (), c2)"
      "hist (cv c2) = hist (cv c1) @ bw_all (block_pairs (a + 4) (length ds) ds)" "c_oscr (cv c2) = c_oscr (cv c1)"
    using Cons.IH [of c1 "a + 4"] Cons.prems(1) c1(3) p(2) by auto
  moreover have "block_pairs a (length (d # ds)) (d # ds) = (a, d) # block_pairs (a + 4) (length ds) ds"
    by (simp add: block_pairs_def upt_conv_Cons map_Suc_upt [symmetric] algebra_simps del: upt_Suc)
  ultimately show ?case
    using c1 p(1) by (simp add: seqM_apply bw_all_def)
qed (simp add: retM_apply block_pairs_def)

lemma chip_allow_run:
  assumes "serial_unit C rd cv" and "oscr W AND 3 = c_oscr (cv (dev W)) AND 3"
  shows "\<exists>W'. chip_allow C f W = (Inr (), W') \<and> hist (cv (dev W')) = hist (cv (dev W)) \<and>
    oscr W' = f (oscr W) \<and> c_oscr (cv (dev W')) AND 3 = f (oscr W) AND 3"
proof (cases "f (oscr W) = oscr W")
  case True
  then show ?thesis
    using assms(2) by (simp add: chip_allow_def act_simps)
next
  case False
  have "cv (snd (chip_write C v OnCD_OSCR 32 c)) = (cv c)\<lparr>c_oscr := v\<rparr>" for v c
    using assms(1) by (simp add: serial_unit_def serial_writes_def)
  then show ?thesis
    using False by (simp add: chip_allow_def act_simps on_dev_def chip_write_def)
qed

lemma mode_and: "f (v :: u32) AND 3 = m \<Longrightarrow> o' AND 3 = f v AND 3 \<Longrightarrow> o' AND 3 = m"
  by simp

lemma world_of:
  assumes "linked C view (dev w) c"
  shows "linked_world C view w \<lparr>oscr = oscr w, dev = c\<rparr>"
  using assms by (simp add: linked_world_def)

text \<open>An operation that simulates one of the chip, which is a bus program, is that bus program.\<close>

lemma refines_sim:
  fixes view :: "'d \<Rightarrow> 'c engine"
  assumes "sim (linked_world C view) m M"
    and "\<And>W. oscr W AND 3 = c_oscr (cv (dev W)) AND 3 \<Longrightarrow>
      \<exists>W'. M W = (fst (B (hist (cv (dev W)))), W') \<and> hist (cv (dev W')) = snd (B (hist (cv (dev W)))) \<and>
        oscr W' AND 3 = c_oscr (cv (dev W')) AND 3"
  shows "refines_op (linked_ok C view) (unit_view C view cv) m B"
  unfolding refines_op_def
proof (intro allI impI)
  fix w :: "'d mpsse aworld"
  assume "linked_ok C view (dev w)" and o: "oscr w AND 3 = c_oscr (unit_view C view cv (dev w)) AND 3"
  then obtain c where c: "linked C view (dev w) c" "unit_view C view cv (dev w) = cv c"
    by (metis linked_okE)
  let ?W = "\<lparr>oscr = oscr w, dev = c\<rparr>"
  obtain W' where W': "M ?W = (fst (B (hist (cv c))), W')" "hist (cv (dev W')) = snd (B (hist (cv c)))"
      "oscr W' AND 3 = c_oscr (cv (dev W')) AND 3"
    using assms(2) [of ?W] o c(2) by auto
  obtain w' where w': "m w = (fst (M ?W), w')" "linked_world C view w' (snd (M ?W))"
    by (rule simE [OF assms(1) world_of [OF c(1)]])
  then have "linked C view (dev w') (dev W')" "oscr w' = oscr W'"
    using W'(1) by (simp_all add: linked_world_def)
  then show "\<exists>w'. m w = (fst (B (hist (unit_view C view cv (dev w)))), w') \<and> linked_ok C view (dev w') \<and>
      hist (unit_view C view cv (dev w')) = snd (B (hist (unit_view C view cv (dev w)))) \<and>
      oscr w' AND 3 = c_oscr (unit_view C view cv (dev w')) AND 3"
    using w'(1) W' c(2) linked_view [of C view "dev w'" "dev W'" cv] by (intro exI [of _ w']) simp
qed

lemma mpsse_block_ops:
  assumes "mpsse_engine C view lib" and "serial_unit C rd cv" and "reads \<ge> 60"
  shows "block_ops (linked_ok C view) rd (unit_view C view cv) (mpsse_table reads lib)"
proof -
  have rblock: "refines_op (linked_ok C view) (unit_view C view cv) (mpsse_read_block reads lib n addr)
      (bus_read_words rd addr n)" if range: "phys_range addr n" for n addr
  proof (rule refines_sim [OF sim_read_block [OF assms(1,3)]])
    fix W :: "'a aworld"
    assume "oscr W AND 3 = c_oscr (cv (dev W)) AND 3"
    then obtain W1 where W1: "chip_allow C oscr_read W = (Inr (), W1)" "hist (cv (dev W1)) = hist (cv (dev W))"
        "oscr W1 = oscr_read (oscr W)" "c_oscr (cv (dev W1)) AND 3 = oscr_read (oscr W) AND 3"
      using chip_allow_run [OF assms(2), of W oscr_read] by blast
    then have "c_oscr (cv (dev W1)) AND 3 = 3"
      using mode_set(2) by metis
    then obtain c' where "read_each (chip_read_word C) n addr (dev W1) =
          (fst (bus_read_words rd addr n (hist (cv (dev W)))), c')"
        "hist (cv c') = snd (bus_read_words rd addr n (hist (cv (dev W))))" "c_oscr (cv c') = c_oscr (cv (dev W1))"
      using read_each_bus [OF assms(2) _ range, of "dev W1"] W1(2) by auto
    then show "\<exists>W'. seqM (chip_allow C oscr_read) (on_dev (read_each (chip_read_word C) n addr)) W =
          (fst (bus_read_words rd addr n (hist (cv (dev W)))), W') \<and>
        hist (cv (dev W')) = snd (bus_read_words rd addr n (hist (cv (dev W)))) \<and>
        oscr W' AND 3 = c_oscr (cv (dev W')) AND 3"
      using W1 by (intro exI [of _ "W1\<lparr>dev := c'\<rparr>"]) (simp add: seqM_apply on_dev_def zoomM_apply)
  qed
  have wblock: "refines_op (linked_ok C view) (unit_view C view cv) (mpsse_write_block reads lib n addr data)
      (bus_writes (block_pairs addr n data))" if range: "phys_range addr n" and n: "n \<le> length data" for n addr data
  proof -
    let ?ds = "take n data"
    have ds: "length ?ds = n" "block_pairs addr n ?ds = block_pairs addr n data"
      using n by (simp_all add: block_pairs_def)
    have block: "mpsse_write_block reads lib n addr data = mpsse_write_block reads lib (length ?ds) addr ?ds"
      using n by (simp add: mpsse_write_block_def write_block_loop_take)
    show ?thesis
      unfolding block
    proof (rule refines_sim [OF sim_write_block [OF assms(1)]])
      fix W :: "'a aworld"
      assume "oscr W AND 3 = c_oscr (cv (dev W)) AND 3"
      then obtain W1 where W1: "chip_allow C oscr_write W = (Inr (), W1)" "hist (cv (dev W1)) = hist (cv (dev W))"
          "oscr W1 = oscr_write (oscr W)" "c_oscr (cv (dev W1)) AND 3 = oscr_write (oscr W) AND 3"
        using chip_allow_run [OF assms(2), of W oscr_write] by blast
      then have "c_oscr (cv (dev W1)) AND 3 = 1"
        using mode_set(1) by metis
      then obtain c' where "write_each (chip_write_word C) addr ?ds (dev W1) = (Inr (), c')"
          "hist (cv c') = hist (cv (dev W)) @ bw_all (block_pairs addr n data)" "c_oscr (cv c') = c_oscr (cv (dev W1))"
        using write_each_bus [OF assms(2), of "dev W1" addr ?ds, unfolded ds] W1(2) range by auto
      then show "\<exists>W'. seqM (chip_allow C oscr_write) (on_dev (write_each (chip_write_word C) addr ?ds)) W =
            (fst (bus_writes (block_pairs addr n data) (hist (cv (dev W)))), W') \<and>
          hist (cv (dev W')) = snd (bus_writes (block_pairs addr n data) (hist (cv (dev W)))) \<and>
          oscr W' AND 3 = c_oscr (cv (dev W')) AND 3"
        using W1 by (intro exI [of _ "W1\<lparr>dev := c'\<rparr>"]) (simp add: seqM_apply on_dev_def zoomM_apply bus_writes_run)
    qed
  qed
  show ?thesis
    using rblock wblock by (auto simp: block_ops_def)
qed

section \<open>A target on the adapter\<close>

lemma ft2232_good:
  assumes "mpsse_engine C view lib" and "serial_unit C rd cv" and "reads \<ge> 60"
    and "t_adapter t = mpsse_table reads lib" and "linked C view (dev (aw t)) c"
    and "oscr (aw t) AND 3 = c_oscr (cv c) AND 3"
  shows "good rd (unit_view C view cv) t"
  using mpsse_oncd_unit [OF assms(1,2), of reads] mpsse_block_ops [OF assms(1-3)] linked_view [OF assms(5), of cv] assms(3,4,6)
  unfolding good_def live_def by (intro conjI exI [of _ "linked_ok C view"]) simp_all

text \<open>
  C13: on a driver that is linked to a chip with the debug unit behind its
  scan chain, the functions of the FT2232 adapter keep the laws of the unit: a write of a
  register is seen by the unit, a read gives its value, a write to OnCD\_MEM makes one access
  to the memory bus; and a block function, which sends many packets in one transfer, makes the
  accesses of its words one after the other and returns what they read. The state stays linked.
\<close>

theorem ft2232_keeps_unit_laws:
  assumes "mpsse_engine C view lib" and "serial_unit C rd cv" and "reads \<ge> 60"
  shows "oncd_unit (linked_ok C view) rd (unit_view C view cv) (mpsse_table reads lib) \<and>
    block_ops (linked_ok C view) rd (unit_view C view cv) (mpsse_table reads lib)"
  using mpsse_oncd_unit [OF assms(1,2)] mpsse_block_ops [OF assms] assms(3) by simp

section \<open>An engine with the documented behaviour\<close>

text \<open>A bus with the engine itself behind it; it returns all replies that fit.\<close>

definition engine_usb :: "'c scan_chip \<Rightarrow> 'c engine usb" where
  "engine_usb C = \<lparr>u_devices = [(0x15ba, 0x0004)], u_open = (\<lambda>i e. (True, e)), u_claim = id, u_release = id,
     u_control = (\<lambda>req val ix len e. (if req = 10 then 1 else 0, e)),
     u_write = (\<lambda>ep bs e. case mpsse_parse bs of None \<Rightarrow> (Some (length bs), e)
       | Some cs \<Rightarrow> (Some (length bs), exec_cmds C cs e)),
     u_read = (\<lambda>ep n e. (Some (0 # 0 # take (n - 2) (e_replies e)), e\<lparr>e_replies := drop (n - 2) (e_replies e)\<rparr>))\<rparr>"

lemma engine_usb_ok: "mpsse_engine C (\<lambda>e. e) (engine_usb C)"
  unfolding mpsse_engine_def
proof (intro conjI allI impI)
  fix n :: nat and d :: "'a engine"
  assume "2 < n"
  then show "\<exists>x y j d'. u_read (engine_usb C) MPSSE_OUT_EP n d = (Some (x # y # take j (e_replies d)), d') \<and>
      j \<le> n - 2 \<and> (0 < j \<or> e_replies d = []) \<and> d' = d\<lparr>e_replies := drop j (e_replies d)\<rparr>"
    by (intro exI [of _ 0] exI [of _ "n - 2"]) (simp add: engine_usb_def)
qed (simp add: engine_usb_def)


text \<open>A driver that has just read IDCODE, in front of the unit.\<close>

definition sim_driver :: "(bus_op list \<Rightarrow> u32 \<Rightarrow> u32) \<Rightarrow> serial engine mpsse" where
  "sim_driver rd = (blank_mpsse \<lparr>e_port = \<lparr>tap_state = Update_DR, the_chip = \<lparr>s_unit = dev sim_world, s_bits = []\<rparr>\<rparr>,
     e_level = True, e_replies = []\<rparr>)\<lparr>bytes_per_word := 5\<rparr>"

lemma sim_driver_linked: "linked (unit_chip rd) (\<lambda>e. e) (sim_driver rd) \<lparr>s_unit = dev sim_world, s_bits = []\<rparr>"
  unfolding linked_def linked_to_def buffered_def sim_driver_def blank_mpsse_def
  by (auto simp: INPUT_SIZE_def parked_def intro!: exI [of _ "[]"])

definition sim_ft2232 :: "(bus_op list \<Rightarrow> u32 \<Rightarrow> u32) \<Rightarrow> serial engine mpsse target" where
  "sim_ft2232 rd = (new_target (mpsse_table 60 (engine_usb (unit_chip rd))) \<lparr>oscr = 0, dev = sim_driver rd\<rparr>)
     \<lparr>idcode := MC12REV1_ID\<rparr>"

interpretation ft2232: serial_adapter "mpsse_table 60 (engine_usb C)" C "linked C (\<lambda>e. e)" "pending_chip C (\<lambda>e. e)"
  by (rule mpsse_serial [OF engine_usb_ok]) simp

lemma sim_ft2232_good: "good rd (unit_view (unit_chip rd) (\<lambda>e. e) s_unit) (sim_ft2232 rd)"
proof (rule ft2232_good [OF engine_usb_ok unit_chip_ok _ _ _])
  show "linked (unit_chip rd) (\<lambda>e. e) (dev (aw (sim_ft2232 rd))) \<lparr>s_unit = dev sim_world, s_bits = []\<rparr>"
    using sim_driver_linked by (simp add: sim_ft2232_def new_target_def)
qed (simp_all add: sim_ft2232_def new_target_def sim_world_def)

theorem ft2232_keeps_unit_laws_witness:
  "oncd_unit (linked_ok (unit_chip (ram (\<lambda>_. 0))) (\<lambda>e. e)) (ram (\<lambda>_. 0)) (unit_view (unit_chip (ram (\<lambda>_. 0))) (\<lambda>e. e) s_unit)
      (mpsse_table 60 (engine_usb (unit_chip (ram (\<lambda>_. 0))))) \<and>
    block_ops (linked_ok (unit_chip (ram (\<lambda>_. 0))) (\<lambda>e. e)) (ram (\<lambda>_. 0)) (unit_view (unit_chip (ram (\<lambda>_. 0))) (\<lambda>e. e) s_unit)
      (mpsse_table 60 (engine_usb (unit_chip (ram (\<lambda>_. 0)))))"
  by (rule ft2232_keeps_unit_laws [OF engine_usb_ok unit_chip_ok]) simp


end
