(* ===== verification/Mpsse_Session.thy ===== *)
theory Mpsse_Session
  imports Mpsse_Target Elvees_Session
begin

text \<open>
  A session of the debugger over the FT2232 adapter, from the packet of the GDB protocol to the
  transfers on the USB bus.
\<close>

lemma ft2232_plain:
  assumes "mpsse_engine C view lib" and "serial_unit C (ram m) cv" and "reads \<ge> 60"
    and "t_adapter t = mpsse_table reads lib" and "linked C view (dev (aw t)) c"
    and "oscr (aw t) AND 3 = c_oscr (cv c) AND 3"
  shows "plain m (unit_view C view cv) t" and "mem_now m (unit_view C view cv) t = ram m (hist (cv c))"
proof -
  show "plain m (unit_view C view cv) t"
    unfolding plain_def by (rule ft2232_good [OF assms])
  show "mem_now m (unit_view C view cv) t = ram m (hist (cv c))"
    using linked_view [OF assms(5), of cv] by (simp add: mem_now_def bus_hist_def fun_eq_iff)
qed

text \<open>
  C3: a memory request \<open>m\<close> of the debugger, over a target on the FT2232
  adapter whose driver is linked to a chip with memory behind its debug unit, is answered with
  the hexadecimal text of exactly the bytes that the chip's memory has after the accesses so far,
  those of commands that are still in the driver's buffer included; the memory is kept.
\<close>

theorem ft2232_memory_read_answered:
  assumes "mpsse_engine C view lib" and "serial_unit C (ram m) cv" and "reads \<ge> 60"
    and "t_adapter t = mpsse_table reads lib" and "linked C view (dev (aw t)) c"
    and "oscr (aw t) AND 3 = c_oscr (cv c) AND 3"
    and "in_segment a n" and "0 < n" and "n \<le> 184" and "tgt p = Device t"
  shows "\<exists>p' t'. dispatch k (elvees_target opts_ok found)
      (CHR ''m'' # sprintf_016Lx (of_nat a) @ '','' @ sprintf_08x (of_nat n) @ NUL # stale) len p =
      (Inr True, p') \<and> tgt p' = Device t' \<and> kept m (unit_view C view cv) t t' \<and>
    out_buf p' = concat (map rp_encode_byte (map (mbyte (ram m (hist (cv c)))) [phys_nat a..<phys_nat a + n]))"
  using memory_read_run [OF ft2232_plain(1) [OF assms(1-6)] assms(7-10), of k opts_ok found stale len]
  unfolding ft2232_plain(2) [OF assms(1-6)] .

text \<open>
  C2: a memory write \<open>M\<close> stores exactly its bytes in the memory of the
  chip behind the adapter, and leaves every other byte alone.
\<close>

theorem ft2232_memory_write_stored:
  assumes "mpsse_engine C view lib" and "serial_unit C (ram m) cv" and "reads \<ge> 60"
    and "t_adapter t = mpsse_table reads lib" and "linked C view (dev (aw t)) c"
    and "oscr (aw t) AND 3 = c_oscr (cv c) AND 3"
    and "in_segment a (length bs)" and "bs \<noteq> []" and "length bs \<le> RP_PARAM_DATABYTES_MAX" and "tgt p = Device t"
  shows "\<exists>p' t'. dispatch k (elvees_target opts_ok found)
      (CHR ''M'' # sprintf_016Lx (of_nat a) @ '','' @ sprintf_08x (of_nat (length bs)) @ '':'' @
       concat (map rp_encode_byte bs) @ NUL # stale) len p =
      (Inr True, p') \<and> tgt p' = Device t' \<and> out_buf p' = ''OK'' \<and>
    stored m (unit_view C view cv) t (phys_nat a) bs t'"
  by (rule memory_write_run [OF ft2232_plain(1) [OF assms(1-6)] assms(7-10)])

section \<open>Witnesses\<close>

definition sim_session :: "(bus_op list \<Rightarrow> u32 \<Rightarrow> u32) \<Rightarrow> serial engine mpsse elvees proxy" where
  "sim_session rd = start_state (Device (sim_ft2232 rd)) [] (replicate 65536 0) (replicate 65536 0) ''''"

lemma sim_session_tgt: "tgt (sim_session rd) = Device (sim_ft2232 rd)"
  by (simp add: sim_session_def start_state_def)

lemma sim_ft2232_start:
  "t_adapter (sim_ft2232 rd) = mpsse_table 60 (engine_usb (unit_chip rd))"
  "linked (unit_chip rd) (\<lambda>e. e) (dev (aw (sim_ft2232 rd))) \<lparr>s_unit = dev sim_world, s_bits = []\<rparr>"
  "oscr (aw (sim_ft2232 rd)) AND 3 = c_oscr (s_unit \<lparr>s_unit = dev sim_world, s_bits = []\<rparr>) AND 3"
  using sim_driver_linked by (simp_all add: sim_ft2232_def new_target_def sim_world_def)

lemmas sim_ft2232_facts = engine_usb_ok unit_chip_ok le_refl sim_ft2232_start

theorem ft2232_memory_read_answered_witness:
  "\<exists>p'. dispatch 1 (elvees_target True []) (''m0000000080001001,00000002'' @ [NUL]) 0
      (sim_session (ram (\<lambda>_. 0x44332211))) = (Inr True, p') \<and> out_buf p' = ''2233''"
proof -
  have "map (mbyte (\<lambda>_. 0x44332211)) [4097..<4099] = [0x22, 0x33]"
    by (simp add: upt_rec mbyte_def le_bytes_def)
  moreover have "ram (\<lambda>_. 0x44332211) [] = (\<lambda>_. 0x44332211)"
    by (simp add: fun_eq_iff)
  ultimately show ?thesis
    using ft2232_memory_read_answered [OF sim_ft2232_facts, where m = "\<lambda>_. 0x44332211" and a = "0x80001001" and n = 2
        and p = "sim_session (ram (\<lambda>_. 0x44332211))" and k = 1 and opts_ok = True and found = "[]" and stale = "[]"
        and len = 0]
    by (auto simp: in_segment_def phys_nat_def sim_session_tgt sim_requests)
qed

theorem ft2232_memory_write_stored_witness:
  "\<exists>p' t'. dispatch 1 (elvees_target True []) (''M0000000000001003,00000001:7f'' @ [NUL]) 0
      (sim_session (ram (\<lambda>_. 0))) = (Inr True, p') \<and> tgt p' = Device t' \<and>
    stored (\<lambda>_. 0) (unit_view (unit_chip (ram (\<lambda>_. 0))) (\<lambda>e. e) s_unit) (sim_ft2232 (ram (\<lambda>_. 0))) 4099 [0x7f] t'"
  using ft2232_memory_write_stored [OF sim_ft2232_facts, where m = "\<lambda>_. 0" and a = "0x1003" and bs = "[0x7f]"
      and p = "sim_session (ram (\<lambda>_. 0))" and k = 1 and opts_ok = True and found = "[]" and stale = "[]" and len = 0]
  by (auto simp: in_segment_def phys_nat_def RP_PARAM_DATABYTES_MAX_def sim_session_tgt sim_requests)

end
