(* ===== verification/Adapter_Bitbang.thy ===== *)
theory Adapter_Bitbang
  imports Usb_Lib
begin

text \<open>
  adapter-bitbang.c, the driver of an FT232R chip in synchronous bit-bang mode. A byte that is sent is
  the state of the JTAG lines from then on, and for each byte the chip returns the state of the lines
  before it. The driver collects the bytes in \<open>output\<close>, sends them in one transaction and gets the
  answers in the same array. Waiting for the chip may last: the loops of \<open>bitbang_send_recv\<close> have
  \<open>rounds\<close> as fuel. A transfer that reports more bytes than were asked for, which libusb excludes, is
  \<open>Bad_access\<close>.
\<close>

abbreviation (input) "TCK \<equiv> (0x01 :: u8)"
abbreviation (input) "TDI \<equiv> (0x02 :: u8)"
abbreviation (input) "READ_TDO \<equiv> (0x04 :: u8)"
abbreviation (input) "TMS \<equiv> (0x08 :: u8)"
abbreviation (input) "NTRST \<equiv> (0x10 :: u8)"
abbreviation (input) "NSYSRST \<equiv> (0x40 :: u8)"
abbreviation (input) "IN_EP \<equiv> (0x02 :: u8)"
abbreviation (input) "OUT_EP \<equiv> (0x81 :: u8)"
abbreviation (input) "TAP_IDCODE \<equiv> (3 :: u32)"
abbreviation (input) "TAP_DEBUG_REQUEST \<equiv> (4 :: u32)"
abbreviation (input) "TAP_DEBUG_ENABLE \<equiv> (5 :: u32)"

definition SAMPLES :: nat where "SAMPLES = 128"

record 'd bitbang =
  bdev :: 'd
  b_output :: "u8 list"
  output_len :: nat

type_synonym ('d, 'a) bact = "('d bitbang, 'a) act"

section \<open>Samples\<close>

definition pins :: "bool \<Rightarrow> bool \<Rightarrow> bool \<Rightarrow> u8" where
  "pins tck tms tdi = NTRST OR NSYSRST OR (if tck then TCK else 0) OR (if tms then TMS else 0) OR
     (if tdi then TDI else 0)"

definition bitbang_write :: "bool \<Rightarrow> bool \<Rightarrow> bool \<Rightarrow> ('d, unit) bact" where
  "bitbang_write tck tms tdi s =
     (if output_len s \<ge> SAMPLES then (Inl (Exit (- 1) ''bitbang_write: buffer overflow''), s)
      else (Inr (), s\<lparr>b_output := (b_output s)[output_len s := pins tck tms tdi], output_len := output_len s + 1\<rparr>))"

text \<open>
  The bits at \<open>data\<close>, a variable of 32 or 64 bits in memory: the first \<open>nbits\<close> of them are replaced.
  Reading behind the array is \<open>Bad_access\<close>; all calls have at most 64 bits.
\<close>

definition bitbang_read :: "nat \<Rightarrow> nat \<Rightarrow> u64 \<Rightarrow> ('d, u64) bact" where
  "bitbang_read offset nbits data =
     (if offset + 2 * nbits > SAMPLES \<or> nbits > 64 then failM Bad_access
      else getM (\<lambda>s. fold (\<lambda>n w. if b_output s ! (offset + n * 2 + 1) AND READ_TDO \<noteq> 0
          then w OR push_bit n 1 else w AND NOT (push_bit n 1)) [0..<nbits] data))"

definition bitbang_step :: "bool \<Rightarrow> ('d, unit) bact" where
  "bitbang_step tms = seqM (bitbang_write False tms True) (bitbang_write True tms True)"

section \<open>The transaction\<close>

text \<open>The inner loops: \<open>bytes_written\<close> counts the bytes of this portion that are sent.\<close>

primrec write_loop :: "nat \<Rightarrow> 'd usb \<Rightarrow> nat \<Rightarrow> nat \<Rightarrow> nat \<Rightarrow> ('d, nat) bact" where
  "write_loop 0 lib txdone bytes_to_write bytes_written =
     (if bytes_written < bytes_to_write then failM Out_of_fuel else retM bytes_written)"
| "write_loop (Suc k) lib txdone bytes_to_write bytes_written = (\<lambda>s.
     if bytes_written < bytes_to_write then
       let chunk = take (bytes_to_write - bytes_written) (drop (txdone + bytes_written) (b_output s)) in
       case u_write lib IN_EP chunk (bdev s) of (r, d) \<Rightarrow>
         (case r of
            None \<Rightarrow> (Inl (Exit (- 1) ''usb bulk write failed''), s\<lparr>bdev := d\<rparr>)
          | Some n \<Rightarrow>
              if n > bytes_to_write - bytes_written then (Inl Bad_access, s\<lparr>bdev := d\<rparr>)
              else write_loop k lib txdone bytes_to_write (bytes_written + n) (s\<lparr>bdev := d\<rparr>))
     else (Inr bytes_written, s))"

text \<open>
  The answer starts with two status bytes. The loop counts them as data (\<open>bytes_read += n\<close>), the
  place for the next ones, \<open>rxdone\<close>, does not. The value is the new \<open>rxdone\<close>.
\<close>

primrec read_loop :: "nat \<Rightarrow> 'd usb \<Rightarrow> nat \<Rightarrow> nat \<Rightarrow> nat \<Rightarrow> ('d, nat) bact" where
  "read_loop 0 lib bytes_to_read bytes_read rxdone =
     (if bytes_read < bytes_to_read then failM Out_of_fuel else retM rxdone)"
| "read_loop (Suc k) lib bytes_to_read bytes_read rxdone = (\<lambda>s.
     if bytes_read < bytes_to_read then
       case u_read lib OUT_EP (bytes_to_read - bytes_read + 2) (bdev s) of (r, d) \<Rightarrow>
         (case r of
            None \<Rightarrow> (Inl (Exit (- 1) ''usb bulk read failed''), s\<lparr>bdev := d\<rparr>)
          | Some bs \<Rightarrow>
              if length bs > bytes_to_read - bytes_read + 2 then (Inl Bad_access, s\<lparr>bdev := d\<rparr>)
              else if length bs \<le> 2 then read_loop k lib bytes_to_read bytes_read rxdone (s\<lparr>bdev := d\<rparr>)
              else if rxdone + (length bs - 2) > SAMPLES then (Inl Bad_access, s\<lparr>bdev := d\<rparr>)
              else read_loop k lib bytes_to_read (bytes_read + length bs) (rxdone + (length bs - 2))
                (s\<lparr>bdev := d, b_output := take rxdone (b_output s) @ drop 2 bs @
                   drop (rxdone + (length bs - 2)) (b_output s)\<rparr>))
     else (Inr rxdone, s))"

definition RX_FIFO :: nat where "RX_FIFO = 62"

text \<open>One turn of the outer loop: the new \<open>txdone\<close>, \<open>rxdone\<close> and \<open>empty_rxfifo\<close>.\<close>

definition transfer :: "nat \<Rightarrow> 'd usb \<Rightarrow> nat \<Rightarrow> nat \<Rightarrow> nat \<Rightarrow> ('d, nat \<times> nat \<times> nat) bact" where
  "transfer rounds lib txdone rxdone space = bindM (getM output_len) (\<lambda>len.
     bindM (write_loop rounds lib txdone (min (min 64 (len - txdone)) space) 0) (\<lambda>bytes_written.
       let txdone' = txdone + bytes_written; space' = space - bytes_written in
       if space' = 0 \<or> txdone' = len then
         bindM (read_loop rounds lib (RX_FIFO - space') 0 rxdone) (\<lambda>rxdone'. retM (txdone', rxdone', RX_FIFO))
       else retM (txdone', rxdone, space')))"

primrec transfer_loop :: "nat \<Rightarrow> nat \<Rightarrow> 'd usb \<Rightarrow> nat \<times> nat \<times> nat \<Rightarrow> ('d, unit) bact" where
  "transfer_loop 0 rounds lib x = bindM (getM output_len) (\<lambda>len.
     if fst (snd x) < len then failM Out_of_fuel else retM ())"
| "transfer_loop (Suc k) rounds lib x = bindM (getM output_len) (\<lambda>len.
     if fst (snd x) < len
     then bindM (transfer rounds lib (fst x) (fst (snd x)) (snd (snd x))) (transfer_loop k rounds lib)
     else retM ())"

definition bitbang_send_recv :: "nat \<Rightarrow> 'd usb \<Rightarrow> ('d, unit) bact" where
  "bitbang_send_recv rounds lib = seqsM
     [bitbang_write False True True,
      transfer_loop rounds rounds lib (0, 0, RX_FIFO),
      modM (\<lambda>s. s\<lparr>output_len := 0\<rparr>)]"

definition bitbang_close :: "'d usb \<Rightarrow> ('d, unit) bact" where
  "bitbang_close lib = modM (\<lambda>s. s\<lparr>bdev := u_release lib (bdev s)\<rparr>)"

section \<open>The TAP\<close>

definition shift_bit :: "bool \<times> bool \<Rightarrow> ('d, unit) bact" where
  "shift_bit x = seqM (bitbang_write False (fst x) (snd x)) (bitbang_write True (fst x) (snd x))"

definition tap_instr :: "nat \<Rightarrow> 'd usb \<Rightarrow> nat \<Rightarrow> u32 \<Rightarrow> ('d, u32) bact" where
  "tap_instr rounds lib nbits newinst = seqM (seqsM (map bitbang_step [True, True, False, False]))
     (bindM (getM output_len) (\<lambda>input_offset.
      seqM (seqsM (map (\<lambda>n. shift_bit (n = nbits - 1, bit newinst n)) [0..<nbits]))
     (seqM (bitbang_step True)
     (seqM (bitbang_send_recv rounds lib)
     (bindM (bitbang_read input_offset nbits 0) (\<lambda>status. retM (ucast status)))))))"

text \<open>
  The data are those of a variable of 64 bits, or zeros for a null pointer; what is shifted out is
  stored over \<open>olddata\<close>, or thrown away.
\<close>

definition tap_data ::
  "nat \<Rightarrow> 'd usb \<Rightarrow> nat \<Rightarrow> u64 option \<Rightarrow> u64 option \<Rightarrow> ('d, u64) bact" where
  "tap_data rounds lib nbits newdata olddata =
     (if nbits > 64 then failM Bad_access
      else seqM (seqsM (map bitbang_step [True, False, False]))
       (bindM (getM output_len) (\<lambda>input_offset.
        seqM (seqsM (map (\<lambda>n. shift_bit (n = nbits - 1, case newdata of None \<Rightarrow> False | Some w \<Rightarrow> bit w n)) [0..<nbits]))
       (seqM (bitbang_step True)
       (seqM (bitbang_send_recv rounds lib)
        (case olddata of None \<Rightarrow> retM 0 | Some w \<Rightarrow> bitbang_read input_offset nbits w))))))"

text \<open>Five cycles with TMS 1, and one with TMS 0.\<close>

definition tap_reset :: "('d, unit) bact" where
  "tap_reset = seqsM (map bitbang_step [True, True, True, True, True, False])"

section \<open>The functions of the adapter\<close>

definition bitbang_get_idcode :: "nat \<Rightarrow> 'd usb \<Rightarrow> ('d, u32) bact" where
  "bitbang_get_idcode rounds lib = seqM tap_reset
     (bindM (tap_instr rounds lib 4 TAP_IDCODE) (\<lambda>_.
      bindM (tap_data rounds lib 32 None (Some 0)) (\<lambda>w. retM (ucast w))))"

definition bitbang_cpu_stopped :: "nat \<Rightarrow> 'd usb \<Rightarrow> ('d, bool) bact" where
  "bitbang_cpu_stopped rounds lib = bindM (tap_instr rounds lib 4 TAP_DEBUG_ENABLE) (\<lambda>ir. retM (ir AND 4 \<noteq> 0))"

definition bitbang_oncd_read :: "nat \<Rightarrow> 'd usb \<Rightarrow> u32 \<Rightarrow> nat \<Rightarrow> ('d, u32) bact" where
  "bitbang_oncd_read rounds lib reg reglen = (let data = ucast (reg OR (0x40 :: u32)) in
     bindM (tap_data rounds lib (9 + reglen) (Some data) (Some data)) (\<lambda>w. retM (ucast (drop_bit 9 w))))"

definition bitbang_oncd_write :: "nat \<Rightarrow> 'd usb \<Rightarrow> u32 \<Rightarrow> u32 \<Rightarrow> nat \<Rightarrow> ('d, unit) bact" where
  "bitbang_oncd_write rounds lib val reg reglen =
     bindM (tap_data rounds lib (9 + reglen)
         (Some (if reglen > 0 then ucast reg OR push_bit 9 (ucast val) else ucast reg)) None) (\<lambda>_. retM ())"

text \<open>At most 50 questions.\<close>

primrec debug_wait :: "nat \<Rightarrow> nat \<Rightarrow> 'd usb \<Rightarrow> ('d, unit) bact" where
  "debug_wait 0 rounds lib = failM (Exit 1 ''Timeout while entering debug mode'')"
| "debug_wait (Suc n) rounds lib = bindM (tap_instr rounds lib 4 TAP_DEBUG_ENABLE) (\<lambda>old_ir.
     if old_ir = 5 then retM () else debug_wait n rounds lib)"

definition bitbang_stop_cpu :: "nat \<Rightarrow> 'd usb \<Rightarrow> ('d, unit) bact" where
  "bitbang_stop_cpu rounds lib = bindM (tap_instr rounds lib 4 TAP_DEBUG_REQUEST) (\<lambda>_. debug_wait 50 rounds lib)"

definition put_sample :: "u8 \<Rightarrow> ('d, unit) bact" where
  "put_sample v s = (if output_len s \<ge> SAMPLES then (Inl Bad_access, s)
     else (Inr (), s\<lparr>b_output := (b_output s)[output_len s := v], output_len := output_len s + 1\<rparr>))"

definition bitbang_reset_cpu :: "nat \<Rightarrow> 'd usb \<Rightarrow> ('d, unit) bact" where
  "bitbang_reset_cpu rounds lib = (let idle = NTRST OR NSYSRST OR TMS OR TDI in seqsM
     ([bitbang_send_recv rounds lib] @ replicate 5 (put_sample (idle AND NOT NSYSRST)) @
      [put_sample idle, bitbang_send_recv rounds lib]))"

section \<open>Opening\<close>

definition bitbang_table :: "nat \<Rightarrow> 'd usb \<Rightarrow> 'd bitbang adapter" where
  "bitbang_table rounds lib = \<lparr>a_name = ''Bitbang'', a_close = on_dev (bitbang_close lib),
     a_get_idcode = on_dev (bitbang_get_idcode rounds lib), a_cpu_stopped = on_dev (bitbang_cpu_stopped rounds lib),
     a_stop_cpu = on_dev (bitbang_stop_cpu rounds lib), a_reset_cpu = on_dev (bitbang_reset_cpu rounds lib),
     a_oncd_write = (\<lambda>v r n. on_dev (bitbang_oncd_write rounds lib v r n)),
     a_oncd_read = (\<lambda>r n. on_dev (bitbang_oncd_read rounds lib r n)),
     a_block_words = 0, a_program_block_words = 0, a_step_cpu = None, a_run_cpu = None, a_read_block = None,
     a_write_block = None, a_write_nwords = None, a_program_block32 = None, a_program_block32_unprotect = None,
     a_program_block32_protect = None, a_program_block64 = None, a_program_block32_micron = None\<rparr>"

text \<open>The control requests, each with the result that is wanted; \<open>False\<close> is \<open>goto failed\<close>.\<close>

primrec requests :: "'d usb \<Rightarrow> (nat \<times> u16 \<times> nat \<times> nat \<times> int) list \<Rightarrow> ('d, bool) bact" where
  "requests lib [] = retM True"
| "requests lib (r # rs) = (case r of (req, val, ix, len, want) \<Rightarrow>
     bindM (\<lambda>s. case u_control lib req val ix len (bdev s) of (n, d) \<Rightarrow> (Inr (n = want), s\<lparr>bdev := d\<rparr>)) (\<lambda>ok.
       if ok then requests lib rs else retM False))"

definition adapter_open_bitbang :: "nat \<Rightarrow> 'd usb \<Rightarrow> ('d, 'd bitbang adapter option) bact" where
  "adapter_open_bitbang rounds lib =
     (case find_device (\<lambda>(vid, pid). vid = 0x0403 \<and> pid = 0x7777) (u_devices lib) 0 of
        None \<Rightarrow> retM None
      | Some (i, pid) \<Rightarrow> bindM (\<lambda>s. case u_open lib i (bdev s) of (b, d) \<Rightarrow>
            (Inr b, \<lparr>bdev = d, b_output = replicate SAMPLES 0, output_len = 0\<rparr>)) (\<lambda>opened.
          if \<not> opened then retM None
          else seqM (modM (\<lambda>s. s\<lparr>bdev := u_claim lib (bdev s)\<rparr>))
            (bindM (requests lib
                [(0, 0, 0, 0, 0), (11, 0x45b, 0, 0, 0), (3, 0, 0, 0, 0), (9, 1, 0, 0, 0), (10, 0, 0, 1, 1)]) (\<lambda>ok.
             if \<not> ok then seqM (modM (\<lambda>s. s\<lparr>bdev := u_release lib (bdev s)\<rparr>)) (retM None)
             else seqM (seqM tap_reset (bitbang_send_recv rounds lib))
               (retM (Some (bitbang_table rounds lib)))))))"

end
