(* ===== verification/Bitbang_Props.thy ===== *)
theory Bitbang_Props
  imports Adapter_Bitbang Scan_Unit
begin

text \<open>
  The bit-bang driver over the lines of a TAP. \<open>bitbang_chip\<close> states the documented behaviour of the
  chip behind libusb; from it follows what a transaction of the driver does, and that \<open>tap_instr\<close> and
  \<open>tap_data\<close> are scans of the instruction and the data register.
\<close>

section \<open>The lines\<close>

text \<open>
  A rising edge of TCK is a clock of the port. The answer to a sample is the state of the lines before
  it, so that the one to a rising edge has the bit of this clock on TDO; that of another sample may be
  anything.
\<close>

record 'c wires =
  w_port :: "'c port"
  w_tck :: bool
  w_fifo :: "bool option list"
  w_wait :: nat

definition sample :: "'c scan_chip \<Rightarrow> u8 \<Rightarrow> 'c port \<times> bool \<Rightarrow> bool option \<times> 'c port" where
  "sample C v x = (if bit v 0 \<and> \<not> snd x
     then (case clock C (bit v 3, bit v 1) (fst x) of (tdo, p) \<Rightarrow> (Some tdo, p)) else (None, fst x))"

primrec samples :: "'c scan_chip \<Rightarrow> u8 list \<Rightarrow> 'c port \<times> bool \<Rightarrow> bool option list \<times> 'c port \<times> bool" where
  "samples C [] x = ([], x)"
| "samples C (v # vs) x = (case sample C v x of (o1, p) \<Rightarrow>
     case samples C vs (p, bit v 0) of (os, y) \<Rightarrow> (o1 # os, y))"

lemma samples_append:
  "samples C (us @ vs) x = (fst (samples C us x) @ fst (samples C vs (snd (samples C us x))),
     snd (samples C vs (snd (samples C us x))))"
  by (induction us arbitrary: x) (simp_all add: case_prod_beta)

lemma length_samples [simp]: "length (fst (samples C vs x)) = length vs"
  by (induction vs arbitrary: x) (simp_all add: case_prod_beta)

definition feed :: "'c scan_chip \<Rightarrow> u8 list \<Rightarrow> 'c wires \<Rightarrow> 'c wires" where
  "feed C vs e = (case samples C vs (w_port e, w_tck e) of (os, p, t) \<Rightarrow>
     e\<lparr>w_port := p, w_tck := t, w_fifo := w_fifo e @ os\<rparr>)"

lemma feed_append: "feed C (us @ vs) e = feed C vs (feed C us e)"
  by (simp add: feed_def samples_append case_prod_beta)

lemma feed_Nil [simp]: "feed C [] e = e"
  by (simp add: feed_def)

definition answers :: "bool option list \<Rightarrow> u8 list \<Rightarrow> bool" where
  "answers = list_all2 (\<lambda>o1 v. \<forall>t. o1 = Some t \<longrightarrow> bit v 2 = t)"

section \<open>The chip behind libusb\<close>

text \<open>
  Samples that fit the receive buffer of the chip are taken, at least one in a transfer. A read that
  asks for all answers gives them behind two bytes of status, all at once; before, some reads, fewer
  than 60, may give no data yet.
\<close>

definition bitbang_chip :: "'c scan_chip \<Rightarrow> ('d \<Rightarrow> 'c wires) \<Rightarrow> 'd usb \<Rightarrow> bool" where
  "bitbang_chip C view lib \<longleftrightarrow>
     (\<forall>vs d. vs \<noteq> [] \<and> length (w_fifo (view d)) + length vs \<le> RX_FIFO \<longrightarrow>
        (\<exists>n d'. u_write lib IN_EP vs d = (Some n, d') \<and> 0 < n \<and> n \<le> length vs \<and> view d' = feed C (take n vs) (view d))) \<and>
     (\<forall>d. \<exists>bs d'. u_read lib OUT_EP (length (w_fifo (view d)) + 2) d = (Some bs, d') \<and>
        (length bs \<le> 2 \<and> 0 < w_wait (view d) \<and> view d' = (view d)\<lparr>w_wait := w_wait (view d) - 1\<rparr> \<or>
         (\<exists>x y vs w. bs = x # y # vs \<and> answers (w_fifo (view d)) vs \<and> w < 60 \<and>
            view d' = (view d)\<lparr>w_fifo := [], w_wait := w\<rparr>)))"

lemma write_loop_run:
  assumes "bitbang_chip C view lib" and "written \<le> tw" and "txdone + tw \<le> length (b_output s)"
    and "length (w_fifo (view (bdev s))) + (tw - written) \<le> RX_FIFO" and "tw - written \<le> k"
  shows "\<exists>d. write_loop k lib txdone tw written s = (Inr tw, s\<lparr>bdev := d\<rparr>) \<and>
    view d = feed C (take (tw - written) (drop (txdone + written) (b_output s))) (view (bdev s))"
  using assms(2-)
proof (induction k arbitrary: written s)
  case 0
  then show ?case
    by (intro exI [of _ "bdev s"]) (simp add: retM_apply)
next
  case (Suc k)
  show ?case
  proof (cases "written < tw")
    case False
    then show ?thesis
      using Suc.prems(1) by (intro exI [of _ "bdev s"]) simp
  next
    case True
    let ?vs = "take (tw - written) (drop (txdone + written) (b_output s))"
    have len: "length ?vs = tw - written"
      using Suc.prems(2) True by simp
    obtain n d' where n: "u_write lib IN_EP ?vs (bdev s) = (Some n, d')" "0 < n" "n \<le> tw - written"
        "view d' = feed C (take n ?vs) (view (bdev s))"
      using assms(1) True Suc.prems(3) len unfolding bitbang_chip_def
      by (metis length_greater_0_conv zero_less_diff)
    have "length (w_fifo (view d')) = length (w_fifo (view (bdev s))) + n"
      using n(3) len by (simp add: n(4) feed_def case_prod_beta)
    moreover have "written + n \<le> tw" "tw - (written + n) \<le> k"
      using n(2,3) True Suc.prems(4) by linarith+
    ultimately obtain d where d: "write_loop k lib txdone tw (written + n) (s\<lparr>bdev := d'\<rparr>) = (Inr tw, s\<lparr>bdev := d\<rparr>)"
        "view d = feed C (take (tw - (written + n)) (drop (txdone + (written + n)) (b_output s))) (view d')"
      using Suc.IH [of "written + n" "s\<lparr>bdev := d'\<rparr>"] Suc.prems(2,3) by auto
    have "drop n ?vs = take (tw - (written + n)) (drop (txdone + (written + n)) (b_output s))"
      by (simp add: drop_take add.commute add.left_commute)
    then have "?vs = take n ?vs @ take (tw - (written + n)) (drop (txdone + (written + n)) (b_output s))"
      by (metis append_take_drop_id)
    then have "view d = feed C ?vs (view (bdev s))"
      using d(2) n(4) by (metis feed_append)
    moreover have "write_loop (Suc k) lib txdone tw written s =
        write_loop k lib txdone tw (written + n) (s\<lparr>bdev := d'\<rparr>)"
      using n(3) by (simp add: True n(1) not_less)
    ultimately show ?thesis
      using d(1) by (metis (no_types))
  qed
qed

lemma answer_loop_run:
  assumes "bitbang_chip C view lib" and "length (w_fifo (view (bdev s))) = tr" and "0 < tr"
    and "rxdone + tr \<le> SAMPLES" and "w_wait (view (bdev s)) < k"
  shows "\<exists>d vs w. read_loop k lib tr 0 rxdone s = (Inr (rxdone + tr), s\<lparr>bdev := d,
      b_output := take rxdone (b_output s) @ vs @ drop (rxdone + tr) (b_output s)\<rparr>) \<and>
    answers (w_fifo (view (bdev s))) vs \<and> w < 60 \<and> view d = (view (bdev s))\<lparr>w_fifo := [], w_wait := w\<rparr>"
  using assms(2-)
proof (induction k arbitrary: s)
  case (Suc k)
  obtain bs d' where r: "u_read lib OUT_EP (tr + 2) (bdev s) = (Some bs, d')"
    and cases: "length bs \<le> 2 \<and> 0 < w_wait (view (bdev s)) \<and>
         view d' = (view (bdev s))\<lparr>w_wait := w_wait (view (bdev s)) - 1\<rparr> \<or>
       (\<exists>x y vs w. bs = x # y # vs \<and> answers (w_fifo (view (bdev s))) vs \<and> w < 60 \<and>
          view d' = (view (bdev s))\<lparr>w_fifo := [], w_wait := w\<rparr>)"
    using spec [OF conjunct2 [OF assms(1) [unfolded bitbang_chip_def]], of "bdev s"]
    unfolding Suc.prems(1) by (elim exE conjE) iprover
  from cases show ?case
  proof (elim disjE conjE exE)
    assume l: "length bs \<le> 2" "0 < w_wait (view (bdev s))"
      and v: "view d' = (view (bdev s))\<lparr>w_wait := w_wait (view (bdev s)) - 1\<rparr>"
    have "read_loop (Suc k) lib tr 0 rxdone s = read_loop k lib tr 0 rxdone (s\<lparr>bdev := d'\<rparr>)"
      using l(1) r Suc.prems(2) by simp
    then show ?thesis
      using Suc.IH [of "s\<lparr>bdev := d'\<rparr>"] Suc.prems v l(2) by auto
  next
    fix x y vs w
    assume b: "bs = x # y # vs" and a: "answers (w_fifo (view (bdev s))) vs" "w < 60"
      and v: "view d' = (view (bdev s))\<lparr>w_fifo := [], w_wait := w\<rparr>"
    have len: "length vs = tr"
      using a(1) Suc.prems(1) by (auto simp: answers_def dest: list_all2_lengthD)
    then have "read_loop (Suc k) lib tr 0 rxdone s = read_loop k lib tr (tr + 2) (rxdone + tr)
        (s\<lparr>bdev := d', b_output := take rxdone (b_output s) @ vs @ drop (rxdone + tr) (b_output s)\<rparr>)"
      using r b Suc.prems(2,3) by simp
    moreover have "read_loop k lib tr (tr + 2) j s1 = (Inr j, s1)" for j s1
      by (cases k) (simp_all add: retM_apply)
    ultimately show ?thesis
      using a v by auto
  qed
qed simp

section \<open>A transaction\<close>

text \<open>The state of the lines when nothing is left to receive.\<close>

definition lines_at :: "'c wires \<Rightarrow> 'c port \<times> bool \<Rightarrow> bool" where
  "lines_at e x \<longleftrightarrow> w_port e = fst x \<and> w_tck e = snd x \<and> w_fifo e = [] \<and> w_wait e < 60"

lemma feed_at: "lines_at e x \<Longrightarrow> feed C vs e =
    e\<lparr>w_port := fst (snd (samples C vs x)), w_tck := snd (snd (samples C vs x)), w_fifo := fst (samples C vs x)\<rparr>"
  by (cases x) (simp add: feed_def lines_at_def case_prod_beta)

lemma transfer_run:
  assumes "bitbang_chip C view lib" and "lines_at (view (bdev s)) x" and "t < output_len s"
    and "output_len s \<le> SAMPLES" and "length (b_output s) = SAMPLES" and "rounds \<ge> 62"
  defines "m \<equiv> min RX_FIFO (output_len s - t)"
  defines "r \<equiv> samples C (take m (drop t (b_output s))) x"
  shows "\<exists>d vs. transfer rounds lib t t RX_FIFO s = (Inr (t + m, t + m, RX_FIFO),
      s\<lparr>bdev := d, b_output := take t (b_output s) @ vs @ drop (t + m) (b_output s)\<rparr>) \<and>
    answers (fst r) vs \<and> lines_at (view d) (snd r)"
proof -
  have m: "0 < m" "t + m \<le> output_len s" "m \<le> RX_FIFO" "min (min 64 (output_len s - t)) RX_FIFO = m"
    using assms(3) by (auto simp: m_def RX_FIFO_def)
  have "length (w_fifo (view (bdev s))) + (m - 0) \<le> RX_FIFO" "m - 0 \<le> rounds" "t + m \<le> length (b_output s)"
    using assms(2,4-6) m by (simp_all add: lines_at_def RX_FIFO_def)
  from write_loop_run [OF assms(1) le0 this(3,1,2)] obtain d1 where d1:
      "write_loop rounds lib t m 0 s = (Inr m, s\<lparr>bdev := d1\<rparr>)"
      "view d1 = feed C (take m (drop t (b_output s))) (view (bdev s))"
    by auto
  have v1: "view d1 = (view (bdev s))\<lparr>w_port := fst (snd r), w_tck := snd (snd r), w_fifo := fst r\<rparr>"
    unfolding d1(2) r_def by (rule feed_at [OF assms(2)])
  have "length (w_fifo (view (bdev (s\<lparr>bdev := d1\<rparr>)))) = m" "t + m \<le> SAMPLES" "w_wait (view (bdev (s\<lparr>bdev := d1\<rparr>))) < rounds"
    using assms(2,4-6) m(2) by (simp_all add: v1 r_def lines_at_def)
  from answer_loop_run [OF assms(1) this(1) m(1) this(2,3)] obtain d vs w where d:
      "read_loop rounds lib m 0 t (s\<lparr>bdev := d1\<rparr>) = (Inr (t + m), s\<lparr>bdev := d,
        b_output := take t (b_output s) @ vs @ drop (t + m) (b_output s)\<rparr>)"
      "answers (fst r) vs" "w < 60" "view d = (view d1)\<lparr>w_fifo := [], w_wait := w\<rparr>"
    by (auto simp: v1)
  have "RX_FIFO - m = 0 \<or> t + m = output_len s" "RX_FIFO - (RX_FIFO - m) = m"
    using m(3) assms(3) by (auto simp: m_def min_def)
  then have "transfer rounds lib t t RX_FIFO s = (Inr (t + m, t + m, RX_FIFO),
      s\<lparr>bdev := d, b_output := take t (b_output s) @ vs @ drop (t + m) (b_output s)\<rparr>)"
    using d1(1) d(1) m(4) by (simp add: transfer_def act_simps Let_def)
  moreover have "lines_at (view d) (snd r)"
    using d(3) by (simp add: d(4) v1 lines_at_def)
  ultimately show ?thesis
    using d(2) by blast
qed

lemma answers_append: "answers os us \<Longrightarrow> answers ps vs \<Longrightarrow> answers (os @ ps) (us @ vs)"
  by (simp add: answers_def list_all2_appendI)

lemma answers_length: "answers os vs \<Longrightarrow> length vs = length os"
  by (simp add: answers_def list_all2_lengthD)

lemma transfer_loop_run:
  assumes "bitbang_chip C view lib" and "rounds \<ge> 62" and "lines_at (view (bdev s)) x" and "t \<le> output_len s"
    and "output_len s \<le> SAMPLES" and "length (b_output s) = SAMPLES" and "output_len s - t \<le> RX_FIFO * k"
  defines "r \<equiv> samples C (drop t (take (output_len s) (b_output s))) x"
  shows "\<exists>d vs. transfer_loop k rounds lib (t, t, RX_FIFO) s = (Inr (),
      s\<lparr>bdev := d, b_output := take t (b_output s) @ vs @ drop (output_len s) (b_output s)\<rparr>) \<and>
    answers (fst r) vs \<and> lines_at (view d) (snd r)"
  using assms(3-7) unfolding r_def
proof (induction k arbitrary: s t x)
  case 0
  then show ?case
    by (intro exI [of _ "bdev s"] exI [of _ "[]"]) (simp add: act_simps answers_def)
next
  case (Suc k)
  let ?len = "output_len s" and ?out = "b_output s"
  show ?case
  proof (cases "t < ?len")
    case False
    then show ?thesis
      using Suc.prems(1,2) by (intro exI [of _ "bdev s"] exI [of _ "[]"]) (simp add: act_simps answers_def)
  next
    case True
    define m where "m = min RX_FIFO (?len - t)"
    define r1 where "r1 = samples C (take m (drop t ?out)) x"
    obtain d1 us where t1: "transfer rounds lib t t RX_FIFO s = (Inr (t + m, t + m, RX_FIFO),
          s\<lparr>bdev := d1, b_output := take t ?out @ us @ drop (t + m) ?out\<rparr>)"
        "answers (fst r1) us" "lines_at (view d1) (snd r1)"
      using transfer_run [OF assms(1) Suc.prems(1) True Suc.prems(3,4) assms(2)] unfolding m_def r1_def by blast
    have m: "t + m \<le> ?len"
      using True by (simp add: m_def)
    have us: "length us = m"
      using t1(2) m Suc.prems(3,4) by (simp add: answers_length r1_def)
    define s1 where "s1 = s\<lparr>bdev := d1, b_output := take t ?out @ us @ drop (t + m) ?out\<rparr>"
    have s1: "bdev s1 = d1" "output_len s1 = ?len" "length (b_output s1) = SAMPLES"
        "take (t + m) (b_output s1) = take t ?out @ us" "drop ?len (b_output s1) = drop ?len ?out"
        "drop (t + m) (take ?len (b_output s1)) = drop (t + m) (take ?len ?out)"
      using us m Suc.prems(3,4) by (simp_all add: s1_def drop_take)
    have "?len - (t + m) \<le> RX_FIFO * k"
      using Suc.prems(5) by (auto simp: m_def RX_FIFO_def)
    then obtain d vs where d: "transfer_loop k rounds lib (t + m, t + m, RX_FIFO) s1 = (Inr (),
          s1\<lparr>bdev := d, b_output := take t ?out @ us @ vs @ drop ?len ?out\<rparr>)"
        "answers (fst (samples C (drop (t + m) (take ?len ?out)) (snd r1))) vs"
        "lines_at (view d) (snd (samples C (drop (t + m) (take ?len ?out)) (snd r1)))"
      using Suc.IH [of s1 "snd r1" "t + m"] Suc.prems(3) m t1(3) s1 by auto
    have "drop t (take ?len ?out) = take m (drop t ?out) @ drop (t + m) (take ?len ?out)"
    proof -
      have "take m (drop t (take ?len ?out)) = take m (drop t ?out)"
        using m by (simp add: drop_take min_def)
      then show ?thesis
        by (metis append_take_drop_id drop_drop add.commute)
    qed
    then have split: "samples C (drop t (take ?len ?out)) x =
        (fst r1 @ fst (samples C (drop (t + m) (take ?len ?out)) (snd r1)),
         snd (samples C (drop (t + m) (take ?len ?out)) (snd r1)))"
      by (simp add: samples_append r1_def)
    have "transfer_loop (Suc k) rounds lib (t, t, RX_FIFO) s =
        (Inr (), s\<lparr>bdev := d, b_output := take t ?out @ (us @ vs) @ drop ?len ?out\<rparr>)"
      using True t1(1) d(1) by (simp add: act_simps s1_def)
    then show ?thesis
      using answers_append [OF t1(2) d(2)] d(3) unfolding split fst_conv snd_conv by blast
  qed
qed


section \<open>Collecting samples\<close>

definition collected :: "'d bitbang \<Rightarrow> u8 list \<Rightarrow> bool" where
  "collected s vs \<longleftrightarrow> output_len s = length vs \<and> take (length vs) (b_output s) = vs \<and> length (b_output s) = SAMPLES"

lemma write_collected:
  assumes "collected s vs" and "length vs < SAMPLES"
  shows "\<exists>s'. bitbang_write tck tms tdi s = (Inr (), s') \<and> collected s' (vs @ [pins tck tms tdi]) \<and> bdev s' = bdev s"
  using assms by (auto simp: bitbang_write_def collected_def take_Suc_conv_app_nth)

definition pair :: "bool \<times> bool \<Rightarrow> u8 list" where
  "pair x = [pins False (fst x) (snd x), pins True (fst x) (snd x)]"

lemma length_pair [simp]: "length (pair x) = 2"
  by (simp add: pair_def)

lemma length_pair_list [simp]: "length (concat (map pair xs)) = 2 * length xs"
  by (induction xs) simp_all

lemma shift_bit_collected:
  assumes "collected s vs" and "length vs + 2 \<le> SAMPLES"
  shows "\<exists>s'. shift_bit x s = (Inr (), s') \<and> collected s' (vs @ pair x) \<and> bdev s' = bdev s"
proof -
  obtain s1 where s1: "bitbang_write False (fst x) (snd x) s = (Inr (), s1)"
      "collected s1 (vs @ [pins False (fst x) (snd x)])" "bdev s1 = bdev s"
    using write_collected [OF assms(1)] assms(2) by force
  obtain s2 where "bitbang_write True (fst x) (snd x) s1 = (Inr (), s2)"
      "collected s2 ((vs @ [pins False (fst x) (snd x)]) @ [pins True (fst x) (snd x)])" "bdev s2 = bdev s1"
    using write_collected [OF s1(2)] assms(2) by force
  then show ?thesis
    using s1(1,3) by (auto simp: shift_bit_def seqM_apply pair_def)
qed

lemma step_bit: "bitbang_step tms = shift_bit (tms, True)"
  by (simp add: bitbang_step_def shift_bit_def)

lemma shift_bits_collected:
  assumes "collected s vs" and "length vs + 2 * length xs \<le> SAMPLES"
  shows "\<exists>s'. seqsM (map shift_bit xs) s = (Inr (), s') \<and> collected s' (vs @ concat (map pair xs)) \<and> bdev s' = bdev s"
  using assms
proof (induction xs arbitrary: s vs)
  case (Cons x xs)
  obtain s1 where s1: "shift_bit x s = (Inr (), s1)" "collected s1 (vs @ pair x)" "bdev s1 = bdev s"
    using shift_bit_collected [OF Cons.prems(1), of x] Cons.prems(2) by auto
  obtain s2 where "seqsM (map shift_bit xs) s1 = (Inr (), s2)" "collected s2 ((vs @ pair x) @ concat (map pair xs))"
      "bdev s2 = bdev s1"
    using Cons.IH [OF s1(2)] Cons.prems(2) by auto
  then show ?case
    using s1(1,3) by (auto simp: seqM_apply)
qed (simp add: retM_apply)

text \<open>The lines see one clock for each pair.\<close>

lemma pins_bits: "bit (pins tck tms tdi) 0 = tck" "bit (pins tck tms tdi) 3 = tms" "bit (pins tck tms tdi) 1 = tdi"
    "bit (pins tck tms tdi) (Suc 0) = tdi"
  by (cases tck; cases tms; cases tdi; simp add: pins_def)+

lemma samples_pairs:
  "samples C (concat (map pair xs) @ [pins False a b]) (p, t) =
    (concat (map (\<lambda>tdo. [None, Some tdo]) (fst (clocks C xs p))) @ [None], snd (clocks C xs p), False)"
proof (induction xs arbitrary: p t)
  case (Cons x xs)
  then show ?case
    by (cases x) (simp add: pair_def sample_def pins_bits case_prod_beta)
qed (simp add: sample_def pins_bits)

lemma answer_at:
  assumes "answers (concat (map (\<lambda>tdo. [None, Some tdo]) os) @ ps) vs" and "i < length os"
  shows "bit (vs ! (2 * i + 1)) 2 = os ! i"
proof -
  have "(concat (map (\<lambda>tdo. [None, Some tdo]) os) @ ps) ! (2 * i + 1) = Some (os ! i)"
    using assms(2)
  proof (induction os arbitrary: i)
    case (Cons a os)
    then show ?case
      by (cases i) simp_all
  qed simp
  moreover have "2 * i + 1 < length (concat (map (\<lambda>tdo. [None, Some tdo]) os) @ ps)"
  proof -
    have "length (concat (map (\<lambda>tdo. [None, Some tdo]) os)) = 2 * length os"
      by (induction os) simp_all
    then show ?thesis
      using assms(2) by simp
  qed
  ultimately show ?thesis
    using list_all2_nthD [OF assms(1) [unfolded answers_def]] by simp
qed

section \<open>Scans\<close>

text \<open>
  Between the calls: nothing is collected, nothing is left to receive, and the port is parked in front
  of the chip \<open>c\<close>.
\<close>

definition resting :: "('d \<Rightarrow> 'c wires) \<Rightarrow> 'd bitbang \<Rightarrow> 'c \<Rightarrow> bool" where
  "resting view s c \<longleftrightarrow> collected s [] \<and> parked (tap_state (w_port (view (bdev s)))) \<and>
     the_chip (w_port (view (bdev s))) = c \<and> w_fifo (view (bdev s)) = [] \<and> w_wait (view (bdev s)) < 60"

lemma send_recv_run:
  assumes "bitbang_chip C view lib" and "rounds \<ge> 62" and "collected s (concat (map pair xs))" and "2 * length xs < SAMPLES"
    and "w_fifo (view (bdev s)) = []" and "w_wait (view (bdev s)) < 60"
  defines "r \<equiv> clocks C xs (w_port (view (bdev s)))"
  shows "\<exists>s'. bitbang_send_recv rounds lib s = (Inr (), s') \<and> collected s' [] \<and>
    (\<forall>i < length xs. bit (b_output s' ! (2 * i + 1)) 2 = fst r ! i) \<and>
    w_port (view (bdev s')) = snd r \<and> w_fifo (view (bdev s')) = [] \<and> w_wait (view (bdev s')) < 60"
proof -
  let ?vs = "concat (map pair xs) @ [pins False True True]"
  let ?p = "w_port (view (bdev s))"
  obtain s1 where s1: "bitbang_write False True True s = (Inr (), s1)" "collected s1 ?vs" "bdev s1 = bdev s"
    using write_collected [OF assms(3)] assms(4) by force
  have h: "output_len s1 = length ?vs" "take (output_len s1) (b_output s1) = ?vs" "length (b_output s1) = SAMPLES"
    using s1(2) by (auto simp: collected_def)
  have "lines_at (view (bdev s1)) (?p, w_tck (view (bdev s)))" "output_len s1 \<le> SAMPLES"
      "output_len s1 - 0 \<le> RX_FIFO * rounds"
    using assms(2,4-6) s1(3) h(1) by (simp_all add: lines_at_def RX_FIFO_def SAMPLES_def)
  from transfer_loop_run [OF assms(1,2) this(1) le0 this(2) h(3) this(3)]
  obtain d us where d: "transfer_loop rounds rounds lib (0, 0, RX_FIFO) s1 = (Inr (),
        s1\<lparr>bdev := d, b_output := us @ drop (output_len s1) (b_output s1)\<rparr>)"
      "answers (fst (samples C ?vs (?p, w_tck (view (bdev s))))) us"
      "lines_at (view d) (snd (samples C ?vs (?p, w_tck (view (bdev s)))))"
    unfolding drop_0 take_0 append_Nil h(2) by blast
  let ?s' = "s1\<lparr>bdev := d, b_output := us @ drop (output_len s1) (b_output s1), output_len := 0\<rparr>"
  have a: "answers (concat (map (\<lambda>tdo. [None, Some tdo]) (fst r)) @ [None]) us"
    using d(2) by (simp only: samples_pairs r_def fst_conv)
  have us: "length us = length ?vs"
    using d(2) by (simp add: answers_length)
  have "bit (b_output ?s' ! (2 * i + 1)) 2 = fst r ! i" if "i < length xs" for i
    using answer_at [OF a, of i] that us by (simp add: nth_append r_def)
  moreover have "collected ?s' []"
    using us h assms(4) by (simp add: collected_def)
  moreover have "bitbang_send_recv rounds lib s = (Inr (), ?s')"
    using s1(1) d(1) by (simp add: bitbang_send_recv_def act_simps)
  ultimately show ?thesis
    using d(3) by (intro exI [of _ ?s']) (simp add: lines_at_def samples_pairs r_def)
qed


lemma replaced_bits:
  fixes data :: u64
  assumes "m \<le> 64"
  shows "bit (fold (\<lambda>n w. if P n then w OR push_bit n 1 else w AND NOT (push_bit n 1)) [0..<m] data) i \<longleftrightarrow>
    (if i < m then P i else bit data i)"
  using assms
proof (induction m)
  case (Suc m)
  then show ?case
    using bit_imp_le_length [of data i] by (auto simp: bit_simps less_Suc_eq)
qed simp

lemma bitbang_read_run:
  assumes "offset + 2 * n \<le> SAMPLES" and "n \<le> 64"
  shows "\<exists>w. bitbang_read offset n data s = (Inr w, s) \<and>
    (\<forall>i. bit w i \<longleftrightarrow> (if i < n then bit (b_output s ! (offset + 2 * i + 1)) 2 else bit data i))"
proof -
  have tdo: "v AND READ_TDO \<noteq> 0 \<longleftrightarrow> bit v 2" for v :: u8
    using bit_iff_and_push_bit_not_eq_0 [of v 2] by simp
  show ?thesis
    using assms by (simp add: bitbang_read_def getM_apply tdo replaced_bits mult.commute)
qed

lemma shift_clocks_nth:
  assumes "length bs = n" and "0 < n"
  shows "shift_clocks bs = map (\<lambda>i. (i = n - 1, bs ! i)) [0..<n]"
proof (rule nth_equalityI)
  show l: "length (shift_clocks bs) = length (map (\<lambda>i. (i = n - 1, bs ! i)) [0..<n])"
    using assms by (simp add: shift_clocks_def)
  fix i
  assume "i < length (shift_clocks bs)"
  then have "i < n"
    by (simp add: l)
  then show "shift_clocks bs ! i = map (\<lambda>i. (i = n - 1, bs ! i)) [0..<n] ! i"
    using assms by (cases "i = n - 1") (auto simp: shift_clocks_def nth_append nth_butlast last_conv_nth)
qed

text \<open>The steps in front of the shifting, the bits, a step to the update, and the transaction.\<close>

lemma scan_transaction:
  assumes "bitbang_chip C view lib" and "rounds \<ge> 62" and "resting view s c"
    and "2 * length (pre @ xs @ [(True, True)]) < SAMPLES"
    and "parked (tap_state (snd (clocks C (pre @ xs @ [(True, True)]) (w_port (view (bdev s))))))"
  defines "r \<equiv> clocks C (pre @ xs @ [(True, True)]) (w_port (view (bdev s)))"
  shows "\<exists>s'. seqM (seqsM (map shift_bit pre)) (bindM (getM output_len) (\<lambda>off.
      seqM (seqsM (map shift_bit xs)) (seqM (shift_bit (True, True)) (seqM (bitbang_send_recv rounds lib) (f off))))) s =
        f (2 * length pre) s' \<and> resting view s' (the_chip (w_port (view (bdev s')))) \<and>
      w_port (view (bdev s')) = snd r \<and>
      (\<forall>i < length xs. bit (b_output s' ! (2 * length pre + 2 * i + 1)) 2 = fst r ! (length pre + i))"
proof -
  obtain s1 where s1: "seqsM (map shift_bit pre) s = (Inr (), s1)" "collected s1 (concat (map pair pre))" "bdev s1 = bdev s"
    using shift_bits_collected [of s "[]" pre] assms(3,4) by (auto simp: resting_def)
  obtain s2 where s2: "seqsM (map shift_bit xs) s1 = (Inr (), s2)" "bdev s2 = bdev s1"
      "collected s2 (concat (map pair pre) @ concat (map pair xs))"
    using shift_bits_collected [OF s1(2), of xs] assms(4) by auto
  obtain s3 where s3: "shift_bit (True, True) s2 = (Inr (), s3)" "bdev s3 = bdev s2"
      "collected s3 ((concat (map pair pre) @ concat (map pair xs)) @ pair (True, True))"
    using shift_bit_collected [OF s2(3), of "(True, True)"] assms(4) by auto
  have h3: "collected s3 (concat (map pair (pre @ xs @ [(True, True)])))" and b: "bdev s3 = bdev s"
    using s1(3) s2(2) s3(2,3) by simp_all
  have w: "w_fifo (view (bdev s)) = []" "w_wait (view (bdev s)) < 60"
    using assms(3) by (auto simp: resting_def)
  obtain s4 where s4: "bitbang_send_recv rounds lib s3 = (Inr (), s4)" "collected s4 []"
      "\<forall>i < length (pre @ xs @ [(True, True)]). bit (b_output s4 ! (2 * i + 1)) 2 = fst r ! i"
      "w_port (view (bdev s4)) = snd r" "w_fifo (view (bdev s4)) = []" "w_wait (view (bdev s4)) < 60"
    using send_recv_run [OF assms(1,2) h3 assms(4), unfolded b, folded r_def, OF w] by blast
  have "output_len s1 = 2 * length pre"
    using s1(2) by (simp add: collected_def)
  moreover have "bit (b_output s4 ! (2 * length pre + 2 * i + 1)) 2 = fst r ! (length pre + i)" if "i < length xs" for i
    using s4(3) [rule_format, of "length pre + i"] that by (simp add: add_mult_distrib2)
  moreover have "resting view s4 (the_chip (w_port (view (bdev s4))))"
    using s4 assms(5) by (simp add: resting_def r_def)
  ultimately show ?thesis
    using s1(1) s2(1) s3(1) s4(1,4) by (intro exI [of _ s4]) (simp add: seqM_apply bindM_apply getM_apply)
qed

definition data_bits :: "nat \<Rightarrow> u64 option \<Rightarrow> bool list" where
  "data_bits n newdata = (case newdata of None \<Rightarrow> replicate n False | Some w \<Rightarrow> low_bits n w)"

lemma length_data_bits [simp]: "length (data_bits n newdata) = n"
  by (simp add: data_bits_def split: option.splits)

lemma tap_data_run:
  assumes "bitbang_chip C view lib" and "rounds \<ge> 62" and "resting view s c" and "0 < n" and "n < 60"
  shows "\<exists>s' w. tap_data rounds lib n newdata olddata s = (Inr w, s') \<and>
    resting view s' (snd (scan_dr C (data_bits n newdata) c)) \<and>
    (case olddata of None \<Rightarrow> w = 0 | Some x \<Rightarrow>
       \<forall>i. bit w i \<longleftrightarrow> (if i < n then fst (scan_dr C (data_bits n newdata) c) ! i else bit x i))"
proof -
  let ?bs = "data_bits n newdata" and ?p = "w_port (view (bdev s))"
  let ?pre = "[(True, True), (False, True), (False, True)]"
  have ne: "?bs \<noteq> []"
    using assms(4) length_data_bits [of n newdata] by fastforce
  have xs: "map shift_bit (shift_clocks ?bs) =
      map (\<lambda>i. shift_bit (i = n - 1, case newdata of None \<Rightarrow> False | Some w \<Rightarrow> bit w i)) [0..<n]"
    using assms(4) by (auto simp: shift_clocks_nth data_bits_def low_bits_def split: option.splits)
  have len: "length (shift_clocks ?bs) = n"
    using assms(4) by (simp add: shift_clocks_nth)
  have p: "parked (tap_state ?p)" "the_chip ?p = c"
    using assms(3) by (auto simp: resting_def)
  have run: "clocks C (?pre @ shift_clocks ?bs @ [(True, True)]) ?p =
      ([False, False, False] @ fst (scan_dr C ?bs c) @ [False], \<lparr>tap_state = Update_DR, the_chip = snd (scan_dr C ?bs c)\<rparr>)"
    using dr_scan_run [OF p(1) ne] p(2) by simp
  have code: "tap_data rounds lib n newdata olddata = seqM (seqsM (map shift_bit ?pre)) (bindM (getM output_len) (\<lambda>off.
      seqM (seqsM (map shift_bit (shift_clocks ?bs))) (seqM (shift_bit (True, True)) (seqM (bitbang_send_recv rounds lib)
        (case olddata of None \<Rightarrow> retM 0 | Some w \<Rightarrow> bitbang_read off n w)))))"
    using assms(5) by (simp add: tap_data_def step_bit xs)
  have fit: "2 * length (?pre @ shift_clocks ?bs @ [(True, True)]) < SAMPLES"
    using assms(5) by (simp add: len SAMPLES_def)
  have park: "parked (tap_state (snd (clocks C (?pre @ shift_clocks ?bs @ [(True, True)]) ?p)))"
    by (simp only: run) (simp add: parked_def)
  have pre: "2 * length ?pre = 6"
    by simp
  obtain s' where t: "tap_data rounds lib n newdata olddata s =
        (case olddata of None \<Rightarrow> retM 0 | Some w \<Rightarrow> bitbang_read 6 n w) s'"
      "resting view s' (the_chip (w_port (view (bdev s'))))"
      "w_port (view (bdev s')) = \<lparr>tap_state = Update_DR, the_chip = snd (scan_dr C ?bs c)\<rparr>"
      "\<forall>i < n. bit (b_output s' ! (6 + 2 * i + 1)) 2 =
        ([False, False, False] @ fst (scan_dr C ?bs c) @ [False]) ! (length ?pre + i)"
    using scan_transaction [OF assms(1-3) fit park, of "\<lambda>off. case olddata of None \<Rightarrow> retM 0 | Some w \<Rightarrow> bitbang_read off n w"]
    unfolding code run len pre fst_conv snd_conv by blast
  have "\<forall>i < n. bit (b_output s' ! (6 + 2 * i + 1)) 2 = fst (scan_dr C ?bs c) ! i"
    using t(4) by (simp add: nth_append)
  then have s': "tap_data rounds lib n newdata olddata s =
        (case olddata of None \<Rightarrow> retM 0 | Some w \<Rightarrow> bitbang_read 6 n w) s'"
      "resting view s' (snd (scan_dr C ?bs c))"
      "\<forall>i < n. bit (b_output s' ! (6 + 2 * i + 1)) 2 = fst (scan_dr C ?bs c) ! i"
    using t(1-3) by simp_all
  show ?thesis
  proof (cases olddata)
    case None
    then show ?thesis
      using s' by (simp add: retM_apply)
  next
    case (Some x)
    obtain w where "bitbang_read 6 n x s' = (Inr w, s')"
        "\<forall>i. bit w i \<longleftrightarrow> (if i < n then bit (b_output s' ! (6 + 2 * i + 1)) 2 else bit x i)"
      using bitbang_read_run [of 6 n x s'] assms(5) by (auto simp: SAMPLES_def)
    then show ?thesis
      using s' Some by auto
  qed
qed


lemma tap_instr_run:
  fixes newinst :: u32
  assumes "bitbang_chip C view lib" and "rounds \<ge> 62" and "resting view s c" and "0 < n" and "n \<le> 32"
  defines "r \<equiv> scan_ir C (map (bit newinst) [0..<n]) c"
  shows "\<exists>s' w. tap_instr rounds lib n newinst s = (Inr w, s') \<and> resting view s' (snd r) \<and>
    (\<forall>i. bit w i \<longleftrightarrow> i < n \<and> fst r ! i)"
proof -
  let ?bs = "map (bit newinst) [0..<n]" and ?p = "w_port (view (bdev s))"
  let ?pre = "[(True, True), (True, True), (False, True), (False, True)]"
  let ?f = "\<lambda>off. bindM (bitbang_read off n 0) (\<lambda>status. retM (ucast status))"
  have xs: "map shift_bit (shift_clocks ?bs) = map (\<lambda>i. shift_bit (i = n - 1, bit newinst i)) [0..<n]"
    using assms(4) by (simp add: shift_clocks_nth)
  have len: "length (shift_clocks ?bs) = n"
    using assms(4) by (simp add: shift_clocks_nth)
  have p: "parked (tap_state ?p)" "the_chip ?p = c" and ne: "?bs \<noteq> []"
    using assms(3,4) by (auto simp: resting_def)
  have run: "clocks C (?pre @ shift_clocks ?bs @ [(True, True)]) ?p =
      ([False, False, False, False] @ fst r @ [False], \<lparr>tap_state = Update_IR, the_chip = snd r\<rparr>)"
    using ir_scan_run [OF p(1) ne] p(2) by (simp add: r_def)
  have code: "tap_instr rounds lib n newinst = seqM (seqsM (map shift_bit ?pre)) (bindM (getM output_len) (\<lambda>off.
      seqM (seqsM (map shift_bit (shift_clocks ?bs))) (seqM (shift_bit (True, True))
        (seqM (bitbang_send_recv rounds lib) (?f off)))))"
    by (simp add: tap_instr_def step_bit xs)
  have fit: "2 * length (?pre @ shift_clocks ?bs @ [(True, True)]) < SAMPLES"
    using assms(5) by (simp add: len SAMPLES_def)
  have park: "parked (tap_state (snd (clocks C (?pre @ shift_clocks ?bs @ [(True, True)]) ?p)))"
    by (simp only: run) (simp add: parked_def)
  have pre: "2 * length ?pre = 8"
    by simp
  obtain s' where t: "tap_instr rounds lib n newinst s = ?f 8 s'"
      "resting view s' (the_chip (w_port (view (bdev s'))))"
      "w_port (view (bdev s')) = \<lparr>tap_state = Update_IR, the_chip = snd r\<rparr>"
      "\<forall>i < n. bit (b_output s' ! (8 + 2 * i + 1)) 2 = ([False, False, False, False] @ fst r @ [False]) ! (length ?pre + i)"
    using scan_transaction [OF assms(1-3) fit park, of ?f] unfolding code run len pre fst_conv snd_conv by blast
  have out: "\<forall>i < n. bit (b_output s' ! (8 + 2 * i + 1)) 2 = fst r ! i"
    using t(4) by (simp add: nth_append r_def)
  obtain w where w: "bitbang_read 8 n 0 s' = (Inr w, s')"
      "\<forall>i. bit w i \<longleftrightarrow> (if i < n then bit (b_output s' ! (8 + 2 * i + 1)) 2 else bit 0 i)"
    using bitbang_read_run [of 8 n 0 s'] assms(5) by (auto simp: SAMPLES_def)
  have "\<forall>i. bit (ucast w :: u32) i \<longleftrightarrow> i < n \<and> fst r ! i"
    using w(2) out assms(5) by (auto simp: bit_simps)
  moreover have "resting view s' (snd r)"
    using t(2,3) by simp
  ultimately show ?thesis
    using t(1) w(1) by (simp add: bindM_apply retM_apply)
qed

section \<open>Registers of the debug unit\<close>

lemma bitbang_write_run:
  assumes "bitbang_chip C view lib" and "rounds \<ge> 62" and "resting view s c" and "len \<le> 32"
  shows "\<exists>s'. bitbang_oncd_write rounds lib v r len s = (Inr (), s') \<and> resting view s' (snd (chip_write C v r len c))"
  using tap_data_run [OF assms(1-3), of "9 + len" "Some (if len > 0 then ucast r OR push_bit 9 (ucast v) else ucast r)" None] assms(4)
  by (auto simp: bitbang_oncd_write_def bindM_apply retM_apply chip_write_def data_bits_def)

lemma bitbang_read_word_run:
  assumes "bitbang_chip C view lib" and "rounds \<ge> 62" and "resting view s c"
  shows "\<exists>s'. bitbang_oncd_read rounds lib r 32 s = (fst (chip_read C r 32 c), s') \<and>
    resting view s' (snd (chip_read C r 32 c))"
proof -
  define data where "data = (ucast (r OR (0x40 :: u32)) :: u64)"
  let ?os = "fst (scan_dr C (low_bits 41 data) c)"
  obtain s' w where w: "tap_data rounds lib 41 (Some data) (Some data) s = (Inr w, s')"
      "resting view s' (snd (scan_dr C (low_bits 41 data) c))" "\<forall>i. bit w i \<longleftrightarrow> (if i < 41 then ?os ! i else bit data i)"
    using tap_data_run [OF assms, of 41 "Some data" "Some data"] by (auto simp: data_bits_def)
  have "(ucast (drop_bit 9 w) :: u32) = bits_word (drop 9 ?os)"
    using w(3) by (intro bit_word_eqI) (auto simp: bit_simps bits_word_def bit_horner_sum_bit_word_iff)
  then show ?thesis
    using w(1,2) by (simp add: bitbang_oncd_read_def data_def Let_def bindM_apply retM_apply chip_read_def case_prod_beta)
qed


text \<open>The states of the driver between the calls, and the unit behind it.\<close>

definition at_rest :: "('d \<Rightarrow> 'c wires) \<Rightarrow> 'd bitbang \<Rightarrow> bool" where
  "at_rest view s \<longleftrightarrow> (\<exists>c. resting view s c)"

definition wired_unit :: "('d \<Rightarrow> 'c wires) \<Rightarrow> ('c \<Rightarrow> chip) \<Rightarrow> 'd bitbang \<Rightarrow> chip" where
  "wired_unit view cv s = cv (the_chip (w_port (view (bdev s))))"

lemma bitbang_table_simps [simp]:
  "a_oncd_write (bitbang_table rounds lib) v r n = on_dev (bitbang_oncd_write rounds lib v r n)"
  "a_oncd_read (bitbang_table rounds lib) r n = on_dev (bitbang_oncd_read rounds lib r n)"
  "a_read_block (bitbang_table rounds lib) = None" "a_write_block (bitbang_table rounds lib) = None"
  by (simp_all add: bitbang_table_def)

lemma bitbang_serial:
  assumes "bitbang_chip C view lib" and "rounds \<ge> 62"
  shows "serial_adapter (bitbang_table rounds lib) C (resting view) (\<lambda>s. the_chip (w_port (view (bdev s))))"
proof
  show "\<exists>d. a_oncd_write (bitbang_table rounds lib) v r n w = (Inr (), w\<lparr>dev := d\<rparr>) \<and>
      resting view d (snd (chip_write C v r n c))" if "resting view (dev w) c" "n \<le> 32" for w c n v r
    using bitbang_write_run [OF assms that, of v r] by (auto simp: on_dev_def zoomM_apply)
  show "\<exists>d. a_oncd_read (bitbang_table rounds lib) r 32 w = (fst (chip_read C r 32 c), w\<lparr>dev := d\<rparr>) \<and>
      resting view d (snd (chip_read C r 32 c))" if "resting view (dev w) c" for w c r
    using bitbang_read_word_run [OF assms that, of r] by (auto simp: on_dev_def zoomM_apply)
qed (simp add: resting_def)

section \<open>A chip with the documented behaviour\<close>

definition wires_usb :: "'c scan_chip \<Rightarrow> 'c wires usb" where
  "wires_usb C = \<lparr>u_devices = [(0x0403, 0x7777)], u_open = (\<lambda>i e. (True, e)), u_claim = id, u_release = id,
     u_control = (\<lambda>req val ix len e. (if req = 10 then 1 else 0, e)),
     u_write = (\<lambda>ep vs e. (Some (length vs), feed C vs e)),
     u_read = (\<lambda>ep n e. if w_wait e > 0 then (Some [0, 0], e\<lparr>w_wait := w_wait e - 1\<rparr>)
       else (Some (0 # 0 # map (\<lambda>o1. if o1 = Some True then READ_TDO else 0) (w_fifo e)),
         e\<lparr>w_fifo := [], w_wait := 3\<rparr>))\<rparr>"

lemma tdo_answers: "answers os (map (\<lambda>o1. if o1 = Some True then READ_TDO else 0) os)"
proof -
  have "bit READ_TDO 2"
    by simp
  then show ?thesis
    by (auto simp: answers_def list_all2_conv_all_nth)
qed

lemma wires_usb_ok: "bitbang_chip C (\<lambda>e. e) (wires_usb C)"
  unfolding bitbang_chip_def
proof (intro conjI allI impI)
  fix d :: "'a wires"
  show "\<exists>bs d'. u_read (wires_usb C) OUT_EP (length (w_fifo d) + 2) d = (Some bs, d') \<and>
      (length bs \<le> 2 \<and> 0 < w_wait d \<and> d' = d\<lparr>w_wait := w_wait d - 1\<rparr> \<or>
       (\<exists>x y vs w. bs = x # y # vs \<and> answers (w_fifo d) vs \<and> w < 60 \<and> d' = d\<lparr>w_fifo := [], w_wait := w\<rparr>))"
    using tdo_answers [of "w_fifo d"] by (cases "w_wait d > 0") (simp_all add: wires_usb_def, force)
qed (force simp: wires_usb_def)

text \<open>A driver in front of it, after opening.\<close>

definition sim_bitbang :: "'c \<Rightarrow> 'c wires bitbang" where
  "sim_bitbang c = \<lparr>bdev = \<lparr>w_port = \<lparr>tap_state = Run_Idle, the_chip = c\<rparr>, w_tck = False, w_fifo = [], w_wait = 3\<rparr>,
     b_output = replicate SAMPLES 0, output_len = 0\<rparr>"

lemma sim_resting: "resting (\<lambda>e. e) (sim_bitbang c) c"
  by (simp add: resting_def sim_bitbang_def collected_def parked_def)

interpretation bitbang: serial_adapter "bitbang_table 62 (wires_usb C)" C "resting (\<lambda>e. e)"
  "\<lambda>s. the_chip (w_port (bdev s))"
  by (rule bitbang_serial [OF wires_usb_ok order_refl])

section \<open>Properties\<close>

text \<open>
  C16: over a chip in bit-bang mode, \<open>tap_data\<close> is exactly one scan of the data register: the
  bits of the new data, or zeros, are shifted in, the chip updates once, and the value has the bits
  that were shifted out in its low places and the old ones above. \<open>tap_instr\<close> is in the same way one scan
  of the instruction register. The buffers are not overrun, and however the chip splits the samples
  and delays the answers, the driver ends in the state it started from: nothing is left behind.
\<close>

theorem bitbang_scans:
  fixes inst :: u32
  assumes "bitbang_chip C view lib" and "rounds \<ge> 62" and "resting view s c" and "0 < n" and "n < 60"
    and "0 < m" and "m \<le> 32"
  shows "(\<exists>s' w. tap_data rounds lib n newdata (Some old) s = (Inr w, s') \<and>
      resting view s' (snd (scan_dr C (data_bits n newdata) c)) \<and>
      (\<forall>i. bit w i \<longleftrightarrow> (if i < n then fst (scan_dr C (data_bits n newdata) c) ! i else bit old i))) \<and>
    (\<exists>s' w. tap_instr rounds lib m inst s = (Inr w, s') \<and>
      resting view s' (snd (scan_ir C (map (bit inst) [0..<m]) c)) \<and>
      (\<forall>i. bit w i \<longleftrightarrow> i < m \<and> fst (scan_ir C (map (bit inst) [0..<m]) c) ! i))"
  using tap_data_run [OF assms(1-5), of newdata "Some old"] tap_instr_run [OF assms(1-3,6,7)] by simp

text \<open>
  C15: with the debug unit behind its scan chain, the functions of the bit-bang
  adapter keep the laws of the unit that the target layer relies on, and the driver rests after each
  of them. So what is proved of memory and flash over these laws collected on this adapter too.
\<close>

theorem bitbang_keeps_unit_laws:
  assumes "bitbang_chip C view lib" and "rounds \<ge> 62" and "serial_unit C rd cv"
  shows "oncd_unit (at_rest view) rd (wired_unit view cv) (bitbang_table rounds lib) \<and>
    block_ops (at_rest view) rd (wired_unit view cv) (bitbang_table rounds lib)"
  using serial_adapter.unit_laws [OF bitbang_serial [OF assms(1,2)] assms(3)]
  by (simp add: at_rest_def [abs_def] wired_unit_def [abs_def] block_ops_def)

text \<open>
  Also: a short answer hangs the driver. The loop for the answer counts the two bytes of status as data,
  so it may end one or two bytes early; then all samples are sent, no space is taken in the receive
  buffer, and the outer loop does nothing for ever.
\<close>

theorem bitbang_short_answer_hangs:
  assumes "rx < output_len s"
  shows "transfer_loop k rounds lib (output_len s, rx, RX_FIFO) s = (Inl Out_of_fuel, s)"
proof (induction k)
  case (Suc k)
  have "write_loop rounds lib t 0 0 s = (Inr 0, s)" "read_loop rounds lib 0 0 rx s = (Inr rx, s)" for t
    by (cases rounds; simp add: act_simps)+
  then show ?case
    using assms Suc by (simp add: transfer_def act_simps RX_FIFO_def)
qed (use assms in \<open>simp add: act_simps\<close>)

section \<open>Witnesses\<close>

definition quiet_serial :: serial where
  "quiet_serial = \<lparr>s_unit = dev sim_world, s_bits = []\<rparr>"

theorem bitbang_scans_witness:
  "\<exists>s' w. tap_data 62 (wires_usb (unit_chip (ram (\<lambda>_. 0)))) 41 (Some 0x4c) (Some 0)
      (sim_bitbang quiet_serial) = (Inr w, s')"
  using conjunct1 [OF bitbang_scans [OF wires_usb_ok order_refl sim_resting, of 41 1 "unit_chip (ram (\<lambda>_. 0))"
      "Some 0x4c" 0 quiet_serial 0]]
  by auto

theorem bitbang_keeps_unit_laws_witness:
  "oncd_unit (at_rest (\<lambda>e. e)) (ram (\<lambda>_. 0)) (wired_unit (\<lambda>e. e) s_unit)
      (bitbang_table 62 (wires_usb (unit_chip (ram (\<lambda>_. 0))))) \<and>
    at_rest (\<lambda>e. e) (sim_bitbang quiet_serial)"
  using bitbang_keeps_unit_laws [OF wires_usb_ok order_refl unit_chip_ok, of "ram (\<lambda>_. 0)"]
    sim_resting [of quiet_serial]
  by (simp add: at_rest_def exI [of _ quiet_serial])

theorem bitbang_short_answer_hangs_witness:
  "transfer_loop 5 62 (wires_usb (unit_chip (ram (\<lambda>_. 0)))) (7, 6, RX_FIFO)
      ((sim_bitbang quiet_serial)\<lparr>output_len := 7\<rparr>) =
    (Inl Out_of_fuel, (sim_bitbang quiet_serial)\<lparr>output_len := 7\<rparr>)"
  using bitbang_short_answer_hangs [of 6 "(sim_bitbang quiet_serial)\<lparr>output_len := 7\<rparr>"]
  by simp

end
