(* ===== verification/Adapter_Lpt.thy ===== *)
theory Adapter_Lpt
  imports Usb_Lib
begin

text \<open>
  adapter-lpt.c, the driver of the LPT-JTAG adapter. The ports of the machine and the clock are a parameter,
  the functions of \<open>ports\<close> over the state \<open>'d\<close> of the hardware. The static variable of
  \<open>direction_reverse\<close> belongs to the state; it lives longer than an opened adapter. The loops that wait for
  a status end by the clock; they have \<open>polls\<close> as fuel. Shifts of an \<open>int\<close> into the sign wrap around.
\<close>

abbreviation (input) "ECP_ECR \<equiv> (0x77a :: nat)"
abbreviation (input) "SPP_STATUS \<equiv> (0x379 :: nat)"
abbreviation (input) "SPP_CONTROL \<equiv> (0x37a :: nat)"
abbreviation (input) "EPP_ADDR \<equiv> (0x37b :: nat)"
abbreviation (input) "EPP_DATA \<equiv> (0x37c :: nat)"
abbreviation (input) "EPP_STATUS_TMOUT \<equiv> (0x01 :: u8)"
abbreviation (input) "SPP_STATUS_nBUSY \<equiv> (0x80 :: u8)"
abbreviation (input) "SPP_CONTROL_nRESET \<equiv> (0x04 :: u8)"
abbreviation (input) "SPP_CONTROL_DIRIN \<equiv> (0x20 :: u8)"
abbreviation (input) "ECR_MODE_EPP \<equiv> (0x80 :: u8)"
abbreviation (input) "MCIF_START \<equiv> (0x02 :: u8)"
abbreviation (input) "MCIF_FINISH \<equiv> (0x04 :: u8)"
abbreviation (input) "MCIF_PREWRITE \<equiv> (0x08 :: u8)"
abbreviation (input) "MCIF_PREREAD \<equiv> (0x10 :: u8)"
abbreviation (input) "MCIF_WRITE_DR \<equiv> (0x20 :: u8)"
abbreviation (input) "MCIF_WRITE_IR \<equiv> (0x80 :: u8)"
abbreviation (input) "MCIF_RTI_PAUSE \<equiv> (0x40 :: u8)"
abbreviation (input) "MCIF_SHIFT \<equiv> (0x41 :: u8)"
abbreviation (input) "MCIF_PAUSE_RTI \<equiv> (0x01 :: u8)"
abbreviation (input) "MCIF_RESET \<equiv> (0x10 :: u8)"
abbreviation (input) "MCIF_STATUS_RTI \<equiv> (0x40 :: u8)"
abbreviation (input) "MCIF_STATUS_PAUSEDR \<equiv> (0x80 :: u8)"

record 'd ports =
  p_iopl :: "'d \<Rightarrow> bool \<times> 'd"
  p_out :: "u8 \<Rightarrow> nat \<Rightarrow> 'd \<Rightarrow> 'd"
  p_in :: "nat \<Rightarrow> 'd \<Rightarrow> u8 \<times> 'd"
  p_time :: "'d \<Rightarrow> nat \<times> 'd"

record 'd lpt =
  ldev :: 'd
  cur_mode :: int

type_synonym ('d, 'a) lact = "('d lpt, 'a) act"

definition outb :: "'d ports \<Rightarrow> u8 \<Rightarrow> nat \<Rightarrow> ('d, unit) lact" where
  "outb lib v port = modM (\<lambda>s. s\<lparr>ldev := p_out lib v port (ldev s)\<rparr>)"

definition inb :: "'d ports \<Rightarrow> nat \<Rightarrow> ('d, u8) lact" where
  "inb lib port s = (case p_in lib port (ldev s) of (v, d) \<Rightarrow> (Inr v, s\<lparr>ldev := d\<rparr>))"

definition time_now :: "'d ports \<Rightarrow> ('d, nat) lact" where
  "time_now lib s = (case p_time lib (ldev s) of (t, d) \<Rightarrow> (Inr t, s\<lparr>ldev := d\<rparr>))"

section \<open>The port\<close>

definition direction_reverse :: "'d ports \<Rightarrow> int \<Rightarrow> ('d, unit) lact" where
  "direction_reverse lib reverse = bindM (getM cur_mode) (\<lambda>m.
     if m = reverse then retM ()
     else bindM (inb lib SPP_CONTROL) (\<lambda>ctrl.
       seqM (outb lib (if reverse \<noteq> 0 then ctrl OR SPP_CONTROL_DIRIN else ctrl AND NOT SPP_CONTROL_DIRIN) SPP_CONTROL)
         (modM (\<lambda>s. s\<lparr>cur_mode := reverse\<rparr>))))"

definition putcmd :: "'d ports \<Rightarrow> u8 \<Rightarrow> ('d, unit) lact" where
  "putcmd lib cmd = seqM (direction_reverse lib 0) (outb lib cmd EPP_ADDR)"

text \<open>\<open>True\<close> for the result 0.\<close>

definition wait_status :: "'d ports \<Rightarrow> u8 \<Rightarrow> ('d, bool) lact" where
  "wait_status lib expected = seqM (direction_reverse lib 1)
     (bindM (inb lib EPP_ADDR) (\<lambda>v. retM (v AND 0xf0 = expected)))"

text \<open>The loops \<open>while (wait_status (...))\<close>, with the time they started.\<close>

primrec wait_loop :: "nat \<Rightarrow> 'd ports \<Rightarrow> u8 \<Rightarrow> fault \<Rightarrow> nat \<Rightarrow> ('d, unit) lact" where
  "wait_loop 0 lib expected f t0 = failM Out_of_fuel"
| "wait_loop (Suc k) lib expected f t0 = bindM (wait_status lib expected) (\<lambda>ok.
     if ok then retM ()
     else bindM (time_now lib) (\<lambda>t. if t > t0 + 1 then failM f else wait_loop k lib expected f t0))"

definition wait_for :: "nat \<Rightarrow> 'd ports \<Rightarrow> u8 \<Rightarrow> fault \<Rightarrow> ('d, unit) lact" where
  "wait_for polls lib expected f = bindM (time_now lib) (wait_loop polls lib expected f)"

primrec in_bytes :: "'d ports \<Rightarrow> nat \<Rightarrow> ('d, u8 list) lact" where
  "in_bytes lib 0 = retM []"
| "in_bytes lib (Suc n) = bindM (inb lib EPP_DATA) (\<lambda>b. bindM (in_bytes lib n) (\<lambda>bs. retM (b # bs)))"

definition out_bytes :: "'d ports \<Rightarrow> u8 list \<Rightarrow> ('d, unit) lact" where
  "out_bytes lib bs = seqsM (map (\<lambda>b. outb lib b EPP_DATA) bs)"

section \<open>Instruction and data registers\<close>

definition set_ir :: "nat \<Rightarrow> 'd ports \<Rightarrow> u32 \<Rightarrow> ('d, u32) lact" where
  "set_ir polls lib new = seqM (seqsM
     [putcmd lib MCIF_PREWRITE,
      outb lib 4 EPP_DATA,
      outb lib (ucast new) EPP_DATA,
      putcmd lib MCIF_WRITE_IR,
      wait_for polls lib MCIF_STATUS_RTI (Exit 1 ''set_ir: timeout''),
      putcmd lib MCIF_PREREAD,
      direction_reverse lib 1])
     (bindM (inb lib EPP_DATA) (\<lambda>old. retM (ucast old)))"

abbreviation (input) "no_device \<equiv> Exit 1 ''No device on LPT port''"

text \<open>Portions of at most 32 bits, from the bytes at \<open>data\<close>; the value has the bytes that replace them.\<close>

function dr_loop :: "nat \<Rightarrow> 'd ports \<Rightarrow> nat \<Rightarrow> u8 list \<Rightarrow> ('d, u8 list) lact" where
  "dr_loop polls lib full_len data =
     (if full_len = 0 then retM []
      else let len = min 32 full_len; n = (len + 7) div 8 in
        if length data < n then failM Bad_access
        else seqM (seqsM
          [putcmd lib MCIF_PREWRITE,
           outb lib (of_nat len) EPP_DATA,
           out_bytes lib (take n data),
           putcmd lib MCIF_SHIFT,
           wait_for polls lib MCIF_STATUS_PAUSEDR no_device,
           direction_reverse lib 1])
          (bindM (in_bytes lib 4) (\<lambda>bs.
           bindM (dr_loop polls lib (full_len - len) (drop n data)) (\<lambda>rest.
           retM (take n (le_bytes (drop_bit (32 - len) (le_word bs))) @ rest)))))"
  by pat_completeness auto
termination
  by (relation "measure (\<lambda>(polls, lib, full_len, data). full_len)") auto

definition set_dr :: "nat \<Rightarrow> 'd ports \<Rightarrow> u8 list \<Rightarrow> nat \<Rightarrow> ('d, u8 list) lact" where
  "set_dr polls lib data len = seqM (putcmd lib MCIF_RTI_PAUSE)
     (seqM (wait_for polls lib MCIF_STATUS_PAUSEDR no_device)
     (bindM (dr_loop polls lib len data) (\<lambda>bs.
      seqM (putcmd lib MCIF_PAUSE_RTI)
     (seqM (wait_for polls lib MCIF_STATUS_RTI no_device) (retM (bs @ drop (length bs) data))))))"

definition oncd_io :: "nat \<Rightarrow> 'd ports \<Rightarrow> u8 list \<Rightarrow> nat \<Rightarrow> ('d, u8 list) lact" where
  "oncd_io polls lib data len = (let n = (len + 7) div 8 in
     if length data < n then failM Bad_access
     else seqM (seqsM
       [putcmd lib MCIF_PREWRITE,
        outb lib (of_nat (len + 1)) EPP_DATA,
        out_bytes lib (take n data),
        putcmd lib MCIF_WRITE_DR,
        wait_for polls lib MCIF_STATUS_RTI (Exit 1 ''oncd_io: timeout''),
        putcmd lib MCIF_PREREAD,
        direction_reverse lib 1])
       (bindM (in_bytes lib n) (\<lambda>bs. retM (bs @ drop n data))))"

section \<open>The functions of the adapter\<close>

text \<open>The buffers \<open>data[2]\<close>, from the fourth byte on.\<close>

definition lpt_oncd_read :: "nat \<Rightarrow> 'd ports \<Rightarrow> u32 \<Rightarrow> nat \<Rightarrow> ('d, u32) lact" where
  "lpt_oncd_read polls lib reg nbits =
     bindM (oncd_io polls lib (drop 3 (le_bytes (push_bit 24 (reg OR (0x40 :: u32))) @ le_bytes 0)) (8 + nbits))
       (\<lambda>bs. retM (le_word (drop 1 bs)))"

definition lpt_oncd_write :: "nat \<Rightarrow> 'd ports \<Rightarrow> u32 \<Rightarrow> u32 \<Rightarrow> nat \<Rightarrow> ('d, unit) lact" where
  "lpt_oncd_write polls lib val reg nbits =
     bindM (oncd_io polls lib (drop 3 (le_bytes (push_bit 24 reg) @ le_bytes val)) (8 + nbits)) (\<lambda>_. retM ())"

abbreviation (input) "TAP_DEBUG_REQUEST \<equiv> (4 :: u32)"
abbreviation (input) "TAP_DEBUG_ENABLE \<equiv> (5 :: u32)"

primrec stop_loop :: "nat \<Rightarrow> nat \<Rightarrow> 'd ports \<Rightarrow> ('d, unit) lact" where
  "stop_loop 0 polls lib = failM (Exit 1 ''Timeout while entering debug mode'')"
| "stop_loop (Suc n) polls lib = bindM (set_ir polls lib TAP_DEBUG_ENABLE) (\<lambda>old_ir.
     if old_ir AND 4 \<noteq> 0 then retM () else stop_loop n polls lib)"

definition lpt_stop_cpu :: "nat \<Rightarrow> 'd ports \<Rightarrow> ('d, unit) lact" where
  "lpt_stop_cpu polls lib = bindM (set_ir polls lib TAP_DEBUG_REQUEST) (\<lambda>_. stop_loop 50 polls lib)"

definition lpt_get_idcode :: "nat \<Rightarrow> 'd ports \<Rightarrow> ('d, u32) lact" where
  "lpt_get_idcode polls lib = seqM (seqsM [putcmd lib MCIF_FINISH, putcmd lib MCIF_START])
     (bindM (set_dr polls lib (le_bytes 0) 32) (\<lambda>bs. retM (le_word bs)))"

definition lpt_reset_cpu :: "'d ports \<Rightarrow> ('d, unit) lact" where
  "lpt_reset_cpu lib = seqsM
     [putcmd lib MCIF_RESET, outb lib 0xfe EPP_DATA, putcmd lib MCIF_RESET, outb lib 0xff EPP_DATA]"

definition lpt_cpu_stopped :: "nat \<Rightarrow> 'd ports \<Rightarrow> ('d, bool) lact" where
  "lpt_cpu_stopped polls lib = bindM (set_ir polls lib TAP_DEBUG_ENABLE) (\<lambda>ir. retM (ir AND 4 \<noteq> 0))"

definition lpt_close :: "('d, unit) lact" where
  "lpt_close = retM ()"

section \<open>Opening\<close>

definition lpt_table :: "nat \<Rightarrow> 'd ports \<Rightarrow> 'd lpt adapter" where
  "lpt_table polls lib = \<lparr>a_name = ''Elvees LPT'', a_close = on_dev lpt_close,
     a_get_idcode = on_dev (lpt_get_idcode polls lib), a_cpu_stopped = on_dev (lpt_cpu_stopped polls lib),
     a_stop_cpu = on_dev (lpt_stop_cpu polls lib), a_reset_cpu = on_dev (lpt_reset_cpu lib),
     a_oncd_write = (\<lambda>v r n. on_dev (lpt_oncd_write polls lib v r n)),
     a_oncd_read = (\<lambda>r n. on_dev (lpt_oncd_read polls lib r n)),
     a_block_words = 0, a_program_block_words = 0, a_step_cpu = None, a_run_cpu = None, a_read_block = None,
     a_write_block = None, a_write_nwords = None, a_program_block32 = None, a_program_block32_unprotect = None,
     a_program_block32_protect = None, a_program_block64 = None, a_program_block32_micron = None\<rparr>"

text \<open>On Linux; giving up the privileges is left out.\<close>

definition adapter_open_lpt :: "nat \<Rightarrow> 'd ports \<Rightarrow> ('d, 'd lpt adapter option) lact" where
  "adapter_open_lpt polls lib =
     bindM (\<lambda>s. case p_iopl lib (ldev s) of (b, d) \<Rightarrow> (Inr b, s\<lparr>ldev := d\<rparr>)) (\<lambda>granted.
       if \<not> granted then retM None
       else seqM (outb lib ECR_MODE_EPP ECP_ECR)
        (bindM (inb lib SPP_CONTROL) (\<lambda>_.
         seqM (seqsM
          [outb lib (SPP_CONTROL_DIRIN OR SPP_CONTROL_nRESET) SPP_CONTROL,
           outb lib SPP_CONTROL_DIRIN SPP_CONTROL,
           outb lib (SPP_CONTROL_DIRIN OR SPP_CONTROL_nRESET) SPP_CONTROL])
        (bindM (inb lib SPP_STATUS) (\<lambda>status.
         seqM (whenM (status AND EPP_STATUS_TMOUT \<noteq> 0) (outb lib status SPP_STATUS))
          (if status AND SPP_STATUS_nBUSY = 0 then retM None
           else seqM (putcmd lib MCIF_START) (retM (Some (lpt_table polls lib)))))))))"

end
