(* ===== verification/Lpt_Props.thy ===== *)
theory Lpt_Props
  imports Adapter_Lpt
begin

text \<open>
  The direction of the data port. An EPP cycle that writes needs the port in the forward direction, one
  that reads needs it reversed; \<open>direction_reverse\<close> switches it by the bit DIRIN of the control register and
  remembers the direction in a static variable. \<open>watch\<close> is any hardware with an observer in front of it
  that notes every EPP cycle against the direction.
\<close>

section \<open>The observer\<close>

record 'd watched =
  hw :: 'd
  dirin :: bool
  wrong :: bool

definition watch :: "'d ports \<Rightarrow> 'd watched ports" where
  "watch lib = \<lparr>
     p_iopl = (\<lambda>e. case p_iopl lib (hw e) of (b, d) \<Rightarrow> (b, e\<lparr>hw := d\<rparr>)),
     p_out = (\<lambda>v port e. e\<lparr>hw := p_out lib v port (hw e),
       dirin := (if port = SPP_CONTROL then bit v 5 else dirin e),
       wrong := wrong e \<or> (port = EPP_ADDR \<or> port = EPP_DATA) \<and> dirin e\<rparr>),
     p_in = (\<lambda>port e. case p_in lib port (hw e) of (v, d) \<Rightarrow>
       (v, e\<lparr>hw := d, wrong := wrong e \<or> (port = EPP_ADDR \<or> port = EPP_DATA) \<and> \<not> dirin e\<rparr>)),
     p_time = (\<lambda>e. case p_time lib (hw e) of (t, d) \<Rightarrow> (t, e\<lparr>hw := d\<rparr>))\<rparr>"

text \<open>The driver knows the direction, and no cycle was against it.\<close>

definition known :: "int \<Rightarrow> 'd watched lpt \<Rightarrow> bool" where
  "known m s \<longleftrightarrow> m \<in> {0, 1} \<and> cur_mode s = m \<and> dirin (ldev s) = (m = 1) \<and> \<not> wrong (ldev s)"

definition directed :: "'d watched lpt \<Rightarrow> bool" where
  "directed s \<longleftrightarrow> (\<exists>m. known m s)"

text \<open>An action from a state \<open>P\<close> to a state \<open>Q\<close>; if it fails the port is directed too.\<close>

definition steers ::
  "('d watched lpt \<Rightarrow> bool) \<Rightarrow> ('d watched, 'a) lact \<Rightarrow> ('d watched lpt \<Rightarrow> bool) \<Rightarrow> bool" where
  "steers P m Q \<longleftrightarrow> triple P m (\<lambda>_. Q) (\<lambda>_. directed)"

lemma steers_bindM: "steers P m R \<Longrightarrow> (\<And>x. steers R (f x) Q) \<Longrightarrow> steers P (bindM m f) Q"
  unfolding steers_def by (rule triple_bindM)

lemma steers_seqM: "steers P m R \<Longrightarrow> steers R n Q \<Longrightarrow> steers P (seqM m n) Q"
  unfolding steers_def by (rule triple_seqM)

lemma steers_retM: "steers P (retM x) P"
  by (simp add: steers_def triple_retM)

lemma steers_failM: "steers (known m) (failM e) Q"
  unfolding steers_def by (rule triple_failM) (auto simp: directed_def)

lemma steers_if: "steers P m Q \<Longrightarrow> steers P n Q \<Longrightarrow> steers P (if b then m else n) Q"
  by simp

section \<open>The steps\<close>

lemma steers_out: "steers (known 0) (outb (watch lib) v EPP_ADDR) (known 0)"
    "steers (known 0) (outb (watch lib) v EPP_DATA) (known 0)"
  by (auto simp: steers_def triple_def outb_def modM_apply known_def watch_def)

lemma steers_in: "steers (known 1) (inb (watch lib) EPP_ADDR) (known 1)"
    "steers (known 1) (inb (watch lib) EPP_DATA) (known 1)"
  by (auto simp: steers_def triple_def inb_def known_def watch_def split: prod.splits)

lemma steers_time: "steers (known m) (time_now (watch lib)) (known m)"
  by (auto simp: steers_def triple_def time_now_def known_def watch_def split: prod.splits)

lemma dirin_bit: "bit (v OR SPP_CONTROL_DIRIN) 5" "\<not> bit (v AND NOT SPP_CONTROL_DIRIN) 5" for v :: u8
  by (simp_all add: bit_simps)

lemma steers_reverse:
  "steers (known m) (direction_reverse (watch lib) 0) (known 0)"
  "steers (known m) (direction_reverse (watch lib) 1) (known 1)"
  using dirin_bit
  by (auto simp: steers_def triple_def direction_reverse_def act_simps inb_def outb_def known_def watch_def
      split: prod.splits)

lemmas steers_basic = steers_retM steers_failM steers_seqM steers_bindM steers_out steers_in steers_time steers_reverse

lemma steers_putcmd: "steers (known m) (putcmd (watch lib) cmd) (known 0)"
  unfolding putcmd_def by (rule steers_basic)+

lemma steers_wait_status: "steers (known m) (wait_status (watch lib) e) (known 1)"
  unfolding wait_status_def by (rule steers_basic)+

lemma steers_wait_loop: "steers (known m) (wait_loop k (watch lib) e f t0) (known 1)"
proof (induction k arbitrary: m)
  case (Suc k)
  show ?case
    unfolding wait_loop.simps
    by (rule steers_bindM [OF steers_wait_status] steers_if steers_basic Suc)+
qed (simp add: steers_failM)

lemma steers_wait: "steers (known m) (wait_for polls (watch lib) e f) (known 1)"
  unfolding wait_for_def by (rule steers_wait_loop steers_basic)+

lemma steers_in_bytes: "steers (known 1) (in_bytes (watch lib) n) (known 1)"
proof (induction n)
  case (Suc n)
  show ?case
    unfolding in_bytes.simps by (rule Suc steers_basic)+
qed (simp add: steers_retM)

lemma steers_out_bytes: "steers (known 0) (out_bytes (watch lib) bs) (known 0)"
  unfolding out_bytes_def
proof (induction bs)
  case (Cons b bs)
  show ?case
    unfolding list.map seqsM.simps by (rule Cons steers_basic)+
qed (simp add: steers_retM)

lemmas steers_rules = steers_putcmd steers_wait steers_in_bytes steers_out_bytes steers_basic

section \<open>The operations\<close>

lemma steers_set_ir: "steers (known m) (set_ir polls (watch lib) v) (known 1)"
  unfolding set_ir_def seqsM.simps by (rule steers_rules)+

lemma steers_oncd_io: "steers (known m) (oncd_io polls (watch lib) data len) (known 1)"
  unfolding oncd_io_def Let_def seqsM.simps by (rule steers_if steers_rules)+

lemma steers_dr_loop:
  "steers (known 1) (dr_loop polls (watch lib) full data) (known 1)"
proof (induction polls "watch lib" full data rule: dr_loop.induct)
  case (1 polls full data)
  show ?case
  proof (cases "full = 0")
    case False
    note IH = 1 [OF False refl refl]
    have n: "length data < (min 32 full + 7) div 8 \<or> \<not> length data < (min 32 full + 7) div 8"
      by blast
    then show ?thesis
      unfolding dr_loop.simps [of polls "watch lib" full data] Let_def seqsM.simps if_not_P [OF False]
      by (elim disjE) (simp only: if_True if_False; (rule IH steers_rules | assumption)+)+
  qed (simp add: steers_retM)
qed


lemma steers_set_dr: "steers (known m) (set_dr polls (watch lib) data len) (known 1)"
  unfolding set_dr_def by (rule steers_dr_loop steers_rules)+

lemma steers_stop_loop: "steers (known 1) (stop_loop n polls (watch lib)) (known 1)"
proof (induction n)
  case (Suc n)
  show ?case
    unfolding stop_loop.simps by (rule steers_bindM [OF steers_set_ir] Suc steers_if steers_rules)+
qed (simp add: steers_failM)

text \<open>Operations of the table, and the direction they leave.\<close>

lemma steers_operations:
  "steers (known m) (lpt_get_idcode polls (watch lib)) (known 1)"
  "steers (known m) (lpt_cpu_stopped polls (watch lib)) (known 1)"
  "steers (known m) (lpt_stop_cpu polls (watch lib)) (known 1)"
  "steers (known m) (lpt_reset_cpu (watch lib)) (known 0)"
  "steers (known m) (lpt_oncd_read polls (watch lib) r n) (known 1)"
  "steers (known m) (lpt_oncd_write polls (watch lib) v r n) (known 1)"
  unfolding lpt_get_idcode_def lpt_cpu_stopped_def lpt_stop_cpu_def lpt_reset_cpu_def lpt_oncd_read_def
    lpt_oncd_write_def seqsM.simps
  by (rule steers_set_ir steers_set_dr steers_oncd_io steers_stop_loop steers_rules)+

lemma steers_keeps:
  assumes "\<And>m. steers (known m) op (known m')"
  shows "keeps (\<lambda>w. directed (dev w)) (on_dev op)"
  unfolding keeps_def
proof (intro allI impI)
  fix w :: "'a watched lpt aworld"
  assume "directed (dev w)"
  then obtain m where m: "known m (dev w)"
    by (auto simp: directed_def)
  show "directed (dev (snd (on_dev op w)))"
    using assms [of m] m
    by (cases "op (dev w)"; cases "fst (op (dev w))")
      (force simp: steers_def triple_def on_dev_def zoomM_apply directed_def)+
qed

section \<open>Properties\<close>

text \<open>
  C17: the LPT driver switches the direction of the port correctly. On any hardware,
  from a state in which the variable of the driver agrees with the port, every operation of the
  adapter leaves such a state, also when it fails with a timeout, and makes no EPP cycle against the
  direction. Opening the adapter for the first time leaves such a state as well.
\<close>

theorem lpt_keeps_direction:
  assumes "cur_mode s = -1" and "\<not> wrong (ldev s)"
    and "adapter_open_lpt polls (watch lib) s = (Inr (Some a), s')"
  shows "directed s' \<and> a = lpt_table polls (watch lib) \<and>
    keeps (\<lambda>w. directed (dev w)) (a_get_idcode a) \<and> keeps (\<lambda>w. directed (dev w)) (a_cpu_stopped a) \<and>
    keeps (\<lambda>w. directed (dev w)) (a_stop_cpu a) \<and> keeps (\<lambda>w. directed (dev w)) (a_reset_cpu a) \<and>
    keeps (\<lambda>w. directed (dev w)) (a_oncd_read a r n) \<and> keeps (\<lambda>w. directed (dev w)) (a_oncd_write a v r n)"
proof -
  have "directed s'" "a = lpt_table polls (watch lib)"
    using assms dirin_bit(2)
    by (auto simp: adapter_open_lpt_def putcmd_def direction_reverse_def act_simps inb_def outb_def watch_def
        directed_def known_def split: prod.splits if_splits)
  then show ?thesis
    by (simp add: lpt_table_def steers_keeps [OF steers_operations(1)] steers_keeps [OF steers_operations(2)]
        steers_keeps [OF steers_operations(3)] steers_keeps [OF steers_operations(4)]
        steers_keeps [OF steers_operations(5)] steers_keeps [OF steers_operations(6)])
qed

text \<open>
  Also: the variable outlives the adapter. When the port is opened again after an operation that ended
  in the forward direction, such as a reset, opening reverses the port behind the back of the driver,
  and its first command is a cycle against the direction.
\<close>

theorem lpt_reopen_against_direction:
  assumes "known 0 s" and "adapter_open_lpt polls (watch lib) s = (Inr (Some a), s')"
  shows "wrong (ldev s')"
  using assms
  by (auto simp: adapter_open_lpt_def putcmd_def direction_reverse_def act_simps inb_def outb_def watch_def
      known_def split: prod.splits if_splits)

section \<open>Witnesses\<close>

text \<open>A port that is always ready.\<close>

definition ready_ports :: "unit ports" where
  "ready_ports = \<lparr>p_iopl = (\<lambda>d. (True, d)), p_out = (\<lambda>_ _ d. d), p_in = (\<lambda>_ d. (0x80, d)), p_time = (\<lambda>d. (0, d))\<rparr>"

definition fresh_lpt :: "int \<Rightarrow> unit watched lpt" where
  "fresh_lpt m = \<lparr>ldev = \<lparr>hw = (), dirin = False, wrong = False\<rparr>, cur_mode = m\<rparr>"

lemma opens:
  "\<exists>s'. adapter_open_lpt 9 (watch ready_ports) (fresh_lpt m) = (Inr (Some (lpt_table 9 (watch ready_ports))), s')"
  by (simp add: adapter_open_lpt_def putcmd_def direction_reverse_def act_simps inb_def outb_def watch_def
      ready_ports_def fresh_lpt_def)

theorem lpt_keeps_direction_witness:
  "\<exists>s'. adapter_open_lpt 9 (watch ready_ports) (fresh_lpt (-1)) = (Inr (Some (lpt_table 9 (watch ready_ports))), s') \<and>
    directed s'"
proof -
  obtain s' where s': "adapter_open_lpt 9 (watch ready_ports) (fresh_lpt (-1)) =
      (Inr (Some (lpt_table 9 (watch ready_ports))), s')"
    using opens by blast
  then show ?thesis
    using lpt_keeps_direction [OF _ _ s'] by (simp add: fresh_lpt_def)
qed

theorem lpt_reopen_against_direction_witness:
  "\<exists>s'. adapter_open_lpt 9 (watch ready_ports) (fresh_lpt 0) = (Inr (Some (lpt_table 9 (watch ready_ports))), s') \<and>
    wrong (ldev s')"
proof -
  obtain s' where s': "adapter_open_lpt 9 (watch ready_ports) (fresh_lpt 0) =
      (Inr (Some (lpt_table 9 (watch ready_ports))), s')"
    using opens by blast
  then show ?thesis
    using lpt_reopen_against_direction [OF _ s'] by (simp add: fresh_lpt_def known_def)
qed

end
