(* ===== verification/Proxy_Sock.thy ===== *)
theory Proxy_Sock
  imports Clib
begin

text \<open>
  The sockets of the proxy (rpmisc.c, on Unix), the loop of \<open>main\<close> that opens them, and its options. The
  socket functions of the system are a parameter; the two static descriptors, -1 when closed, are the
  state. Options of sockets and signals are left out.
\<close>

section \<open>Sockets\<close>

record 'd net =
  n_socket :: "'d \<Rightarrow> int \<times> 'd"
  n_bind :: "int \<Rightarrow> nat \<Rightarrow> 'd \<Rightarrow> bool \<times> 'd"
  n_listen :: "int \<Rightarrow> 'd \<Rightarrow> bool \<times> 'd"
  n_accept :: "int \<Rightarrow> 'd \<Rightarrow> int \<times> 'd"
  n_tcp :: "'d \<Rightarrow> bool \<times> 'd"
  n_close :: "int \<Rightarrow> 'd \<Rightarrow> 'd"

record 'd socks =
  sys :: 'd
  dbg_sock :: int
  dbg_listen_sock :: int
  tcp_port :: nat

type_synonym ('d, 'a) nact = "('d socks, 'a) act"

text \<open>A call of the system.\<close>

definition sys_call :: "('d \<Rightarrow> 'a \<times> 'd) \<Rightarrow> ('d, 'a) nact" where
  "sys_call f s = (case f (sys s) of (x, d) \<Rightarrow> (Inr x, s\<lparr>sys := d\<rparr>))"

definition dbg_sock_init :: "('d, unit) nact" where
  "dbg_sock_init = bindM (getM dbg_sock) (\<lambda>fd. assertM (fd = -1))"

definition dbg_sock_close :: "'d net \<Rightarrow> ('d, unit) nact" where
  "dbg_sock_close lib = seqM
     (bindM (getM dbg_sock) (\<lambda>fd. whenM (fd \<ge> 0)
        (modM (\<lambda>s. s\<lparr>sys := n_close lib fd (sys s), dbg_sock := -1\<rparr>))))
     (bindM (getM dbg_listen_sock) (\<lambda>fd. whenM (fd \<ge> 0)
        (modM (\<lambda>s. s\<lparr>sys := n_close lib fd (sys s), dbg_listen_sock := -1\<rparr>))))"

definition dbg_sock_cleanup :: "'d net \<Rightarrow> ('d, unit) nact" where
  "dbg_sock_cleanup lib = dbg_sock_close lib"

text \<open>The search for an available port: \<open>p\<close> and the \<open>n\<close> ports from it on.\<close>

primrec find_port :: "'d net \<Rightarrow> int \<Rightarrow> nat \<Rightarrow> nat \<Rightarrow> ('d, nat option) nact" where
  "find_port lib fd p 0 = retM None"
| "find_port lib fd p (Suc n) = bindM (sys_call (n_bind lib fd p)) (\<lambda>ok.
     if ok then retM (Some p) else find_port lib fd (p + 1) n)"

definition RP_PARAM_SOCKPORT_MIN :: nat where "RP_PARAM_SOCKPORT_MIN = 2000"

text \<open>The port is a variable of \<open>main\<close>; 0 asks for any port.\<close>

definition dbg_sock_open :: "'d net \<Rightarrow> ('d, bool) nact" where
  "dbg_sock_open lib = bindM (getM id) (\<lambda>s.
     seqM (assertM (tcp_port s < 0x10000))
    (seqM (assertM (dbg_sock s = -1 \<and> dbg_listen_sock s = -1))
    (bindM (sys_call (n_socket lib)) (\<lambda>fd.
     seqM (modM (\<lambda>s. s\<lparr>dbg_listen_sock := fd\<rparr>))
     (if fd < 0 then retM False
      else if tcp_port s \<noteq> 0 then sys_call (n_bind lib fd (tcp_port s))
      else bindM (find_port lib fd RP_PARAM_SOCKPORT_MIN (0x10000 - RP_PARAM_SOCKPORT_MIN)) (\<lambda>r. case r of
          None \<Rightarrow> retM False
        | Some p \<Rightarrow> seqM (modM (\<lambda>s. s\<lparr>tcp_port := p\<rparr>)) (retM True)))))))"

definition dbg_sock_accept :: "'d net \<Rightarrow> ('d, bool) nact" where
  "dbg_sock_accept lib = bindM (getM id) (\<lambda>s.
     seqM (assertM (dbg_sock s < 0))
    (seqM (assertM (dbg_listen_sock s \<ge> 0))
    (bindM (sys_call (n_listen lib (dbg_listen_sock s))) (\<lambda>ok.
     if \<not> ok then retM False
     else bindM (sys_call (n_accept lib (dbg_listen_sock s))) (\<lambda>fd.
       seqM (modM (\<lambda>s. s\<lparr>dbg_sock := fd\<rparr>))
       (if fd < 0 then retM False
        else bindM (sys_call (n_tcp lib)) (\<lambda>ok.
          if \<not> ok then retM False
          else seqM (modM (\<lambda>s. s\<lparr>sys := n_close lib (dbg_listen_sock s) (sys s), dbg_listen_sock := -1\<rparr>))
            (retM True))))))))"

text \<open>The loop of \<open>main\<close> that waits for the debugger; \<open>attempts\<close> is fuel.\<close>

primrec wait_debugger :: "nat \<Rightarrow> 'd net \<Rightarrow> ('d, unit) nact" where
  "wait_debugger 0 lib = failM Out_of_fuel"
| "wait_debugger (Suc attempts) lib = bindM (dbg_sock_open lib) (\<lambda>ok.
     if \<not> ok then wait_debugger attempts lib
     else bindM (dbg_sock_accept lib) (\<lambda>ok.
       if \<not> ok then seqM (dbg_sock_close lib) (wait_debugger attempts lib) else retM ()))"

section \<open>Options\<close>

text \<open>\<open>atoi\<close>, as glibc has it, assigned to an \<open>unsigned\<close>.\<close>

definition atoi :: "string \<Rightarrow> u32" where
  "atoi s = (case number 10 s of
     None \<Rightarrow> 0
   | Some (neg, v, _) \<Rightarrow> if neg then (if v > 2 ^ 63 then 0 else - of_nat v)
       else if v \<ge> 2 ^ 63 then - 1 else of_nat v)"

text \<open>The program name behind the last slash.\<close>

function chop_path :: "string \<Rightarrow> string" where
  "chop_path name = (if CHR ''/'' \<in> set name
     then chop_path (tl (dropWhile (\<lambda>c. c \<noteq> CHR ''/'') name)) else name)"
  by pat_completeness auto
termination
proof (relation "measure length")
  fix name :: string
  assume "CHR ''/'' \<in> set name"
  then have "dropWhile (\<lambda>c. c \<noteq> CHR ''/'') name \<noteq> []"
    by (simp add: dropWhile_eq_Nil_conv)
  moreover have "length (dropWhile (\<lambda>c. c \<noteq> CHR ''/'') name) \<le> length name"
    by (rule length_dropWhile_le)
  ultimately show "(tl (dropWhile (\<lambda>c. c \<noteq> CHR ''/'') name), name) \<in> measure length"
    by (cases "dropWhile (\<lambda>c. c \<noteq> CHR ''/'') name") auto
qed simp

record proxy_options =
  o_port :: u32
  o_help :: bool
  o_daemon :: bool
  o_debug :: int

text \<open>How the options end: \<open>main\<close> goes on, or returns or exits with a code.\<close>

datatype options_end = Go proxy_options | Quit int

text \<open>The options as \<open>getopt_long\<close> delivers them, each with its argument.\<close>

fun proxy_main_options :: "(char \<times> string) list \<Rightarrow> proxy_options \<Rightarrow> options_end" where
  "proxy_main_options [] opts = Go opts"
| "proxy_main_options ((c, optarg) # xs) opts =
     (if c = CHR ''h'' then proxy_main_options xs (opts\<lparr>o_help := True\<rparr>)
      else if c = CHR ''d'' then proxy_main_options xs (opts\<lparr>o_daemon := True\<rparr>)
      else if c = CHR ''D'' then proxy_main_options xs (opts\<lparr>o_debug := o_debug opts + 1\<rparr>)
      else if c = CHR ''p'' then
        (if atoi optarg = 0 \<or> atoi optarg > 0xFFFF then Quit 1
         else proxy_main_options xs (opts\<lparr>o_port := atoi optarg\<rparr>))
      else if c = CHR ''W'' \<or> c = CHR ''C'' \<or> c = CHR ''V'' then Quit 0
      else Quit 1)"

section \<open>The states of the sockets\<close>

datatype phase = Closed | Listening | Connected

fun in_phase :: "phase \<Rightarrow> 'd socks \<Rightarrow> bool" where
  "in_phase Closed s = (dbg_sock s = -1 \<and> dbg_listen_sock s = -1)"
| "in_phase Listening s = (dbg_sock s = -1 \<and> dbg_listen_sock s \<ge> 0)"
| "in_phase Connected s = (dbg_sock s \<ge> 0 \<and> dbg_listen_sock s = -1)"

lemma sys_call_apply: "sys_call f s = (Inr (fst (f (sys s))), s\<lparr>sys := snd (f (sys s))\<rparr>)"
  by (simp add: sys_call_def case_prod_beta)

text \<open>
  The promise of a system on which the proxy gets its port: sockets and ports are available, and what
  fails afterwards (\<open>listen\<close>, \<open>accept\<close>, the protocol) fails only \<open>fails\<close> more times.
\<close>

definition willing :: "'d net \<Rightarrow> ('d \<Rightarrow> nat) \<Rightarrow> bool" where
  "willing lib fails \<longleftrightarrow>
     (\<forall>d. fst (n_socket lib d) \<ge> 0 \<and> fails (snd (n_socket lib d)) \<le> fails d) \<and>
     (\<forall>fd p d. fst (n_bind lib fd p d) \<and> fails (snd (n_bind lib fd p d)) \<le> fails d) \<and>
     (\<forall>fd d. fails (snd (n_listen lib fd d)) + (if fst (n_listen lib fd d) then 0 else 1) \<le> fails d) \<and>
     (\<forall>fd d. fst (n_accept lib fd d) \<ge> -1 \<and>
        fails (snd (n_accept lib fd d)) + (if fst (n_accept lib fd d) < 0 then 1 else 0) \<le> fails d) \<and>
     (\<forall>d. fails (snd (n_tcp lib d)) + (if fst (n_tcp lib d) then 0 else 1) \<le> fails d) \<and>
     (\<forall>fd d. fails (n_close lib fd d) \<le> fails d)"

lemma willing_open:
  assumes "willing lib fails" and "in_phase Closed s" and "tcp_port s < 0x10000"
  shows "\<exists>s'. dbg_sock_open lib s = (Inr True, s') \<and> in_phase Listening s' \<and> fails (sys s') \<le> fails (sys s) \<and>
    tcp_port s' < 0x10000 \<and> tcp_port s' \<noteq> 0 \<and> (tcp_port s \<noteq> 0 \<longrightarrow> tcp_port s' = tcp_port s)"
proof -
  let ?fd = "fst (n_socket lib (sys s))" and ?d = "snd (n_socket lib (sys s))"
  have fd: "?fd \<ge> 0" "fails ?d \<le> fails (sys s)"
    using assms(1) unfolding willing_def by blast+
  have b: "fst (n_bind lib fd p d)" "fails (snd (n_bind lib fd p d)) \<le> fails d" for fd p d
    using assms(1) unfolding willing_def by blast+
  have le: "fails (snd (n_bind lib ?fd p ?d)) \<le> fails (sys s)" for p
    using b(2) [of ?fd p ?d] fd(2) by (rule le_trans)
  have "find_port lib ?fd p (Suc n) s1 = (Inr (Some p), s1\<lparr>sys := snd (n_bind lib ?fd p (sys s1))\<rparr>)" for p n s1
    using b(1) by (simp add: bindM_apply sys_call_apply retM_apply)
  moreover have "Suc 63535 = 63536"
    by simp
  ultimately have f: "find_port lib ?fd 2000 63536 s1 =
      (Inr (Some 2000), s1\<lparr>sys := snd (n_bind lib ?fd 2000 (sys s1))\<rparr>)" for s1
    by metis
  show ?thesis
    using assms(2,3) fd(1) b(1) le [of "tcp_port s"] le [of 2000]
    by (auto simp: dbg_sock_open_def act_simps sys_call_apply RP_PARAM_SOCKPORT_MIN_def f simp del: find_port.simps)
qed

lemma willing_accept:
  assumes "willing lib fails" and "in_phase Listening s"
  shows "\<exists>ok s'. dbg_sock_accept lib s = (Inr ok, s') \<and> fails (sys s') + (if ok then 0 else 1) \<le> fails (sys s) \<and>
    (ok \<longrightarrow> in_phase Connected s') \<and> dbg_sock s' \<ge> -1 \<and> dbg_listen_sock s' \<ge> -1 \<and> tcp_port s' = tcp_port s"
proof -
  let ?l = "dbg_listen_sock s"
  define d1 where "d1 = snd (n_listen lib ?l (sys s))"
  define d2 where "d2 = snd (n_accept lib ?l d1)"
  define d3 where "d3 = snd (n_tcp lib d2)"
  have w: "fails d1 + (if fst (n_listen lib ?l (sys s)) then 0 else 1) \<le> fails (sys s)"
      "fst (n_accept lib ?l d1) \<ge> -1" "fails d2 + (if fst (n_accept lib ?l d1) < 0 then 1 else 0) \<le> fails d1"
      "fails d3 + (if fst (n_tcp lib d2) then 0 else 1) \<le> fails d2" "fails (n_close lib ?l d3) \<le> fails d3"
    using assms(1) unfolding willing_def d1_def d2_def d3_def by blast+
  show ?thesis
    using assms(2) w
    by (auto simp: dbg_sock_accept_def act_simps sys_call_apply d1_def [symmetric] d2_def [symmetric]
        d3_def [symmetric] split: if_splits)
qed

section \<open>Properties\<close>

text \<open>
  C34: on a system where the proxy gets its port, the loop that waits for the debugger
  ends, connected, with only the connection open, however often listening and accepting fail before; it
  needs one attempt more than there are failures. The port is the one asked for, or some port in range.
\<close>

theorem debugger_gets_connected:
  assumes "willing lib fails" and "in_phase Closed s" and "tcp_port s < 0x10000" and "fails (sys s) < attempts"
  shows "\<exists>s'. wait_debugger attempts lib s = (Inr (), s') \<and> in_phase Connected s' \<and>
    0 < tcp_port s' \<and> tcp_port s' < 0x10000 \<and> (tcp_port s \<noteq> 0 \<longrightarrow> tcp_port s' = tcp_port s)"
  using assms(2-)
proof (induction attempts arbitrary: s)
  case (Suc n)
  obtain s1 where s1: "dbg_sock_open lib s = (Inr True, s1)" "in_phase Listening s1" "fails (sys s1) \<le> fails (sys s)"
      "tcp_port s1 < 0x10000" "tcp_port s1 \<noteq> 0" "tcp_port s \<noteq> 0 \<longrightarrow> tcp_port s1 = tcp_port s"
    using willing_open [OF assms(1) Suc.prems(1,2)] by blast
  obtain ok s2 where s2: "dbg_sock_accept lib s1 = (Inr ok, s2)" "fails (sys s2) + (if ok then 0 else 1) \<le> fails (sys s1)"
      "ok \<longrightarrow> in_phase Connected s2" "dbg_sock s2 \<ge> -1" "dbg_listen_sock s2 \<ge> -1" "tcp_port s2 = tcp_port s1"
    using willing_accept [OF assms(1) s1(2)] by blast
  show ?case
  proof (cases ok)
    case True
    then show ?thesis
      using s1 s2 by (simp add: act_simps)
  next
    case False
    have c: "fails (n_close lib fd d) \<le> fails d" for fd d
      using assms(1) unfolding willing_def by blast
    have "\<exists>s3. dbg_sock_close lib s2 = (Inr (), s3) \<and> in_phase Closed s3 \<and> tcp_port s3 = tcp_port s2 \<and>
        fails (sys s3) \<le> fails (sys s2)"
      using s2(4,5) c [THEN le_trans, OF c] c by (auto simp: dbg_sock_close_def act_simps)
    then obtain s3 where s3: "dbg_sock_close lib s2 = (Inr (), s3)" "in_phase Closed s3" "tcp_port s3 = tcp_port s2"
        "fails (sys s3) \<le> fails (sys s2)"
      by blast
    have "tcp_port s3 < 0x10000" "fails (sys s3) < n"
      using s3(3,4) s2(2,6) s1(3,4) Suc.prems(3) False by auto
    from Suc.IH [OF s3(2) this] show ?thesis
      using s1 s2 s3 False by (auto simp: act_simps)
  qed
qed simp

text \<open>
  Also: the loop does not survive a port that is taken. A failed \<open>bind\<close> leaves the socket open, and the
  next attempt, which the message announces, fails the assertion of \<open>dbg_sock_open\<close>.
\<close>

theorem bind_failure_aborts:
  assumes "in_phase Closed s" and "0 < tcp_port s" and "tcp_port s < 0x10000"
    and "n_socket lib (sys s) = (fd, d)" and "fd \<ge> 0" and "\<not> fst (n_bind lib fd (tcp_port s) d)"
  shows "fst (wait_debugger (Suc (Suc n)) lib s) = Inl Assert_fail"
  using assms by (auto simp: dbg_sock_open_def act_simps sys_call_def case_prod_beta)

section \<open>Witnesses\<close>

text \<open>A system that counts down its failures.\<close>

definition sim_net :: "bool \<Rightarrow> nat net" where
  "sim_net bound = \<lparr>n_socket = (\<lambda>d. (3, d)), n_bind = (\<lambda>_ _ d. (bound, d)), n_listen = (\<lambda>_ d. (True, d)),
     n_accept = (\<lambda>_ d. if d = 0 then (4, d) else (-1, d - 1)), n_tcp = (\<lambda>d. (True, d)), n_close = (\<lambda>_ d. d)\<rparr>"

definition closed_socks :: "nat \<Rightarrow> nat \<Rightarrow> nat socks" where
  "closed_socks p k = \<lparr>sys = k, dbg_sock = -1, dbg_listen_sock = -1, tcp_port = p\<rparr>"

theorem debugger_gets_connected_witness:
  "\<exists>s'. wait_debugger 3 (sim_net True) (closed_socks 2000 2) = (Inr (), s') \<and> in_phase Connected s' \<and> tcp_port s' = 2000"
proof -
  have "willing (sim_net True) id"
    by (auto simp: willing_def sim_net_def)
  from debugger_gets_connected [OF this, of "closed_socks 2000 2" 3] show ?thesis
    by (auto simp: closed_socks_def)
qed

theorem bind_failure_aborts_witness:
  "fst (wait_debugger (Suc (Suc 0)) (sim_net False) (closed_socks 2000 0)) = Inl Assert_fail"
  by (rule bind_failure_aborts [where fd = 3 and d = 0]) (simp_all add: closed_socks_def sim_net_def)

end
